theory Spec2Isabelle
  imports Main "HOL-Library.Word"
begin

unbundle bit_operations_syntax

chapter \<open>A shallow embedding of the NAT64 translator core\<close>

text \<open>
  The development follows the C sources: \<^verbatim>\<open>mod/session_db.c\<close> (session tables, expiration
  timers, configuration), \<^verbatim>\<open>mod/determine_incoming_tuple.c\<close> (tuple extraction),
  \<^verbatim>\<open>mod/translate_packet.c\<close> (post-translation fragmentation) and the headers under
  \<^verbatim>\<open>include/nat64\<close>. Part one holds the model, part two the theorems.

  Conventions. Fixed-width C integers are words (\<open>__u8\<close>, \<open>__u16\<close>, \<open>__u32\<close>, \<open>__u64\<close>;
  \<open>unsigned long\<close> is taken as 64 bits wide). Addresses are kept as their octets in network
  order, so that \<open>memcmp\<close> is the lexicographic comparison of the octet lists. Functions that
  return a negative errno return \<open>Inl\<close> of the error; out parameters and mutated globals are
  returned. \<open>jiffies\<close> is read once per call and passed as the argument \<open>now\<close>.
\<close>

section \<open>Part one: the model\<close>

subsection \<open>Basic types (\<^verbatim>\<open>comm/types.h\<close>, \<^verbatim>\<open>mod/types.h\<close>)\<close>

type_synonym u8 = "8 word"
type_synonym u16 = "16 word"
type_synonym u32 = "32 word"
type_synonym u64 = "64 word"

text \<open>\<open>struct in_addr\<close> (4 octets) and \<open>struct in6_addr\<close> (16 octets), in network order.\<close>

type_synonym in_addr = "u8 list"
type_synonym in6_addr = "u8 list"

datatype errno = EINVAL | EEXIST | ENOENT | ENOMEM

datatype l3_protocol = L3PROTO_IPV6 | L3PROTO_IPV4

datatype l4_protocol = L4PROTO_NONE | L4PROTO_TCP | L4PROTO_UDP | L4PROTO_ICMP

datatype verdict = VER_CONTINUE | VER_ACCEPT | VER_DROP | VER_STOLEN

record ipv6_prefix =
  address :: in6_addr
  len :: u8

subsection \<open>RFC 6052 address translation (\<^verbatim>\<open>mod/rfc6052.h\<close>)\<close>

text \<open>
  Only the declarations of \<open>addr_6to4\<close> and \<open>addr_4to6\<close> are in the header; their bodies are
  not among the sources.
\<close>

text \<open>
  Modelled from the spec: the body of \<open>addr_6to4\<close> is missing. The spec says it ``strips
  prefix from v6 per the prefix length table; returns a 32-bit v4 address'' and fails when the
  prefix length is not one of 32, 40, 48, 56, 64, 96. The table is the one of RFC 6052,
  section 2.2: the four octets of the IPv4 address follow the prefix and skip octet 8
  (the ``u'' octet).
\<close>

definition addr_6to4 :: "in6_addr \<Rightarrow> ipv6_prefix \<Rightarrow> errno + in_addr" where
  "addr_6to4 src prefix =
     (if len prefix = 32 then Inr [src ! 4, src ! 5, src ! 6, src ! 7]
      else if len prefix = 40 then Inr [src ! 5, src ! 6, src ! 7, src ! 9]
      else if len prefix = 48 then Inr [src ! 6, src ! 7, src ! 9, src ! 10]
      else if len prefix = 56 then Inr [src ! 7, src ! 9, src ! 10, src ! 11]
      else if len prefix = 64 then Inr [src ! 9, src ! 10, src ! 11, src ! 12]
      else if len prefix = 96 then Inr [src ! 12, src ! 13, src ! 14, src ! 15]
      else Inl EINVAL)"

text \<open>
  Modelled from the spec: the body of \<open>addr_4to6\<close> is missing. The spec says it ``inserts 32
  bits of v4 into prefix, zeroing the RFC 6052 u byte''. The result is made of the octets of
  the prefix (as many as its length says), the four octets of the IPv4 address at the
  positions of the RFC 6052 table, and zero in every other octet (the u octet and the
  suffix).
\<close>

definition addr_4to6 :: "in_addr \<Rightarrow> ipv6_prefix \<Rightarrow> errno + in6_addr" where
  "addr_4to6 src prefix =
     (let p = address prefix in
      if len prefix = 32 then
        Inr (take 4 p @ [src ! 0, src ! 1, src ! 2, src ! 3] @ [0, 0, 0, 0, 0, 0, 0, 0])
      else if len prefix = 40 then
        Inr (take 5 p @ [src ! 0, src ! 1, src ! 2, 0, src ! 3] @ [0, 0, 0, 0, 0, 0])
      else if len prefix = 48 then
        Inr (take 6 p @ [src ! 0, src ! 1, 0, src ! 2, src ! 3] @ [0, 0, 0, 0, 0])
      else if len prefix = 56 then
        Inr (take 7 p @ [src ! 0, 0, src ! 1, src ! 2, src ! 3] @ [0, 0, 0, 0])
      else if len prefix = 64 then
        Inr (take 8 p @ [0, src ! 0, src ! 1, src ! 2, src ! 3] @ [0, 0, 0])
      else if len prefix = 96 then
        Inr (take 12 p @ [src ! 0, src ! 1, src ! 2, src ! 3])
      else Inl EINVAL)"

text \<open>The prefix lengths of \<open>POOL6_PREFIX_LENGTHS\<close> (\<^verbatim>\<open>comm/constants.h\<close>).\<close>

definition valid_prefix_len :: "u8 \<Rightarrow> bool" where
  "valid_prefix_len l = (l = 32 \<or> l = 40 \<or> l = 48 \<or> l = 56 \<or> l = 64 \<or> l = 96)"

text \<open>
  The kernel's \<open>ipv6_prefix_equal a1 a2 prefixlen\<close> (\<^verbatim>\<open>net/ipv6.h\<close>): the first \<open>prefixlen\<close> bits
  of the two addresses agree. These are the whole octets the length covers and, when the
  length is not a multiple of 8, the high bits of the octet after them. A length over 128
  is no prefix length; the kernel would read past the addresses, the model compares the
  octets the addresses have.
\<close>

definition ipv6_prefix_equal :: "in6_addr \<Rightarrow> in6_addr \<Rightarrow> u8 \<Rightarrow> bool" where
  "ipv6_prefix_equal a1 a2 l =
     (take (unat l div 8) a1 = take (unat l div 8) a2
      \<and> (if unat l mod 8 = 0 then True
         else map (drop_bit (8 - unat l mod 8)) (take 1 (drop (unat l div 8) a1))
              = map (drop_bit (8 - unat l mod 8)) (take 1 (drop (unat l div 8) a2))))"

text \<open>
  The octets of an address that hold neither the prefix nor the embedded IPv4 address (the u
  octet and the suffix) are zero. A /96 address has no such octet.
\<close>

definition zero_outside :: "in6_addr \<Rightarrow> u8 \<Rightarrow> bool" where
  "zero_outside a l =
     (if l = 32 then drop 8 a = [0, 0, 0, 0, 0, 0, 0, 0]
      else if l = 40 then a ! 8 = 0 \<and> drop 10 a = [0, 0, 0, 0, 0, 0]
      else if l = 48 then a ! 8 = 0 \<and> drop 11 a = [0, 0, 0, 0, 0]
      else if l = 56 then a ! 8 = 0 \<and> drop 12 a = [0, 0, 0, 0]
      else if l = 64 then a ! 8 = 0 \<and> drop 13 a = [0, 0, 0]
      else True)"

text \<open>The prefix \<open>64:ff9b::/32\<close> and two addresses inside it, for the examples.\<close>

definition pfx32 :: ipv6_prefix where
  "pfx32 = \<lparr>address = [0, 0x64, 0xff, 0x9b, 0, 0, 0, 0, 0, 0, 0, 0, 0, 0, 0, 0], len = 32\<rparr>"

definition addr6_clean :: in6_addr where
  "addr6_clean = [0, 0x64, 0xff, 0x9b, 192, 0, 2, 1, 0, 0, 0, 0, 0, 0, 0, 0]"

definition addr6_suffix :: in6_addr where
  "addr6_suffix = [0, 0x64, 0xff, 0x9b, 192, 0, 2, 1, 0, 0, 0, 0, 0, 0, 0, 1]"

subsection \<open>Timeouts and the session database configuration\<close>

text \<open>The constants of \<^verbatim>\<open>comm/constants.h\<close>, in seconds (\<open>MIN_TIMER_SLEEP\<close> in jiffies).\<close>

definition UDP_MIN :: u32 where "UDP_MIN = 2 * 60"
definition UDP_DEFAULT :: u32 where "UDP_DEFAULT = 5 * 60"
definition TCP_EST :: u32 where "TCP_EST = 2 * 60 * 60"
definition TCP_TRANS :: u32 where "TCP_TRANS = 4 * 60"
definition TCP_INCOMING_SYN :: u32 where "TCP_INCOMING_SYN = 6"
definition ICMP_DEFAULT :: u32 where "ICMP_DEFAULT = 1 * 60"
definition MIN_TIMER_SLEEP :: u64 where "MIN_TIMER_SLEEP = 255"

text \<open>
  The kernel's \<open>msecs_to_jiffies\<close> (\<^verbatim>\<open>include/linux/jiffies.h\<close>) for a tick rate \<open>HZ\<close> that
  divides 1000 (100, 250 and 1000 are the rates \<^verbatim>\<open>comm/constants.h\<close> names): a negative
  argument gives \<open>MAX_JIFFY_OFFSET\<close>, any other is divided by the length of a tick and rounded
  up. The functions of the session database take the conversion as their first argument.
\<close>

definition MAX_JIFFY_OFFSET :: u64 where
  "MAX_JIFFY_OFFSET = 0x3FFFFFFFFFFFFFFE"

definition msecs_to_jiffies :: "nat \<Rightarrow> u32 \<Rightarrow> u64" where
  "msecs_to_jiffies hz m =
     (if m <s 0 then MAX_JIFFY_OFFSET
      else of_nat ((unat m + 1000 div hz - 1) div (1000 div hz)))"

text \<open>\<open>enum sessiondb_type\<close> and \<open>struct sessiondb_config\<close> (\<^verbatim>\<open>comm/config_proto.h\<close>).\<close>

datatype sessiondb_type = UDP_TIMEOUT | ICMP_TIMEOUT | TCP_EST_TIMEOUT | TCP_TRANS_TIMEOUT

record sessiondb_config =
  ttl_udp :: u64
  ttl_icmp :: u64
  ttl_tcp_est :: u64
  ttl_tcp_trans :: u64

text \<open>
  \<open>sessiondb_set_config type size value\<close> (\<^verbatim>\<open>session_db.c\<close>, line 591). The arguments of the
  model: the conversion \<open>m2j\<close>; whether \<open>kmalloc\<close> succeeds; the type; the size of the
  payload; the 64-bit integer \<open>value64\<close> that \<open>value\<close> points to; the configuration the
  global pointer \<open>config\<close> refers to. The result is the error (\<open>None\<close> for 0) and the
  configuration \<open>config\<close> refers to afterwards: the old one on every failure, the new
  snapshot \<open>tmp_config\<close> after \<open>rcu_assign_pointer\<close>.
\<close>

definition sessiondb_set_config ::
  "(u32 \<Rightarrow> u64) \<Rightarrow> bool \<Rightarrow> sessiondb_type \<Rightarrow> nat \<Rightarrow> u64 \<Rightarrow> sessiondb_config
     \<Rightarrow> errno option \<times> sessiondb_config" where
  "sessiondb_set_config m2j kmalloc_ok ty sz value64 config =
     (let max_u32 = (0xFFFFFFFF :: u64) in
      if sz \<noteq> 8 then (Some EINVAL, config)
      else if value64 > max_u32 then (Some EINVAL, config)
      else
        let jiffs = m2j (ucast value64) in
        if \<not> kmalloc_ok then (Some ENOMEM, config)
        else
          let old_config = config; tmp_config = old_config in
          (case ty of
             UDP_TIMEOUT \<Rightarrow>
               if jiffs < m2j (1000 * UDP_MIN) then (Some EINVAL, config)
               else (None, tmp_config\<lparr>ttl_udp := jiffs\<rparr>)
           | ICMP_TIMEOUT \<Rightarrow> (None, tmp_config\<lparr>ttl_icmp := jiffs\<rparr>)
           | TCP_EST_TIMEOUT \<Rightarrow>
               if jiffs < m2j (1000 * TCP_EST) then (Some EINVAL, config)
               else (None, tmp_config\<lparr>ttl_tcp_est := jiffs\<rparr>)
           | TCP_TRANS_TIMEOUT \<Rightarrow>
               if jiffs < m2j (1000 * TCP_TRANS) then (Some EINVAL, config)
               else (None, tmp_config\<lparr>ttl_tcp_trans := jiffs\<rparr>)))"

text \<open>
  The statement's side: the lower bound of each class in seconds (none for ICMP), and the
  field of the snapshot a type stands for.
\<close>

fun class_minimum :: "sessiondb_type \<Rightarrow> u32 option" where
  "class_minimum UDP_TIMEOUT = Some 120"
| "class_minimum ICMP_TIMEOUT = None"
| "class_minimum TCP_EST_TIMEOUT = Some 7200"
| "class_minimum TCP_TRANS_TIMEOUT = Some 240"

fun with_ttl :: "sessiondb_type \<Rightarrow> u64 \<Rightarrow> sessiondb_config \<Rightarrow> sessiondb_config" where
  "with_ttl UDP_TIMEOUT j c = c\<lparr>ttl_udp := j\<rparr>"
| "with_ttl ICMP_TIMEOUT j c = c\<lparr>ttl_icmp := j\<rparr>"
| "with_ttl TCP_EST_TIMEOUT j c = c\<lparr>ttl_tcp_est := j\<rparr>"
| "with_ttl TCP_TRANS_TIMEOUT j c = c\<lparr>ttl_tcp_trans := j\<rparr>"

text \<open>The configuration \<open>sessiondb_init\<close> installs (\<^verbatim>\<open>session_db.c\<close>, line 524).\<close>

definition sessiondb_init_config :: "(u32 \<Rightarrow> u64) \<Rightarrow> sessiondb_config" where
  "sessiondb_init_config m2j =
     \<lparr>ttl_udp = m2j (1000 * UDP_DEFAULT), ttl_icmp = m2j (1000 * ICMP_DEFAULT),
      ttl_tcp_est = m2j (1000 * TCP_EST), ttl_tcp_trans = m2j (1000 * TCP_TRANS)\<rparr>"

subsection \<open>Tuples and incoming tuple extraction (\<^verbatim>\<open>mod/determine_incoming_tuple.c\<close>)\<close>

text \<open>
  \<open>struct tuple\<close> of \<^verbatim>\<open>mod/types.h\<close>. A \<open>tuple_addr\<close> is an address (\<open>l3\<close>, the union of the
  IPv4 and the IPv6 address) and a layer-4 identifier (\<open>l4\<close>); \<^verbatim>\<open>session_db.c\<close> writes the two
  as \<open>addr.ipv4\<close>/\<open>addr.ipv6\<close> and \<open>l4_id\<close>.
\<close>

record tuple_addr =
  l3 :: "u8 list"
  l4 :: u16

record tuple =
  src :: tuple_addr
  dst :: tuple_addr
  l3_proto :: l3_protocol
  l4_proto :: l4_protocol

text \<open>
  Packet memory is a function from the offset to the octet: the code reads the headers
  through pointer casts and never checks a length here (the packet was validated before this
  step). \<open>be16\<close> is \<open>be16_to_cpu\<close> of the two octets at an offset.
\<close>

type_synonym mem = "nat \<Rightarrow> u8"

definition be16 :: "mem \<Rightarrow> nat \<Rightarrow> u16" where
  "be16 m off = push_bit 8 (ucast (m off)) OR ucast (m (off + 1))"

definition mem_at :: "mem \<Rightarrow> nat \<Rightarrow> mem" where
  "mem_at m off = (\<lambda>i. m (off + i))"

definition mem_bytes :: "mem \<Rightarrow> nat \<Rightarrow> nat \<Rightarrow> u8 list" where
  "mem_bytes m off n = map (\<lambda>i. m (off + i)) [0..<n]"

text \<open>Fields of \<open>struct iphdr\<close>, \<open>struct ipv6hdr\<close>, \<open>struct udphdr\<close>, \<open>struct tcphdr\<close>,
  \<open>struct icmphdr\<close> and \<open>struct icmp6hdr\<close>, by their offsets.\<close>

definition iphdr_ihl :: "mem \<Rightarrow> u8" where "iphdr_ihl h = h 0 AND 0x0F"
definition iphdr_protocol :: "mem \<Rightarrow> u8" where "iphdr_protocol h = h 9"
definition iphdr_saddr :: "mem \<Rightarrow> in_addr" where "iphdr_saddr h = mem_bytes h 12 4"
definition iphdr_daddr :: "mem \<Rightarrow> in_addr" where "iphdr_daddr h = mem_bytes h 16 4"
definition ipv6hdr_saddr :: "mem \<Rightarrow> in6_addr" where "ipv6hdr_saddr h = mem_bytes h 8 16"
definition ipv6hdr_daddr :: "mem \<Rightarrow> in6_addr" where "ipv6hdr_daddr h = mem_bytes h 24 16"
definition l4hdr_source :: "mem \<Rightarrow> u16" where "l4hdr_source h = be16 h 0"
definition l4hdr_dest :: "mem \<Rightarrow> u16" where "l4hdr_dest h = be16 h 2"
definition icmphdr_type :: "mem \<Rightarrow> u8" where "icmphdr_type h = h 0"
definition icmphdr_echo_id :: "mem \<Rightarrow> u16" where "icmphdr_echo_id h = be16 h 4"

definition IPPROTO_ICMP :: u8 where "IPPROTO_ICMP = 1"
definition IPPROTO_TCP :: u8 where "IPPROTO_TCP = 6"
definition IPPROTO_UDP :: u8 where "IPPROTO_UDP = 17"
definition NEXTHDR_TCP :: u8 where "NEXTHDR_TCP = 6"
definition NEXTHDR_UDP :: u8 where "NEXTHDR_UDP = 17"
definition NEXTHDR_ICMP :: u8 where "NEXTHDR_ICMP = 58"

text \<open>
  What the step reads of a \<open>struct sk_buff\<close>: the protocols \<open>skb_l3_proto\<close> and \<open>skb_l4_proto\<close>
  report, the memory at the network header and the memory at the transport header.
\<close>

record sk_buff =
  skb_l3_proto :: l3_protocol
  skb_l4_proto :: l4_protocol
  network_header :: mem
  transport_header :: mem

text \<open>
  Helpers the file calls and the sources do not define: the four ICMP type predicates
  declared in \<^verbatim>\<open>mod/types.h\<close>, and \<open>hdr_iterator_last\<close> of \<^verbatim>\<open>ipv6_hdr_iterator.h\<close>, which
  walks the extension headers of an IPv6 header and leaves the type of the last header and
  a pointer to it in the iterator. They are arguments of the model.
\<close>

record helpers =
  is_icmp4_info :: "u8 \<Rightarrow> bool"
  is_icmp4_error :: "u8 \<Rightarrow> bool"
  is_icmp6_info :: "u8 \<Rightarrow> bool"
  is_icmp6_error :: "u8 \<Rightarrow> bool"
  hdr_iterator_last :: "mem \<Rightarrow> u8 \<times> mem"

definition ipv4_extract_l4_hdr :: "mem \<Rightarrow> mem" where
  "ipv4_extract_l4_hdr hdr_ipv4 = mem_at hdr_ipv4 (unat (iphdr_ihl hdr_ipv4) * 4)"

definition ipv4_udp :: "sk_buff \<Rightarrow> tuple \<Rightarrow> verdict \<times> tuple" where
  "ipv4_udp skb tuple4 =
     (VER_CONTINUE,
      \<lparr>src = \<lparr>l3 = iphdr_saddr (network_header skb), l4 = l4hdr_source (transport_header skb)\<rparr>,
       dst = \<lparr>l3 = iphdr_daddr (network_header skb), l4 = l4hdr_dest (transport_header skb)\<rparr>,
       l3_proto = L3PROTO_IPV4, l4_proto = L4PROTO_UDP\<rparr>)"

definition ipv4_tcp :: "sk_buff \<Rightarrow> tuple \<Rightarrow> verdict \<times> tuple" where
  "ipv4_tcp skb tuple4 =
     (VER_CONTINUE,
      \<lparr>src = \<lparr>l3 = iphdr_saddr (network_header skb), l4 = l4hdr_source (transport_header skb)\<rparr>,
       dst = \<lparr>l3 = iphdr_daddr (network_header skb), l4 = l4hdr_dest (transport_header skb)\<rparr>,
       l3_proto = L3PROTO_IPV4, l4_proto = L4PROTO_TCP\<rparr>)"

definition ipv4_icmp_info :: "sk_buff \<Rightarrow> tuple \<Rightarrow> verdict \<times> tuple" where
  "ipv4_icmp_info skb tuple4 =
     (VER_CONTINUE,
      \<lparr>src = \<lparr>l3 = iphdr_saddr (network_header skb),
              l4 = icmphdr_echo_id (transport_header skb)\<rparr>,
       dst = \<lparr>l3 = iphdr_daddr (network_header skb),
              l4 = icmphdr_echo_id (transport_header skb)\<rparr>,
       l3_proto = L3PROTO_IPV4, l4_proto = L4PROTO_ICMP\<rparr>)"

text \<open>
  \<open>ipv4_icmp_err\<close> (line 62). The inner IPv4 header starts after the 8 octets of the ICMP
  header. The addresses are written first, so they stay written when the function drops.
\<close>

definition ipv4_icmp_err :: "helpers \<Rightarrow> sk_buff \<Rightarrow> tuple \<Rightarrow> verdict \<times> tuple" where
  "ipv4_icmp_err H skb tuple4 =
     (let inner_ipv4 = mem_at (transport_header skb) 8;
          t1 = tuple4\<lparr>src := (src tuple4)\<lparr>l3 := iphdr_daddr inner_ipv4\<rparr>,
                      dst := (dst tuple4)\<lparr>l3 := iphdr_saddr inner_ipv4\<rparr>\<rparr>
      in
      if iphdr_protocol inner_ipv4 = IPPROTO_UDP then
        let inner_udp = ipv4_extract_l4_hdr inner_ipv4 in
        (VER_CONTINUE,
         t1\<lparr>src := (src t1)\<lparr>l4 := l4hdr_dest inner_udp\<rparr>,
            dst := (dst t1)\<lparr>l4 := l4hdr_source inner_udp\<rparr>,
            l4_proto := L4PROTO_UDP, l3_proto := L3PROTO_IPV4\<rparr>)
      else if iphdr_protocol inner_ipv4 = IPPROTO_TCP then
        let inner_tcp = ipv4_extract_l4_hdr inner_ipv4 in
        (VER_CONTINUE,
         t1\<lparr>src := (src t1)\<lparr>l4 := l4hdr_dest inner_tcp\<rparr>,
            dst := (dst t1)\<lparr>l4 := l4hdr_source inner_tcp\<rparr>,
            l4_proto := L4PROTO_TCP, l3_proto := L3PROTO_IPV4\<rparr>)
      else if iphdr_protocol inner_ipv4 = IPPROTO_ICMP then
        let inner_icmp = ipv4_extract_l4_hdr inner_ipv4 in
        if is_icmp4_error H (icmphdr_type inner_icmp) then (VER_DROP, t1)
        else
          (VER_CONTINUE,
           t1\<lparr>src := (src t1)\<lparr>l4 := icmphdr_echo_id inner_icmp\<rparr>,
              dst := (dst t1)\<lparr>l4 := icmphdr_echo_id inner_icmp\<rparr>,
              l4_proto := L4PROTO_ICMP, l3_proto := L3PROTO_IPV4\<rparr>)
      else (VER_DROP, t1))"

definition ipv6_udp :: "sk_buff \<Rightarrow> tuple \<Rightarrow> verdict \<times> tuple" where
  "ipv6_udp skb tuple6 =
     (VER_CONTINUE,
      \<lparr>src = \<lparr>l3 = ipv6hdr_saddr (network_header skb),
              l4 = l4hdr_source (transport_header skb)\<rparr>,
       dst = \<lparr>l3 = ipv6hdr_daddr (network_header skb), l4 = l4hdr_dest (transport_header skb)\<rparr>,
       l3_proto = L3PROTO_IPV6, l4_proto = L4PROTO_UDP\<rparr>)"

definition ipv6_tcp :: "sk_buff \<Rightarrow> tuple \<Rightarrow> verdict \<times> tuple" where
  "ipv6_tcp skb tuple6 =
     (VER_CONTINUE,
      \<lparr>src = \<lparr>l3 = ipv6hdr_saddr (network_header skb),
              l4 = l4hdr_source (transport_header skb)\<rparr>,
       dst = \<lparr>l3 = ipv6hdr_daddr (network_header skb), l4 = l4hdr_dest (transport_header skb)\<rparr>,
       l3_proto = L3PROTO_IPV6, l4_proto = L4PROTO_TCP\<rparr>)"

definition ipv6_icmp_info :: "sk_buff \<Rightarrow> tuple \<Rightarrow> verdict \<times> tuple" where
  "ipv6_icmp_info skb tuple6 =
     (VER_CONTINUE,
      \<lparr>src = \<lparr>l3 = ipv6hdr_saddr (network_header skb),
              l4 = icmphdr_echo_id (transport_header skb)\<rparr>,
       dst = \<lparr>l3 = ipv6hdr_daddr (network_header skb),
              l4 = icmphdr_echo_id (transport_header skb)\<rparr>,
       l3_proto = L3PROTO_IPV6, l4_proto = L4PROTO_ICMP\<rparr>)"

text \<open>\<open>ipv6_icmp_err\<close> (line 145). The inner IPv6 header starts after the 8 octets of the
  ICMPv6 header; the iterator gives the type of its last header and the memory there.\<close>

definition ipv6_icmp_err :: "helpers \<Rightarrow> sk_buff \<Rightarrow> tuple \<Rightarrow> verdict \<times> tuple" where
  "ipv6_icmp_err H skb tuple6 =
     (let inner_ipv6 = mem_at (transport_header skb) 8;
          t1 = tuple6\<lparr>src := (src tuple6)\<lparr>l3 := ipv6hdr_daddr inner_ipv6\<rparr>,
                      dst := (dst tuple6)\<lparr>l3 := ipv6hdr_saddr inner_ipv6\<rparr>\<rparr>;
          hdr_type = fst (hdr_iterator_last H inner_ipv6);
          iterator_data = snd (hdr_iterator_last H inner_ipv6)
      in
      if hdr_type = NEXTHDR_UDP then
        (VER_CONTINUE,
         t1\<lparr>src := (src t1)\<lparr>l4 := l4hdr_dest iterator_data\<rparr>,
            dst := (dst t1)\<lparr>l4 := l4hdr_source iterator_data\<rparr>,
            l4_proto := L4PROTO_UDP, l3_proto := L3PROTO_IPV6\<rparr>)
      else if hdr_type = NEXTHDR_TCP then
        (VER_CONTINUE,
         t1\<lparr>src := (src t1)\<lparr>l4 := l4hdr_dest iterator_data\<rparr>,
            dst := (dst t1)\<lparr>l4 := l4hdr_source iterator_data\<rparr>,
            l4_proto := L4PROTO_TCP, l3_proto := L3PROTO_IPV6\<rparr>)
      else if hdr_type = NEXTHDR_ICMP then
        if is_icmp6_error H (icmphdr_type iterator_data) then (VER_DROP, t1)
        else
          (VER_CONTINUE,
           t1\<lparr>src := (src t1)\<lparr>l4 := icmphdr_echo_id iterator_data\<rparr>,
              dst := (dst t1)\<lparr>l4 := icmphdr_echo_id iterator_data\<rparr>,
              l4_proto := L4PROTO_ICMP, l3_proto := L3PROTO_IPV6\<rparr>)
      else (VER_DROP, t1))"

text \<open>\<open>determine_in_tuple\<close> (line 204). A packet whose layer-4 protocol is \<open>L4PROTO_NONE\<close>
  falls through both switches: the verdict stays \<open>VER_CONTINUE\<close> and the tuple is untouched.\<close>

definition determine_in_tuple :: "helpers \<Rightarrow> sk_buff \<Rightarrow> tuple \<Rightarrow> verdict \<times> tuple" where
  "determine_in_tuple H skb in_tuple =
     (case skb_l3_proto skb of
        L3PROTO_IPV4 \<Rightarrow>
          (case skb_l4_proto skb of
             L4PROTO_UDP \<Rightarrow> ipv4_udp skb in_tuple
           | L4PROTO_TCP \<Rightarrow> ipv4_tcp skb in_tuple
           | L4PROTO_ICMP \<Rightarrow>
               if is_icmp4_info H (icmphdr_type (transport_header skb))
               then ipv4_icmp_info skb in_tuple
               else if is_icmp4_error H (icmphdr_type (transport_header skb))
               then ipv4_icmp_err H skb in_tuple
               else (VER_DROP, in_tuple)
           | L4PROTO_NONE \<Rightarrow> (VER_CONTINUE, in_tuple))
      | L3PROTO_IPV6 \<Rightarrow>
          (case skb_l4_proto skb of
             L4PROTO_UDP \<Rightarrow> ipv6_udp skb in_tuple
           | L4PROTO_TCP \<Rightarrow> ipv6_tcp skb in_tuple
           | L4PROTO_ICMP \<Rightarrow>
               if is_icmp6_info H (icmphdr_type (transport_header skb))
               then ipv6_icmp_info skb in_tuple
               else if is_icmp6_error H (icmphdr_type (transport_header skb))
               then ipv6_icmp_err H skb in_tuple
               else (VER_DROP, in_tuple)
           | L4PROTO_NONE \<Rightarrow> (VER_CONTINUE, in_tuple)))"

text \<open>
  The statement's side: an ICMP error packet is an ICMP packet whose type is an error type
  and not an informational one; \<open>inner4\<close> and \<open>inner6\<close> are the inner packet's header, and
  \<open>swapped\<close> is the tuple the claim describes.
\<close>

definition icmp4_error_packet :: "helpers \<Rightarrow> sk_buff \<Rightarrow> bool" where
  "icmp4_error_packet H skb =
     (skb_l3_proto skb = L3PROTO_IPV4 \<and> skb_l4_proto skb = L4PROTO_ICMP
      \<and> is_icmp4_error H (icmphdr_type (transport_header skb))
      \<and> \<not> is_icmp4_info H (icmphdr_type (transport_header skb)))"

definition icmp6_error_packet :: "helpers \<Rightarrow> sk_buff \<Rightarrow> bool" where
  "icmp6_error_packet H skb =
     (skb_l3_proto skb = L3PROTO_IPV6 \<and> skb_l4_proto skb = L4PROTO_ICMP
      \<and> is_icmp6_error H (icmphdr_type (transport_header skb))
      \<and> \<not> is_icmp6_info H (icmphdr_type (transport_header skb)))"

definition inner4 :: "sk_buff \<Rightarrow> mem" where
  "inner4 skb = mem_at (transport_header skb) 8"

definition inner4_l4 :: "sk_buff \<Rightarrow> mem" where
  "inner4_l4 skb = mem_at (inner4 skb) (unat (iphdr_ihl (inner4 skb)) * 4)"

definition inner6 :: "sk_buff \<Rightarrow> mem" where
  "inner6 skb = mem_at (transport_header skb) 8"

definition swapped :: "in_addr \<Rightarrow> u16 \<Rightarrow> in_addr \<Rightarrow> u16 \<Rightarrow> l3_protocol \<Rightarrow> l4_protocol \<Rightarrow> tuple"
  where
  "swapped inner_src inner_sport inner_dst inner_dport p3 p4 =
     \<lparr>src = \<lparr>l3 = inner_dst, l4 = inner_dport\<rparr>, dst = \<lparr>l3 = inner_src, l4 = inner_sport\<rparr>,
      l3_proto = p3, l4_proto = p4\<rparr>"

text \<open>
  Example packets. \<open>mem_of\<close> reads a list of octets as memory (zero beyond its end). The
  example predicates follow the ICMP type numbers: echo request and reply are informational;
  destination unreachable, source quench, redirect, time exceeded and parameter problem
  (ICMPv4), and the types below 128 (ICMPv6) are errors. The example iterator is the one for
  an inner IPv6 header without extension headers.
\<close>

definition mem_of :: "u8 list \<Rightarrow> mem" where
  "mem_of bs = (\<lambda>i. if i < length bs then bs ! i else 0)"

definition example_helpers :: helpers where
  "example_helpers =
     \<lparr>is_icmp4_info = (\<lambda>t. t = 8 \<or> t = 0),
      is_icmp4_error = (\<lambda>t. t = 3 \<or> t = 4 \<or> t = 5 \<or> t = 11 \<or> t = 12),
      is_icmp6_info = (\<lambda>t. t = 128 \<or> t = 129),
      is_icmp6_error = (\<lambda>t. t < 128),
      hdr_iterator_last = (\<lambda>h. (h 6, mem_at h 40))\<rparr>"

text \<open>An ICMPv4 destination unreachable (type 3, code 1) that quotes a UDP datagram from
  192.168.2.1:4000 to 192.0.2.1:53.\<close>

definition example_icmp4_err :: sk_buff where
  "example_icmp4_err =
     \<lparr>skb_l3_proto = L3PROTO_IPV4, skb_l4_proto = L4PROTO_ICMP,
      network_header = mem_of [0x45, 0, 0, 56, 0, 0, 0, 0, 64, 1, 0, 0,
                               198, 51, 100, 7, 192, 168, 2, 1],
      transport_header = mem_of ([3, 1, 0, 0, 0, 0, 0, 0]
        @ [0x45, 0, 0, 28, 0, 0, 0, 0, 63, 17, 0, 0, 192, 168, 2, 1, 192, 0, 2, 1]
        @ [0x0F, 0xA0, 0, 53, 0, 8, 0, 0])\<rparr>"

text \<open>An ICMPv6 destination unreachable (type 1) that quotes a TCP segment from
  2001:db8::1 port 4000 to 64:ff9b::c000:201 port 80.\<close>

definition example_icmp6_err :: sk_buff where
  "example_icmp6_err =
     \<lparr>skb_l3_proto = L3PROTO_IPV6, skb_l4_proto = L4PROTO_ICMP,
      network_header = mem_of [],
      transport_header = mem_of ([1, 0, 0, 0, 0, 0, 0, 0]
        @ [0x60, 0, 0, 0, 0, 20, 6, 63]
        @ [0x20, 0x01, 0x0d, 0xb8, 0, 0, 0, 0, 0, 0, 0, 0, 0, 0, 0, 1]
        @ [0, 0x64, 0xff, 0x9b, 0, 0, 0, 0, 0, 0, 0, 0, 192, 0, 2, 1]
        @ [0x0F, 0xA0, 0, 80, 0, 0, 0, 0])\<rparr>"

definition empty_tuple :: tuple where
  "empty_tuple = \<lparr>src = \<lparr>l3 = [], l4 = 0\<rparr>, dst = \<lparr>l3 = [], l4 = 0\<rparr>,
                  l3_proto = L3PROTO_IPV6, l4_proto = L4PROTO_NONE\<rparr>"

subsection \<open>Fragmentation after translation (\<^verbatim>\<open>mod/translate_packet.c\<close>, \<^verbatim>\<open>mod/packet.h\<close>)\<close>

text \<open>
  A translated IPv6 fragment is kept as the octets of its \<open>sk_buff\<close> from the network header
  to the tail: 40 octets of IPv6 header, the 8 octets of the fragment header, then the
  data. \<open>skb->len\<close> is the length of the list, and \<open>skb->data\<close> is the network header, as
  \<open>divide\<close> assumes. Header fields are read and written at their offsets.
\<close>

type_synonym skb_octets = "u8 list"

definition be16_at :: "skb_octets \<Rightarrow> nat \<Rightarrow> u16" where
  "be16_at bs off = push_bit 8 (ucast (bs ! off)) OR ucast (bs ! (off + 1))"

definition put_be16 :: "skb_octets \<Rightarrow> nat \<Rightarrow> u16 \<Rightarrow> skb_octets" where
  "put_be16 bs off x = bs[off := ucast (drop_bit 8 x), off + 1 := ucast x]"

definition ipv6hdr_payload_len :: "skb_octets \<Rightarrow> u16" where
  "ipv6hdr_payload_len bs = be16_at bs 4"

definition frag_hdr_nexthdr :: "skb_octets \<Rightarrow> u8" where
  "frag_hdr_nexthdr bs = bs ! 40"

definition frag_hdr_reserved :: "skb_octets \<Rightarrow> u8" where
  "frag_hdr_reserved bs = bs ! 41"

definition frag_hdr_frag_off :: "skb_octets \<Rightarrow> u16" where
  "frag_hdr_frag_off bs = be16_at bs 42"

definition frag_hdr_identification :: "skb_octets \<Rightarrow> u8 list" where
  "frag_hdr_identification bs = [bs ! 44, bs ! 45, bs ! 46, bs ! 47]"

text \<open>The data a fragment carries behind its two headers.\<close>

definition frag_data :: "skb_octets \<Rightarrow> u8 list" where
  "frag_data bs = drop 48 bs"

text \<open>The helpers of \<^verbatim>\<open>packet.h\<close>. \<open>IP6_MF\<close> is \<open>0x0001\<close> and \<open>IP_DF\<close> is \<open>0x4000\<close>.\<close>

definition is_dont_fragment_set :: "u16 \<Rightarrow> bool" where
  "is_dont_fragment_set frag_off = (drop_bit 14 (frag_off AND 0x4000) \<noteq> 0)"

definition is_more_fragments_set_ipv6 :: "skb_octets \<Rightarrow> bool" where
  "is_more_fragments_set_ipv6 bs = (frag_hdr_frag_off bs AND 0x0001 \<noteq> 0)"

definition get_fragment_offset_ipv6 :: "skb_octets \<Rightarrow> u16" where
  "get_fragment_offset_ipv6 bs = frag_hdr_frag_off bs AND 0xFFF8"

definition build_ipv6_frag_off_field :: "u16 \<Rightarrow> bool \<Rightarrow> u16" where
  "build_ipv6_frag_off_field frag_offset mf =
     (frag_offset AND 0xFFF8) OR (if mf then 1 else 0)"

text \<open>
  \<open>set_frag_headers hdr6_old hdr6_new packet_size offset mf\<close> (line 342). \<open>old\<close> is the buffer
  \<open>hdr6_old\<close> points to and \<open>new\<close> the one \<open>hdr6_new\<close> points to; the result is the new
  buffer. Copying the 40 octets changes nothing when the two are the same buffer.
\<close>

definition set_frag_headers :: "skb_octets \<Rightarrow> skb_octets \<Rightarrow> u16 \<Rightarrow> u16 \<Rightarrow> bool \<Rightarrow> skb_octets"
  where
  "set_frag_headers old new packet_size offset mf =
     (let n1 = take 40 old @ drop 40 new;
          n2 = put_be16 n1 4 (packet_size - 40);
          n3 = n2[40 := frag_hdr_nexthdr old, 41 := 0];
          n4 = put_be16 n3 42 (build_ipv6_frag_off_field offset mf)
      in n4[44 := old ! 44, 45 := old ! 45, 46 := old ! 46, 47 := old ! 47])"

text \<open>
  One round of the loop of \<open>divide\<close> (line 401 to 441): the size of the data the new
  fragment takes and the new buffer. \<open>skb\<close> is the first fragment after its headers were
  rewritten and \<open>current_p\<close> is the offset of the pointer from the network header. A new
  buffer has \<open>actual_total_size\<close> octets; all of them are written, the headers by
  \<open>set_frag_headers\<close> and the data by \<open>memcpy\<close>.
\<close>

definition divide_round :: "skb_octets \<Rightarrow> u16 \<Rightarrow> u16 \<Rightarrow> bool \<Rightarrow> nat \<Rightarrow> u16 \<times> skb_octets" where
  "divide_round skb payload_max_size original_fragment_offset original_mf current_p =
     (let is_last = (length skb - current_p \<le> unat payload_max_size);
          actual_payload_size :: u16 =
            (if is_last then of_nat (length skb - current_p)
             else payload_max_size AND 0xFFF8);
          actual_total_size :: u16 = 48 + actual_payload_size;
          hdrs = set_frag_headers skb (replicate 48 0) actual_total_size
                   (original_fragment_offset + (of_nat current_p - 48))
                   (if is_last then original_mf else True);
          new_skb = hdrs @ take (unat actual_payload_size) (drop current_p skb)
      in (actual_payload_size, new_skb))"

text \<open>
  The loop (line 400). \<open>allocs\<close> is the number of rounds for which the kernel still grants
  the allocations of a round (\<open>alloc_skb\<close>, \<open>frag_create_empty\<close>); a failed allocation ends
  the function with \<open>VER_DROP\<close>. \<open>news\<close> are the fragments made so far.
\<close>

fun divide_loop ::
  "nat \<Rightarrow> skb_octets \<Rightarrow> u16 \<Rightarrow> u16 \<Rightarrow> bool \<Rightarrow> nat \<Rightarrow> skb_octets list
     \<Rightarrow> verdict \<times> skb_octets list" where
  "divide_loop 0 skb payload_max_size original_fragment_offset original_mf current_p news =
     (if current_p < length skb then (VER_DROP, news) else (VER_CONTINUE, news))"
| "divide_loop (Suc allocs) skb payload_max_size original_fragment_offset original_mf
       current_p news =
     (if current_p < length skb then
        let r = divide_round skb payload_max_size original_fragment_offset original_mf
                  current_p
        in divide_loop allocs skb payload_max_size original_fragment_offset original_mf
             (current_p + unat (fst r)) (news @ [snd r])
      else (VER_CONTINUE, news))"

text \<open>
  \<open>divide frag list\<close> (line 370): \<open>min_ipv6_mtu\<close> is the configured value, \<open>frag\<close> the
  fragment to divide and \<open>lst\<close> the list it is appended to. The first fragment is cut to
  the MTU only after the loop, so a dropped packet leaves it at its full length.
\<close>

definition divide :: "u16 \<Rightarrow> nat \<Rightarrow> skb_octets \<Rightarrow> skb_octets list \<Rightarrow> verdict \<times> skb_octets list"
  where
  "divide cfg_min_ipv6_mtu allocs frag lst =
     (let min_ipv6_mtu = cfg_min_ipv6_mtu AND 0xFFF8;
          headers_size = (48 :: u16);
          payload_max_size = min_ipv6_mtu - headers_size;
          original_fragment_offset = get_fragment_offset_ipv6 frag;
          original_mf = is_more_fragments_set_ipv6 frag;
          skb = set_frag_headers frag frag min_ipv6_mtu original_fragment_offset True
      in case divide_loop allocs skb payload_max_size original_fragment_offset original_mf
                (unat min_ipv6_mtu) [] of
           (VER_CONTINUE, news) \<Rightarrow> (VER_CONTINUE, lst @ [take (unat min_ipv6_mtu) skb] @ news)
         | (v, news) \<Rightarrow> (v, lst @ [skb] @ news))"

text \<open>
  The IPv4 branch of \<open>translate_fragment\<close> (line 483), after \<open>translate\<close> returned
  \<open>VER_CONTINUE\<close> and the fragment \<open>out\<close>. \<open>in_frag_off\<close> is the \<open>frag_off\<close> field of the
  incoming IPv4 header. The result is the verdict, the list \<open>pkt_out->fragments\<close> and the
  ICMP errors handed to \<open>icmp64_send\<close>, each with its \<open>info\<close> argument.
\<close>

datatype icmp_error_code = ICMPERR_FRAG_NEEDED | ICMPERR_ADDR_UNREACHABLE

definition translate_fragment_ipv4 ::
  "u16 \<Rightarrow> nat \<Rightarrow> u16 \<Rightarrow> skb_octets \<Rightarrow> skb_octets list
     \<Rightarrow> verdict \<times> skb_octets list \<times> (icmp_error_code \<times> int) list" where
  "translate_fragment_ipv4 min_ipv6_mtu allocs in_frag_off out fragments =
     (if length out > unat min_ipv6_mtu then
        if is_dont_fragment_set in_frag_off then
          (VER_DROP, fragments, [(ICMPERR_FRAG_NEEDED, uint min_ipv6_mtu - 20)])
        else
          (case divide min_ipv6_mtu allocs out fragments of
             (v, fs) \<Rightarrow> (v, fs, []))
      else (VER_CONTINUE, fragments @ [out], []))"

text \<open>
  The statement's side. \<open>frag_like skb f\<close>: the fragment \<open>f\<close> has the two headers, and they
  are those of \<open>skb\<close> in everything but the payload length and the fragment offset field
  (so the identification, the next header and the addresses are shared). \<open>fragments_of mtu
  out fs\<close>: what is proved of the fragments \<open>fs\<close> made of the datagram \<open>out\<close>.
  \<open>divide_ready\<close> and \<open>divide_inv\<close> are the precondition and the invariant of the loop.
\<close>

definition divide_ready :: "skb_octets \<Rightarrow> u16 \<Rightarrow> nat \<Rightarrow> bool" where
  "divide_ready skb pms m = (56 \<le> m \<and> m < length skb \<and> 8 dvd m \<and> unat pms = m - 48)"

definition frag_like :: "skb_octets \<Rightarrow> skb_octets \<Rightarrow> bool" where
  "frag_like skb f =
     (48 \<le> length f
      \<and> frag_hdr_identification f = frag_hdr_identification skb
      \<and> frag_hdr_nexthdr f = frag_hdr_nexthdr skb
      \<and> frag_hdr_reserved f = 0
      \<and> take 4 f = take 4 skb \<and> drop 6 (take 40 f) = drop 6 (take 40 skb))"

definition divide_inv ::
  "skb_octets \<Rightarrow> nat \<Rightarrow> u16 \<Rightarrow> bool \<Rightarrow> nat \<Rightarrow> skb_octets list \<Rightarrow> bool" where
  "divide_inv skb m off0 mf0 cp news =
     (m \<le> cp \<and> cp \<le> length skb \<and> (cp < length skb \<longrightarrow> 8 dvd cp)
      \<and> concat (map frag_data news) = take (cp - m) (drop m skb)
      \<and> (\<forall>f \<in> set news. length f \<le> m \<and> frag_like skb f)
      \<and> (\<forall>i < length news. get_fragment_offset_ipv6 (news ! i) =
             off0 + of_nat (m - 48 + length (concat (map frag_data (take i news)))))
      \<and> (cp < length skb \<longrightarrow> (\<forall>f \<in> set news. is_more_fragments_set_ipv6 f))
      \<and> (cp = length skb \<longrightarrow> news \<noteq> [] \<and> (\<forall>f \<in> set (butlast news). is_more_fragments_set_ipv6 f)
            \<and> is_more_fragments_set_ipv6 (last news) = mf0))"

definition fragments_of :: "u16 \<Rightarrow> skb_octets \<Rightarrow> skb_octets list \<Rightarrow> bool" where
  "fragments_of mtu out fs =
     (2 \<le> length fs
      \<and> (\<forall>f \<in> set fs. length f \<le> unat mtu \<and> frag_like out f
             \<and> 8 dvd unat (get_fragment_offset_ipv6 f))
      \<and> (\<forall>f \<in> set (butlast fs). is_more_fragments_set_ipv6 f)
      \<and> is_more_fragments_set_ipv6 (last fs) = is_more_fragments_set_ipv6 out
      \<and> concat (map frag_data fs) = frag_data out
      \<and> (\<forall>i < length fs. get_fragment_offset_ipv6 (fs ! i) =
             get_fragment_offset_ipv6 out
             + of_nat (length (concat (map frag_data (take i fs))))))"

text \<open>Example datagrams of 88 octets (40 of data), the first with the more-fragments flag
  set in its fragment header, the second without.\<close>

definition example_hdr6 :: "u8 list" where
  "example_hdr6 = [0x60, 0, 0, 0, 0, 48, 44, 63]
     @ [0, 0x64, 0xff, 0x9b, 0, 0, 0, 0, 0, 0, 0, 0, 192, 0, 2, 1]
     @ [0x20, 0x01, 0x0d, 0xb8, 0, 0, 0, 0, 0, 0, 0, 0, 0, 0, 0, 1]"

definition example_data :: "u8 list" where
  "example_data = map of_nat [1..<41]"

definition example_frag_mf :: skb_octets where
  "example_frag_mf = example_hdr6 @ [17, 0, 0, 1, 0xAA, 0xBB, 0xCC, 0xDD] @ example_data"

definition example_frag :: skb_octets where
  "example_frag = example_hdr6 @ [17, 0, 0, 0, 0xAA, 0xBB, 0xCC, 0xDD] @ example_data"

subsection \<open>The session database (\<^verbatim>\<open>mod/session_db.c\<close>): entries and comparisons\<close>

text \<open>
  A transport address (\<open>struct ipv4_tuple_address\<close>, \<open>struct ipv6_tuple_address\<close>) is a
  \<open>tuple_addr\<close>: \<open>l3\<close> is the field \<open>address\<close>, \<open>l4\<close> the field \<open>l4_id\<close>. A pair
  (\<open>struct ipv4_pair\<close>, \<open>struct ipv6_pair\<close>) has a \<open>remote\<close> and a \<open>local\<close> transport address.
\<close>

record addr_pair =
  remote :: tuple_addr
  local :: tuple_addr

datatype tcp_state =
  CLOSED | V4_INIT | V6_INIT | ESTABLISHED | V4_FIN_RCV | V6_FIN_RCV | V4_FIN_V6_FIN_RCV | TRANS

text \<open>
  Entries live in memory and are referred to by pointers; a pointer is a number. The
  definitions of \<open>struct bib_entry\<close> and \<open>struct session_entry\<close> are not among the sources;
  the records hold the fields \<^verbatim>\<open>session_db.c\<close> reads and writes. Reference counters are
  left out: no claim depends on when an entry is freed.
\<close>

type_synonym session_ptr = nat
type_synonym bib_ptr = nat

record bib_entry =
  bib_ipv4 :: tuple_addr
  bib_ipv6 :: tuple_addr
  bib_l4_proto :: l4_protocol

record session_entry =
  ipv6 :: addr_pair
  ipv4 :: addr_pair
  session_l4_proto :: l4_protocol
  state :: tcp_state
  update_time :: u64
  bib :: "bib_ptr option"



text \<open>
  \<open>memcmp\<close> over two arrays of the same size: the difference of the first octets that
  differ. \<open>ipv6_addr_cmp\<close> (kernel) and \<open>ipv4_addr_cmp\<close> (\<^verbatim>\<open>mod/types.h\<close>) are \<open>memcmp\<close>.
\<close>

fun memcmp :: "u8 list \<Rightarrow> u8 list \<Rightarrow> int" where
  "memcmp (a # as) (b # bs) = (if a = b then memcmp as bs else uint a - uint b)"
| "memcmp _ _ = 0"

definition ipv6_addr_cmp :: "in6_addr \<Rightarrow> in6_addr \<Rightarrow> int" where
  "ipv6_addr_cmp a1 a2 = memcmp a1 a2"

definition ipv4_addr_cmp :: "in_addr \<Rightarrow> in_addr \<Rightarrow> int" where
  "ipv4_addr_cmp a1 a2 = memcmp a1 a2"

text \<open>The comparison functions (line 128 to 217). The identifiers are 16 bits wide and
  are subtracted as \<open>int\<close>.\<close>

definition compare_full6 :: "session_entry \<Rightarrow> addr_pair \<Rightarrow> int" where
  "compare_full6 session pair =
     (let gap = ipv6_addr_cmp (l3 (local pair)) (l3 (local (ipv6 session))) in
      if gap \<noteq> 0 then gap
      else
        let gap = ipv6_addr_cmp (l3 (remote pair)) (l3 (remote (ipv6 session))) in
        if gap \<noteq> 0 then gap
        else
          let gap = uint (l4 (local pair)) - uint (l4 (local (ipv6 session))) in
          if gap \<noteq> 0 then gap
          else uint (l4 (remote pair)) - uint (l4 (remote (ipv6 session))))"

definition compare_local4 :: "session_entry \<Rightarrow> tuple_addr \<Rightarrow> int" where
  "compare_local4 session addr =
     (let gap = ipv4_addr_cmp (l3 addr) (l3 (local (ipv4 session))) in
      if gap \<noteq> 0 then gap
      else uint (l4 addr) - uint (l4 (local (ipv4 session))))"

definition compare_addrs4 :: "session_entry \<Rightarrow> addr_pair \<Rightarrow> int" where
  "compare_addrs4 session pair =
     (let gap = compare_local4 session (local pair) in
      if gap \<noteq> 0 then gap
      else ipv4_addr_cmp (l3 (remote pair)) (l3 (remote (ipv4 session))))"

definition compare_full4 :: "session_entry \<Rightarrow> addr_pair \<Rightarrow> int" where
  "compare_full4 session pair =
     (let gap = compare_addrs4 session pair in
      if gap \<noteq> 0 then gap
      else uint (l4 (remote pair)) - uint (l4 (remote (ipv4 session))))"

definition compare_local_addr4 :: "session_entry \<Rightarrow> in_addr \<Rightarrow> int" where
  "compare_local_addr4 session addr = ipv4_addr_cmp addr (l3 (local (ipv4 session)))"

definition sessiondb_ipv6_prefix_equal :: "session_entry \<Rightarrow> ipv6_prefix \<Rightarrow> bool" where
  "sessiondb_ipv6_prefix_equal session prefix =
     ipv6_prefix_equal (address prefix) (l3 (local (ipv6 session))) (len prefix)"

definition compare_local_prefix6 :: "session_entry \<Rightarrow> ipv6_prefix \<Rightarrow> int" where
  "compare_local_prefix6 session prefix =
     (let gap = ipv6_addr_cmp (address prefix) (l3 (local (ipv6 session))) in
      if gap = 0 then 0
      else if sessiondb_ipv6_prefix_equal session prefix then 0
      else gap)"

subsection \<open>The session database: tables and trees\<close>

text \<open>
  Modelled from the spec: the red-black trees. \<^verbatim>\<open>rbtree.h\<close> with the macros \<open>rbtree_find\<close>,
  \<open>rbtree_find_node\<close> and \<open>rbtree_add\<close> is not among the sources, and \<open>rb_erase\<close>, \<open>rb_prev\<close>,
  \<open>rb_next\<close> are the kernel's. The spec calls each tree ``an ordered search structure keyed
  on'' the full pair. A tree is kept as the sequence of its nodes in key order (the
  sequence \<open>rb_first\<close>, \<open>rb_next\<close>, ... visits); its shape is not kept. A comparison function
  is called with a node's entry and the key, as the macros call it, and answers negative
  when the key is smaller than the entry, positive when it is greater, zero when they match.
  \<^item> \<open>rbtree_find\<close> gives a node whose entry matches the key, if there is one. Where a key
    matches several nodes the macro finds the one nearest the root; the model takes the
    first in key order.
  \<^item> \<open>rbtree_add\<close> fails with \<open>EEXIST\<close> when a node matches the key of the new entry and
    otherwise links the new node at its place in key order.
  \<^item> \<open>rb_erase\<close> unlinks a node.
\<close>

type_synonym rb_root = "session_ptr list"

definition rbtree_find ::
  "(session_entry \<Rightarrow> 'k \<Rightarrow> int) \<Rightarrow> (session_ptr \<Rightarrow> session_entry) \<Rightarrow> 'k \<Rightarrow> rb_root
     \<Rightarrow> session_ptr option" where
  "rbtree_find compare_fn mem key root = find (\<lambda>p. compare_fn (mem p) key = 0) root"

fun rb_link :: "(session_entry \<Rightarrow> 'k \<Rightarrow> int) \<Rightarrow> (session_ptr \<Rightarrow> session_entry) \<Rightarrow> 'k
     \<Rightarrow> session_ptr \<Rightarrow> rb_root \<Rightarrow> rb_root" where
  "rb_link compare_fn mem key entry [] = [entry]"
| "rb_link compare_fn mem key entry (p # ps) =
     (if compare_fn (mem p) key < 0 then entry # p # ps
      else p # rb_link compare_fn mem key entry ps)"

definition rbtree_add ::
  "(session_entry \<Rightarrow> 'k \<Rightarrow> int) \<Rightarrow> (session_ptr \<Rightarrow> session_entry) \<Rightarrow> 'k
     \<Rightarrow> session_ptr \<Rightarrow> rb_root \<Rightarrow> errno + rb_root" where
  "rbtree_add compare_fn mem key entry root =
     (case rbtree_find compare_fn mem key root of
        Some _ \<Rightarrow> Inl EEXIST
      | None \<Rightarrow> Inr (rb_link compare_fn mem key entry root))"

definition rb_erase :: "session_ptr \<Rightarrow> rb_root \<Rightarrow> rb_root" where
  "rb_erase node root = removeAll node root"

text \<open>The nodes before a node, nearest first (\<open>rb_prev\<close>, \<open>rb_prev\<close> of that, ...), and the
  nodes after it (\<open>rb_next\<close>, ...).\<close>

definition rb_prevs :: "session_ptr \<Rightarrow> rb_root \<Rightarrow> session_ptr list" where
  "rb_prevs node root = rev (takeWhile (\<lambda>p. p \<noteq> node) root)"

definition rb_nexts :: "session_ptr \<Rightarrow> rb_root \<Rightarrow> session_ptr list" where
  "rb_nexts node root = tl (dropWhile (\<lambda>p. p \<noteq> node) root)"

text \<open>\<open>struct session_table\<close> (line 21) and \<open>struct expire_timer\<close> (line 44). The timer is
  \<open>Some\<close> of its expiry time while it is pending. The table and the timeout of an expirer
  are fixed at initialisation and are functions of its name.\<close>

record session_table =
  tree6 :: rb_root
  tree4 :: rb_root
  count :: u64

record expire_timer =
  timer :: "u64 option"
  sessions :: "session_ptr list"

datatype table_id = SESSION_TABLE_UDP | SESSION_TABLE_TCP | SESSION_TABLE_ICMP

datatype expirer_id =
  EXPIRER_UDP | EXPIRER_TCP_EST | EXPIRER_TCP_TRANS | EXPIRER_ICMP | EXPIRER_SYN

text \<open>What leaves the module: a probe handed to \<open>ip6_local_out\<close>, or an ICMP error about a
  stored packet (which no function of this file sends).\<close>

record ipv6hdr =
  version :: nat
  priority :: u8
  flow_lbl :: "u8 list"
  payload_len :: u16
  nexthdr :: u8
  hop_limit :: u8
  saddr :: in6_addr
  daddr :: in6_addr

record tcphdr =
  source :: u16
  dest :: u16
  seq :: u32
  ack_seq :: u32
  res1 :: nat
  doff :: nat
  fin :: bool
  syn :: bool
  rst :: bool
  psh :: bool
  ack :: bool
  urg :: bool
  ece :: bool
  cwr :: bool
  window :: u16
  check :: u16
  urg_ptr :: u16

record probe_packet =
  iph :: ipv6hdr
  th :: tcphdr
  skb_len :: nat

datatype emitted = PROBE probe_packet | ICMP_ERROR icmp_error_code session_ptr

text \<open>The state of the module: the memory of the entries, the three tables, the five
  expirers, the configuration and what was sent so far.\<close>

record sessiondb =
  heap :: "session_ptr \<Rightarrow> session_entry"
  bibs :: "bib_ptr \<Rightarrow> bib_entry"
  tables :: "table_id \<Rightarrow> session_table"
  expirers :: "expirer_id \<Rightarrow> expire_timer"
  config :: sessiondb_config
  outbox :: "emitted list"

text \<open>The kernel as the module sees it: the conversion of milliseconds, whether the
  allocation of a buffer, the routing and the dispatch of a probe succeed, the TCP
  checksum (\<open>csum_ipv6_magic\<close> over \<open>csum_partial\<close>), and the memory that follows the
  configuration object: \<open>memory_after_config i\<close> is the 64-bit word at index \<open>i\<close> counted from
  the start of the object, for the indexes past its four fields.\<close>

record kernel =
  kernel_m2j :: "u32 \<Rightarrow> u64"
  alloc_skb_ok :: bool
  route_ipv6_ok :: bool
  ip6_local_out_ok :: bool
  tcp_csum :: "in6_addr \<Rightarrow> in6_addr \<Rightarrow> tcphdr \<Rightarrow> u16"
  memory_after_config :: "nat \<Rightarrow> u64"

definition get_session_table :: "l4_protocol \<Rightarrow> errno + table_id" where
  "get_session_table proto =
     (case proto of
        L4PROTO_UDP \<Rightarrow> Inr SESSION_TABLE_UDP
      | L4PROTO_TCP \<Rightarrow> Inr SESSION_TABLE_TCP
      | L4PROTO_ICMP \<Rightarrow> Inr SESSION_TABLE_ICMP
      | L4PROTO_NONE \<Rightarrow> Inl EINVAL)"

fun expirer_table :: "expirer_id \<Rightarrow> table_id" where
  "expirer_table EXPIRER_UDP = SESSION_TABLE_UDP"
| "expirer_table EXPIRER_TCP_EST = SESSION_TABLE_TCP"
| "expirer_table EXPIRER_TCP_TRANS = SESSION_TABLE_TCP"
| "expirer_table EXPIRER_SYN = SESSION_TABLE_TCP"
| "expirer_table EXPIRER_ICMP = SESSION_TABLE_ICMP"

subsection \<open>The session database: expiration\<close>

text \<open>The kernel's \<open>time_before a b\<close>: \<open>(long)(a - b) < 0\<close>, correct across the wrap of
  \<open>jiffies\<close>.\<close>

definition time_before :: "u64 \<Rightarrow> u64 \<Rightarrow> bool" where
  "time_before a b = (a - b <s 0)"

text \<open>\<open>schedule_timer\<close> (line 340); \<open>mod_timer\<close> sets the expiry time and makes the timer
  pending.\<close>

definition schedule_timer :: "u64 \<Rightarrow> expirer_id \<Rightarrow> u64 \<Rightarrow> sessiondb \<Rightarrow> sessiondb" where
  "schedule_timer now expirer next_time db =
     (let min_next = now + MIN_TIMER_SLEEP;
          next_time = (if time_before next_time min_next then min_next else next_time)
      in db\<lparr>expirers := (expirers db)(expirer := (expirers db expirer)\<lparr>timer := Some next_time\<rparr>)\<rparr>)"

text \<open>
  The \<open>timeout_offset\<close> of an expirer, as \<open>sessiondb_init\<close> (line 536 to 544) sets it:
  \<open>offsetof(struct sessiondb_config, ttl.udp)\<close> and so on, in octets; the four fields of
  \<open>struct sessiondb_config\<close> (\<^verbatim>\<open>comm/config_proto.h\<close>, line 229) are 64 bits wide and come in
  the order \<open>udp\<close>, \<open>icmp\<close>, \<open>tcp_est\<close>, \<open>tcp_trans\<close>.
\<close>

definition timeout_offset :: "expirer_id \<Rightarrow> nat" where
  "timeout_offset expirer =
     (case expirer of
        EXPIRER_UDP \<Rightarrow> 0
      | EXPIRER_ICMP \<Rightarrow> 8
      | EXPIRER_TCP_EST \<Rightarrow> 16
      | EXPIRER_TCP_TRANS \<Rightarrow> 24
      | EXPIRER_SYN \<Rightarrow> 0)"

text \<open>The 64-bit word at an index of the configuration seen as an array of \<open>__u64\<close>: one of
  the four fields, or memory that lies after the object.\<close>

definition config_word :: "kernel \<Rightarrow> sessiondb_config \<Rightarrow> nat \<Rightarrow> u64" where
  "config_word K c i =
     (if i = 0 then ttl_udp c
      else if i = 1 then ttl_icmp c
      else if i = 2 then ttl_tcp_est c
      else if i = 3 then ttl_tcp_trans c
      else memory_after_config K i)"

text \<open>
  \<open>get_timeout\<close> (line 351). The expression is
  \<^verbatim>\<open>*(expirer->timeout_offset + (__u64 *) rcu_dereference_bh(config))\<close>: the offset in octets
  is added to a pointer to \<open>__u64\<close>, so it counts 64-bit words, and the word read is the one
  at index \<open>timeout_offset\<close>, not the one at octet \<open>timeout_offset\<close>.
\<close>

definition get_timeout :: "kernel \<Rightarrow> expirer_id \<Rightarrow> sessiondb \<Rightarrow> u64" where
  "get_timeout K expirer db =
     (if expirer = EXPIRER_SYN then kernel_m2j K (1000 * TCP_INCOMING_SYN)
      else config_word K (config db) (timeout_offset expirer))"

text \<open>
  \<open>send_probe_packet\<close> (line 229). The buffer holds an IPv6 header (40 octets) and a TCP
  header (20 octets) and nothing else. When the allocation, the routing or the dispatch
  fails, the function logs and returns, and nothing is sent.
\<close>

definition probe_of :: "kernel \<Rightarrow> session_entry \<Rightarrow> probe_packet" where
  "probe_of K session =
     (let l3_hdr_len = 40; l4_hdr_len = 20;
          ip = \<lparr>version = 6, priority = 0, flow_lbl = [0, 0, 0],
                payload_len = of_nat l4_hdr_len, nexthdr = NEXTHDR_TCP, hop_limit = 255,
                saddr = l3 (local (ipv6 session)), daddr = l3 (remote (ipv6 session))\<rparr>;
          t = \<lparr>source = l4 (local (ipv6 session)), dest = l4 (remote (ipv6 session)),
               seq = 0, ack_seq = 0, res1 = 0, doff = l4_hdr_len div 4,
               fin = False, syn = False, rst = False, psh = False, ack = True, urg = False,
               ece = False, cwr = False, window = 8192, check = 0, urg_ptr = 0\<rparr>
      in \<lparr>iph = ip, th = t\<lparr>check := tcp_csum K (saddr ip) (daddr ip) t\<rparr>,
          skb_len = l3_hdr_len + l4_hdr_len\<rparr>)"

definition send_probe_packet :: "kernel \<Rightarrow> session_entry \<Rightarrow> sessiondb \<Rightarrow> sessiondb" where
  "send_probe_packet K session db =
     (if \<not> alloc_skb_ok K then db
      else if \<not> route_ipv6_ok K then db
      else if \<not> ip6_local_out_ok K then db
      else db\<lparr>outbox := outbox db @ [PROBE (probe_of K session)]\<rparr>)"

text \<open>\<open>list_del\<close> of an entry's \<open>expire_list_hook\<close> takes it out of the list it is in;
  \<open>list_add_tail\<close> puts it last in an expirer's list.\<close>

definition list_del :: "session_ptr \<Rightarrow> sessiondb \<Rightarrow> sessiondb" where
  "list_del p db =
     db\<lparr>expirers := (\<lambda>e. (expirers db e)\<lparr>sessions := removeAll p (sessions (expirers db e))\<rparr>)\<rparr>"

definition list_add_tail :: "session_ptr \<Rightarrow> expirer_id \<Rightarrow> sessiondb \<Rightarrow> sessiondb" where
  "list_add_tail p expirer db =
     db\<lparr>expirers := (expirers db)
          (expirer := (expirers db expirer)\<lparr>sessions := sessions (expirers db expirer) @ [p]\<rparr>)\<rparr>"

text \<open>\<open>remove\<close> (line 318): out of both trees and out of its expiration list. It does not
  touch the count of the table; the callers add up its result, which is always 1.\<close>

definition remove_session :: "session_ptr \<Rightarrow> table_id \<Rightarrow> sessiondb \<Rightarrow> sessiondb" where
  "remove_session session table db =
     list_del session
       (db\<lparr>tables := (tables db)
             (table := (tables db table)\<lparr>tree6 := rb_erase session (tree6 (tables db table)),
                                         tree4 := rb_erase session (tree4 (tables db table))\<rparr>)\<rparr>)"

definition set_state :: "session_ptr \<Rightarrow> tcp_state \<Rightarrow> sessiondb \<Rightarrow> sessiondb" where
  "set_state p st db = db\<lparr>heap := (heap db)(p := (heap db p)\<lparr>state := st\<rparr>)\<rparr>"

definition set_update_time :: "session_ptr \<Rightarrow> u64 \<Rightarrow> sessiondb \<Rightarrow> sessiondb" where
  "set_update_time p t db = db\<lparr>heap := (heap db)(p := (heap db p)\<lparr>update_time := t\<rparr>)\<rparr>"

text \<open>
  \<open>session_expire\<close> (line 388): whether the entry is to be destroyed, and the state after
  the call. For \<open>V4_INIT\<close> the call that would send the ICMP error is commented out in the
  source (``TODO (Issue #58) send the stored packet''), so \<open>session_expire\<close> sends nothing
  itself; the packet stored for the session is held by the packet store
  (\<^verbatim>\<open>mod/pkt_queue.h\<close>), whose code is not among the sources.
\<close>

definition session_expire :: "kernel \<Rightarrow> u64 \<Rightarrow> session_ptr \<Rightarrow> sessiondb \<Rightarrow> bool \<times> sessiondb"
  where
  "session_expire K now session db =
     (case session_l4_proto (heap db session) of
        L4PROTO_UDP \<Rightarrow> (True, db)
      | L4PROTO_ICMP \<Rightarrow> (True, db)
      | L4PROTO_TCP \<Rightarrow>
          (case state (heap db session) of
             V4_INIT \<Rightarrow> (True, set_state session CLOSED db)
           | ESTABLISHED \<Rightarrow>
               (let db1 = send_probe_packet K (heap db session) db;
                    db2 = set_update_time session now (set_state session TRANS db1);
                    db3 = list_add_tail session EXPIRER_TCP_TRANS (list_del session db2);
                    db4 = (if timer (expirers db3 EXPIRER_TCP_TRANS) = None
                           then schedule_timer now EXPIRER_TCP_TRANS
                                  (now + get_timeout K EXPIRER_TCP_TRANS db3) db3
                           else db3)
                in (False, db4))
           | V6_INIT \<Rightarrow> (True, set_state session CLOSED db)
           | V4_FIN_RCV \<Rightarrow> (True, set_state session CLOSED db)
           | V6_FIN_RCV \<Rightarrow> (True, set_state session CLOSED db)
           | V4_FIN_V6_FIN_RCV \<Rightarrow> (True, set_state session CLOSED db)
           | TRANS \<Rightarrow> (True, set_state session CLOSED db)
           | CLOSED \<Rightarrow> (True, db))
      | L4PROTO_NONE \<Rightarrow> (True, db))"

text \<open>An entry that \<open>session_expire\<close> keeps: a TCP entry in state \<open>ESTABLISHED\<close>.\<close>

definition is_established :: "session_entry \<Rightarrow> bool" where
  "is_established s = (session_l4_proto s = L4PROTO_TCP \<and> state s = ESTABLISHED)"

definition sub_count :: "table_id \<Rightarrow> nat \<Rightarrow> sessiondb \<Rightarrow> sessiondb" where
  "sub_count table s db =
     db\<lparr>tables := (tables db)
          (table := (tables db table)\<lparr>count := count (tables db table) - of_nat s\<rparr>)\<rparr>"

lemma heap_list_del [simp]: "heap (list_del p db) = heap db"
  by (simp add: list_del_def)

lemma heap_list_add_tail [simp]: "heap (list_add_tail p e db) = heap db"
  by (simp add: list_add_tail_def)

lemma heap_schedule_timer [simp]: "heap (schedule_timer now e t db) = heap db"
  by (simp add: schedule_timer_def Let_def)

lemma heap_send_probe_packet [simp]: "heap (send_probe_packet K s db) = heap db"
  by (simp add: send_probe_packet_def)

lemma heap_remove_session [simp]: "heap (remove_session p t db) = heap db"
  by (simp add: remove_session_def)

lemma heap_sub_count [simp]: "heap (sub_count t s db) = heap db"
  by (simp add: sub_count_def)

lemma session_expire_heap:
  "heap (snd (session_expire K now p db)) q =
     (if q \<noteq> p then heap db q
      else if session_l4_proto (heap db p) \<noteq> L4PROTO_TCP \<or> state (heap db p) = CLOSED
        then heap db p
      else if state (heap db p) = ESTABLISHED
        then (heap db p)\<lparr>state := TRANS, update_time := now\<rparr>
      else (heap db p)\<lparr>state := CLOSED\<rparr>)"
  by (cases "session_l4_proto (heap db p)"; cases "state (heap db p)")
     (simp_all add: session_expire_def set_state_def set_update_time_def Let_def)

lemma session_expire_destroy:
  "fst (session_expire K now p db) = (\<not> is_established (heap db p))"
  by (cases "session_l4_proto (heap db p)"; cases "state (heap db p)")
     (simp_all add: session_expire_def is_established_def Let_def)

lemma session_expire_established:
  "is_established (heap (snd (session_expire K now p db)) q)
     = (q \<noteq> p \<and> is_established (heap db q))"
  by (auto simp: session_expire_heap is_established_def)

lemma est_filter_le:
  "length (filter (\<lambda>q. q \<noteq> p \<and> is_established (heap db q)) rest)
     \<le> length (filter (\<lambda>q. is_established (heap db q)) rest)"
  by (induction rest) auto

lemma est_filter_lt:
  "2 * length (filter (\<lambda>q. q \<noteq> p \<and> is_established (heap db q)) rest)
     < Suc (2 * length (filter (\<lambda>q. is_established (heap db q)) rest))"
  "2 * length (filter (\<lambda>q. q \<noteq> p \<and> is_established (heap db q)) rest)
     < Suc (Suc (2 * length (filter (\<lambda>q. is_established (heap db q)) rest)))"
  "2 * length (filter (\<lambda>q. q \<noteq> p \<and> is_established (heap db q)) rest)
     < Suc (Suc (Suc (2 * length (filter (\<lambda>q. is_established (heap db q)) rest))))"
  "2 * length (filter (\<lambda>q. q \<noteq> p \<and> is_established (heap db q)) rest)
     < 3 + 2 * length (filter (\<lambda>q. is_established (heap db q)) rest)"
  using est_filter_le [of p db rest] by arith+

text \<open>
  The loop of \<open>cleaner_timer\<close> (line 462), \<open>list_for_each_safe\<close> over the expirer's list. The
  fifth argument is the part of the list from the current node on. The next node is read
  before the body runs; an entry that \<open>session_expire\<close> keeps was moved to the tail of the
  list of \<open>expirer_tcp_trans\<close>, so when that is the list being walked and the entry was not
  its last node, the walk meets the entry again at the end. \<open>s\<close> counts the removals.
\<close>

function cleaner_loop ::
  "kernel \<Rightarrow> u64 \<Rightarrow> expirer_id \<Rightarrow> u64 \<Rightarrow> session_ptr list \<Rightarrow> sessiondb \<Rightarrow> nat \<Rightarrow> sessiondb"
  where
  "cleaner_loop K now expirer timeout [] db s = sub_count (expirer_table expirer) s db"
| "cleaner_loop K now expirer timeout (session # rest) db s =
     (if time_before now (update_time (heap db session) + timeout) then
        schedule_timer now expirer (update_time (heap db session) + timeout)
          (sub_count (expirer_table expirer) s db)
      else if \<not> fst (session_expire K now session db) then
        cleaner_loop K now expirer timeout
          (if expirer = EXPIRER_TCP_TRANS \<and> rest \<noteq> [] then rest @ [session] else rest)
          (snd (session_expire K now session db)) s
      else
        cleaner_loop K now expirer timeout rest
          (remove_session session (expirer_table expirer) (snd (session_expire K now session db)))
          (s + 1))"
  by pat_completeness auto
termination
proof (relation "measure (\<lambda>(K, now, expirer, timeout, wl, db, s).
         length wl + 2 * length (filter (\<lambda>q. is_established (heap db q)) wl))",
       goal_cases)
  case 1
  show ?case by simp
next
  case 2
  then show ?case
    by (auto simp: session_expire_established session_expire_destroy est_filter_lt)
next
  case 3
  then show ?case
    by (auto simp: session_expire_established est_filter_lt)
qed

text \<open>\<open>cleaner_timer\<close> (line 447), for the expirer whose timer fired.\<close>

definition cleaner_timer :: "kernel \<Rightarrow> u64 \<Rightarrow> expirer_id \<Rightarrow> sessiondb \<Rightarrow> sessiondb" where
  "cleaner_timer K now expirer db =
     cleaner_loop K now expirer (get_timeout K expirer db) (sessions (expirers db expirer)) db 0"

text \<open>
  The statement's side. \<open>expired\<close>: the deadline of an entry has passed. \<open>expire_all\<close>:
  the entries of a list expire one after the other (\<open>session_expire\<close>, and \<open>remove\<close> where it
  says so), with the count of removals. \<open>expired_heap\<close>: what \<open>session_expire\<close> leaves of an
  entry. \<open>expire_all_post\<close>: the state after \<open>expire_all\<close>, component by component.
\<close>

fun expire_all ::
  "kernel \<Rightarrow> u64 \<Rightarrow> expirer_id \<Rightarrow> session_ptr list \<Rightarrow> sessiondb \<Rightarrow> nat \<Rightarrow> sessiondb \<times> nat"
  where
  "expire_all K now e [] db s = (db, s)"
| "expire_all K now e (q # qs) db s =
     (if fst (session_expire K now q db)
      then expire_all K now e qs
             (remove_session q (expirer_table e) (snd (session_expire K now q db))) (s + 1)
      else expire_all K now e qs (snd (session_expire K now q db)) s)"

definition expired :: "u64 \<Rightarrow> u64 \<Rightarrow> session_entry \<Rightarrow> bool" where
  "expired now timeout s = (\<not> time_before now (update_time s + timeout))"

definition expired_heap :: "u64 \<Rightarrow> session_entry \<Rightarrow> session_entry" where
  "expired_heap now s =
     (if session_l4_proto s \<noteq> L4PROTO_TCP \<or> state s = CLOSED then s
      else if state s = ESTABLISHED then s\<lparr>state := TRANS, update_time := now\<rparr>
      else s\<lparr>state := CLOSED\<rparr>)"

definition expire_all_post ::
  "kernel \<Rightarrow> u64 \<Rightarrow> expirer_id \<Rightarrow> session_ptr list \<Rightarrow> sessiondb \<Rightarrow> nat \<Rightarrow> bool" where
  "expire_all_post K now e pre db s =
     (let db1 = fst (expire_all K now e pre db s);
          destroyed = (\<lambda>r. r \<in> set pre \<and> \<not> is_established (heap db r)) in
      snd (expire_all K now e pre db s) = s + length (filter destroyed pre)
      \<and> config db1 = config db
      \<and> (\<forall>r. heap db1 r = (if r \<in> set pre then expired_heap now (heap db r) else heap db r))
      \<and> (\<forall>t. count (tables db1 t) = count (tables db t))
      \<and> (\<forall>t. tree6 (tables db1 t) =
             (if t = expirer_table e
              then filter (\<lambda>r. \<not> destroyed r) (tree6 (tables db t))
              else tree6 (tables db t)))
      \<and> (\<forall>t. tree4 (tables db1 t) =
             (if t = expirer_table e
              then filter (\<lambda>r. \<not> destroyed r) (tree4 (tables db t))
              else tree4 (tables db t)))
      \<and> (\<forall>e'. sessions (expirers db1 e') =
             filter (\<lambda>r. r \<notin> set pre) (sessions (expirers db e'))
             @ (if e' = EXPIRER_TCP_TRANS
                then filter (\<lambda>q. is_established (heap db q)) pre else [])))"

text \<open>
  Example states, with a jiffy of one millisecond. \<open>example_entry\<close> is a session between
  \<open>2001:db8::1\<close> and \<open>192.0.2.1\<close> port 80 through the pool address \<open>192.168.2.1\<close>; the port
  of the IPv6 node, the protocol, the state and the time of the last update are arguments.
\<close>

definition example_kernel :: kernel where
  "example_kernel =
     \<lparr>kernel_m2j = msecs_to_jiffies 1000, alloc_skb_ok = True, route_ipv6_ok = True,
      ip6_local_out_ok = True, tcp_csum = (\<lambda>_ _ _. 0), memory_after_config = (\<lambda>_. 0)\<rparr>"

definition example_entry :: "l4_protocol \<Rightarrow> tcp_state \<Rightarrow> u16 \<Rightarrow> u64 \<Rightarrow> session_entry" where
  "example_entry proto st port t =
     \<lparr>ipv6 = \<lparr>remote = \<lparr>l3 = [0x20, 0x01, 0x0d, 0xb8, 0, 0, 0, 0, 0, 0, 0, 0, 0, 0, 0, 1],
                        l4 = port\<rparr>,
              local = \<lparr>l3 = [0, 0x64, 0xff, 0x9b, 0, 0, 0, 0, 0, 0, 0, 0, 192, 0, 2, 1],
                       l4 = 80\<rparr>\<rparr>,
      ipv4 = \<lparr>remote = \<lparr>l3 = [192, 0, 2, 1], l4 = 80\<rparr>,
              local = \<lparr>l3 = [192, 168, 2, 1], l4 = port\<rparr>\<rparr>,
      session_l4_proto = proto, state = st, update_time = t, bib = Some 0\<rparr>"

definition empty_db :: sessiondb where
  "empty_db =
     \<lparr>heap = (\<lambda>_. example_entry L4PROTO_NONE CLOSED 0 0),
      bibs = (\<lambda>_. \<lparr>bib_ipv4 = \<lparr>l3 = [192, 168, 2, 1], l4 = 0\<rparr>,
                   bib_ipv6 = \<lparr>l3 = [0x20, 0x01, 0x0d, 0xb8, 0, 0, 0, 0, 0, 0, 0, 0, 0, 0, 0, 1],
                               l4 = 0\<rparr>,
                   bib_l4_proto = L4PROTO_NONE\<rparr>),
      tables = (\<lambda>_. \<lparr>tree6 = [], tree4 = [], count = 0\<rparr>),
      expirers = (\<lambda>_. \<lparr>timer = None, sessions = []\<rparr>),
      config = sessiondb_init_config (msecs_to_jiffies 1000),
      outbox = []\<rparr>"

text \<open>Two UDP sessions, last updated at 0 and at 299000; the UDP timeout is 300000.\<close>

definition example_db_udp :: sessiondb where
  "example_db_udp =
     empty_db\<lparr>heap := (heap empty_db)
                (1 := example_entry L4PROTO_UDP CLOSED 1001 0,
                 2 := example_entry L4PROTO_UDP CLOSED 1002 299000),
              tables := (tables empty_db)
                (SESSION_TABLE_UDP := \<lparr>tree6 = [1, 2], tree4 = [1, 2], count = 2\<rparr>),
              expirers := (expirers empty_db)
                (EXPIRER_UDP := \<lparr>timer = None, sessions = [1, 2]\<rparr>)\<rparr>"

text \<open>One TCP session in the given state, last updated at 0, in the list of an expirer.\<close>

definition example_db_tcp :: "tcp_state \<Rightarrow> expirer_id \<Rightarrow> sessiondb" where
  "example_db_tcp st e =
     empty_db\<lparr>heap := (heap empty_db)(1 := example_entry L4PROTO_TCP st 1001 0),
              tables := (tables empty_db)
                (SESSION_TABLE_TCP := \<lparr>tree6 = [1], tree4 = [1], count = 1\<rparr>),
              expirers := (expirers empty_db)(e := \<lparr>timer = None, sessions = [1]\<rparr>)\<rparr>"

text \<open>One ICMP session, last updated at 0, in the list of the ICMP expirer; the configured
  ICMP timeout is 60000.\<close>

definition example_db_icmp :: sessiondb where
  "example_db_icmp =
     empty_db\<lparr>heap := (heap empty_db)(1 := example_entry L4PROTO_ICMP CLOSED 1001 0),
              tables := (tables empty_db)
                (SESSION_TABLE_ICMP := \<lparr>tree6 = [1], tree4 = [1], count = 1\<rparr>),
              expirers := (expirers empty_db)
                (EXPIRER_ICMP := \<lparr>timer = None, sessions = [1]\<rparr>)\<rparr>"

text \<open>The three steps of \<open>send_probe_packet\<close> that can fail all succeed.\<close>

definition kernel_sends :: "kernel \<Rightarrow> bool" where
  "kernel_sends K = (alloc_skb_ok K \<and> route_ipv6_ok K \<and> ip6_local_out_ok K)"

text \<open>The example kernel when no route to the IPv6 node is found.\<close>

definition example_kernel_no_route :: kernel where
  "example_kernel_no_route = example_kernel\<lparr>route_ipv6_ok := False\<rparr>"

text \<open>Two established TCP sessions in the list of the expirer of established sessions,
  last updated at 0 and at 10000000.\<close>

definition example_db_tcp2 :: sessiondb where
  "example_db_tcp2 =
     empty_db\<lparr>heap := (heap empty_db)
                (1 := example_entry L4PROTO_TCP ESTABLISHED 1001 0,
                 2 := example_entry L4PROTO_TCP ESTABLISHED 1002 10000000),
              tables := (tables empty_db)
                (SESSION_TABLE_TCP := \<lparr>tree6 = [1, 2], tree4 = [1, 2], count = 2\<rparr>),
              expirers := (expirers empty_db)
                (EXPIRER_TCP_EST := \<lparr>timer = None, sessions = [1, 2]\<rparr>)\<rparr>"

subsection \<open>Adding sessions (\<^verbatim>\<open>mod/session_db.c\<close>, \<open>sessiondb_add\<close> and \<open>sessiondb_get_or_create_*\<close>)\<close>

text \<open>
  \<open>sessiondb_add\<close> (line 744). A null \<open>session\<close> is \<open>None\<close>. The key handed to \<open>rbtree_add\<close> is
  the field of the new session itself (\<open>ipv6\<close>, then \<open>ipv4\<close>). The reference counter that
  \<open>session_get\<close> raises is not part of the state.
\<close>

definition sessiondb_add :: "session_ptr option \<Rightarrow> sessiondb \<Rightarrow> errno option \<times> sessiondb" where
  "sessiondb_add session_arg db =
     (case session_arg of
        None \<Rightarrow> (Some EINVAL, db)
      | Some session \<Rightarrow>
          (case get_session_table (session_l4_proto (heap db session)) of
             Inl error \<Rightarrow> (Some error, db)
           | Inr table \<Rightarrow>
               (case rbtree_add compare_full6 (heap db) (ipv6 (heap db session)) session
                       (tree6 (tables db table)) of
                  Inl _ \<Rightarrow> (Some EEXIST, db)
                | Inr t6 \<Rightarrow>
                    (case rbtree_add compare_full4 (heap db) (ipv4 (heap db session)) session
                            (tree4 (tables db table)) of
                       Inl _ \<Rightarrow>
                         (Some EEXIST,
                          db\<lparr>tables := (tables db)
                               (table := (tables db table)\<lparr>tree6 := rb_erase session t6\<rparr>)\<rparr>)
                     | Inr t4 \<Rightarrow>
                         (None,
                          db\<lparr>tables := (tables db)
                               (table := \<lparr>tree6 = t6, tree4 = t4,
                                          count = count (tables db table) + 1\<rparr>)\<rparr>)))))"




text \<open>The two UDP sessions of \<open>example_db_udp\<close> and a third entry, not yet in the table, that
  has IPv6 addresses of its own and the IPv4 addresses of the first.\<close>

definition example_db_collide :: sessiondb where
  "example_db_collide =
     example_db_udp\<lparr>heap := (heap example_db_udp)
       (3 := (example_entry L4PROTO_UDP CLOSED 1003 0)
               \<lparr>ipv4 := ipv4 (example_entry L4PROTO_UDP CLOSED 1001 0)\<rparr>)\<rparr>"









subsection \<open>Bulk removal (\<^verbatim>\<open>mod/session_db.c\<close>, line 1036 to 1354)\<close>

text \<open>
  The kernel's \<open>rb_prev\<close> and \<open>rb_next\<close>: the node before and the node after a node in key
  order, if there is one, and the node at the top of a tree (\<open>root->rb_node\<close>). Since the shape
  of a tree is not kept, the top of a tree that is not empty is taken to be its middle node.
\<close>

datatype direction = LEFT | RIGHT

definition rb_prev :: "session_ptr \<Rightarrow> rb_root \<Rightarrow> session_ptr option" where
  "rb_prev node root = (case rb_prevs node root of [] \<Rightarrow> None | q # _ \<Rightarrow> Some q)"

definition rb_next :: "session_ptr \<Rightarrow> rb_root \<Rightarrow> session_ptr option" where
  "rb_next node root = (case rb_nexts node root of [] \<Rightarrow> None | q # _ \<Rightarrow> Some q)"

definition rb_step :: "direction \<Rightarrow> session_ptr \<Rightarrow> rb_root \<Rightarrow> session_ptr option" where
  "rb_step dir node root = (case dir of LEFT \<Rightarrow> rb_prev node root | RIGHT \<Rightarrow> rb_next node root)"

definition rb_node :: "rb_root \<Rightarrow> session_ptr option" where
  "rb_node root = (if root = [] then None else Some (root ! (length root div 2)))"

lemma rb_step_in_tree: "rb_step dir node root = Some q \<Longrightarrow> q \<in> set root"
proof (cases dir)
  case LEFT
  assume "rb_step dir node root = Some q"
  then have "q \<in> set (rb_prevs node root)"
    using LEFT by (auto simp: rb_step_def rb_prev_def split: list.splits)
  then show ?thesis
    by (auto simp: rb_prevs_def dest: set_takeWhileD)
next
  case RIGHT
  assume "rb_step dir node root = Some q"
  then have "q \<in> set (rb_nexts node root)"
    using RIGHT by (auto simp: rb_step_def rb_next_def split: list.splits)
  then have "q \<in> set (dropWhile (\<lambda>p. p \<noteq> node) root)"
    unfolding rb_nexts_def by (cases "dropWhile (\<lambda>p. p \<noteq> node) root") simp_all
  then show ?thesis by (rule set_dropWhileD)
qed

text \<open>The two hooks of a session: the tree it is looked up in.\<close>

datatype hook = TREE6_HOOK | TREE4_HOOK

definition tree_of :: "hook \<Rightarrow> session_table \<Rightarrow> rb_root" where
  "tree_of h table = (case h of TREE6_HOOK \<Rightarrow> tree6 table | TREE4_HOOK \<Rightarrow> tree4 table)"

lemma tree_of_remove_session:
  "tree_of h (tables (remove_session p table db) table) =
     removeAll p (tree_of h (tables db table))"
  by (cases h) (simp_all add: tree_of_def remove_session_def list_del_def rb_erase_def)

lemma length_removeAll_in: "q \<in> set xs \<Longrightarrow> length (removeAll q xs) < length xs"
  by (induction xs) (auto simp: less_Suc_eq_le)

text \<open>
  The loops of \<open>sessiondb_delete_by_bib\<close> (line 1059 and 1070) and of
  \<open>delete_sessions_by_ipv4\<close>: as long as the node next to \<open>root_session\<close> on one side matches
  the key, remove it and look at the node that is next to \<open>root_session\<close> now. The two loops
  of a function differ in the direction only. \<open>s\<close> counts the sessions removed.
\<close>

function delete_beside ::
  "direction \<Rightarrow> (session_entry \<Rightarrow> 'k \<Rightarrow> int) \<Rightarrow> 'k \<Rightarrow> session_ptr \<Rightarrow> table_id \<Rightarrow> sessiondb
     \<Rightarrow> nat \<Rightarrow> sessiondb \<times> nat" where
  "delete_beside dir compare_fn key root_session table db s =
     (case rb_step dir root_session (tree4 (tables db table)) of
        None \<Rightarrow> (db, s)
      | Some session \<Rightarrow>
          if compare_fn (heap db session) key \<noteq> 0 then (db, s)
          else delete_beside dir compare_fn key root_session table
                 (remove_session session table db) (s + 1))"
  by pat_completeness auto
termination
proof (relation "measure (\<lambda>(dir, compare_fn, key, root_session, table, db, s).
                    length (tree_of TREE4_HOOK (tables db table)))", goal_cases)
  case 1
  show ?case by simp
next
  case (2 dir compare_fn key root_session table db s session)
  then have "session \<in> set (tree_of TREE4_HOOK (tables db table))"
    by (auto simp: tree_of_def dest: rb_step_in_tree)
  then show ?case
    by (simp add: tree_of_remove_session length_removeAll_in)
qed

declare delete_beside.simps [simp del]

text \<open>
  The loops of \<open>delete_sessions_by_ipv6_prefix\<close> (line 1264 and 1274) and of \<open>flush_aux\<close>
  (line 1322 and 1329): the node after the current one is read before the current one is
  removed. The first stops at a session outside the prefix, the second at the end of the
  tree.
\<close>

function delete_along ::
  "direction \<Rightarrow> hook \<Rightarrow> (session_entry \<Rightarrow> bool) \<Rightarrow> session_ptr option \<Rightarrow> table_id \<Rightarrow> sessiondb
     \<Rightarrow> nat \<Rightarrow> sessiondb \<times> nat" where
  "delete_along dir h matches None table db s = (db, s)"
| "delete_along dir h matches (Some session) table db s =
     (if \<not> matches (heap db session) then (db, s)
      else delete_along dir h matches (rb_step dir session (tree_of h (tables db table))) table
             (remove_session session table db) (s + 1))"
  by pat_completeness auto
termination
proof (relation "measure (\<lambda>(dir, h, matches, node, table, db, s).
                    case node of None \<Rightarrow> 0
                    | Some q \<Rightarrow> 2 * length (tree_of h (tables db table))
                        + (if q \<in> set (tree_of h (tables db table)) then 1 else 2))",
       goal_cases)
  case 1
  show ?case by simp
next
  case (2 dir h matches session table db s)
  show ?case
  proof (cases "rb_step dir session (tree_of h (tables db table))")
    case None
    then show ?thesis by simp
  next
    case (Some q)
    then have q: "q \<in> set (tree_of h (tables db table))" by (rule rb_step_in_tree)
    show ?thesis
    proof (cases "session \<in> set (tree_of h (tables db table))")
      case True
      then have "length (removeAll session (tree_of h (tables db table)))
                   < length (tree_of h (tables db table))"
        by (rule length_removeAll_in)
      then show ?thesis using Some True by (simp add: tree_of_remove_session)
    next
      case False
      then show ?thesis using Some q by (simp add: tree_of_remove_session)
    qed
  qed
qed

declare delete_along.simps [simp del]

text \<open>
  \<open>sessiondb_delete_by_bib\<close> (line 1036). The answer is the error code: \<open>None\<close> stands for 0.
  The number of sessions removed, \<open>s\<close>, is taken off the count of the table and written to
  the debug log; it is not returned.
\<close>

definition sessiondb_delete_by_bib :: "bib_ptr \<Rightarrow> sessiondb \<Rightarrow> errno option \<times> sessiondb" where
  "sessiondb_delete_by_bib b db =
     (case get_session_table (bib_l4_proto (bibs db b)) of
        Inl error \<Rightarrow> (Some error, db)
      | Inr table \<Rightarrow>
          (case rbtree_find compare_local4 (heap db) (bib_ipv4 (bibs db b))
                  (tree4 (tables db table)) of
             None \<Rightarrow> (None, db)
           | Some root_session \<Rightarrow>
               (let (db1, s1) = delete_beside LEFT compare_local4 (bib_ipv4 (bibs db b))
                                  root_session table db 0;
                    (db2, s2) = delete_beside RIGHT compare_local4 (bib_ipv4 (bibs db b))
                                  root_session table db1 s1
                in (None, sub_count table (s2 + 1) (remove_session root_session table db2)))))"

text \<open>\<open>delete_sessions_by_ipv4\<close> (line 1093) and \<open>sessiondb_delete_by_ipv4\<close> (line 1136), which
  drops the answers of the three calls; a null address is \<open>None\<close>.\<close>

definition delete_sessions_by_ipv4 :: "table_id \<Rightarrow> in_addr \<Rightarrow> sessiondb \<Rightarrow> errno option \<times> sessiondb"
  where
  "delete_sessions_by_ipv4 table addr db =
     (case rbtree_find compare_local_addr4 (heap db) addr (tree4 (tables db table)) of
        None \<Rightarrow> (None, db)
      | Some root_session \<Rightarrow>
          (let (db1, s1) = delete_beside LEFT compare_local_addr4 addr root_session table db 0;
               (db2, s2) = delete_beside RIGHT compare_local_addr4 addr root_session table db1 s1
           in (None, sub_count table (s2 + 1) (remove_session root_session table db2))))"

definition sessiondb_delete_by_ipv4 :: "in_addr option \<Rightarrow> sessiondb \<Rightarrow> errno option \<times> sessiondb"
  where
  "sessiondb_delete_by_ipv4 addr4 db =
     (case addr4 of
        None \<Rightarrow> (Some EINVAL, db)
      | Some addr \<Rightarrow>
          (let db1 = snd (delete_sessions_by_ipv4 SESSION_TABLE_TCP addr db);
               db2 = snd (delete_sessions_by_ipv4 SESSION_TABLE_ICMP addr db1);
               db3 = snd (delete_sessions_by_ipv4 SESSION_TABLE_UDP addr db2)
           in (None, db3)))"

text \<open>\<open>delete_sessions_by_ipv6_prefix\<close> (line 1250) and \<open>sessiondb_delete_by_ipv6_prefix\<close>
  (line 1293).\<close>

definition delete_sessions_by_ipv6_prefix ::
  "table_id \<Rightarrow> ipv6_prefix \<Rightarrow> sessiondb \<Rightarrow> errno option \<times> sessiondb" where
  "delete_sessions_by_ipv6_prefix table prefix db =
     (case rbtree_find compare_local_prefix6 (heap db) prefix (tree6 (tables db table)) of
        None \<Rightarrow> (None, db)
      | Some root_session \<Rightarrow>
          (let (db1, s1) =
                 delete_along LEFT TREE6_HOOK
                   (\<lambda>session. sessiondb_ipv6_prefix_equal session prefix)
                   (rb_prev root_session (tree6 (tables db table))) table db 0;
               (db2, s2) =
                 delete_along RIGHT TREE6_HOOK
                   (\<lambda>session. sessiondb_ipv6_prefix_equal session prefix)
                   (rb_next root_session (tree6 (tables db1 table))) table db1 s1
           in (None, sub_count table (s2 + 1) (remove_session root_session table db2))))"

definition sessiondb_delete_by_ipv6_prefix ::
  "ipv6_prefix option \<Rightarrow> sessiondb \<Rightarrow> errno option \<times> sessiondb" where
  "sessiondb_delete_by_ipv6_prefix prefix_arg db =
     (case prefix_arg of
        None \<Rightarrow> (Some EINVAL, db)
      | Some prefix \<Rightarrow>
          (let db1 = snd (delete_sessions_by_ipv6_prefix SESSION_TABLE_TCP prefix db);
               db2 = snd (delete_sessions_by_ipv6_prefix SESSION_TABLE_ICMP prefix db1);
               db3 = snd (delete_sessions_by_ipv6_prefix SESSION_TABLE_UDP prefix db2)
           in (None, db3)))"

text \<open>\<open>flush_aux\<close> (line 1305) and \<open>sessiondb_flush\<close> (line 1345).\<close>

definition flush_aux :: "table_id \<Rightarrow> sessiondb \<Rightarrow> errno option \<times> sessiondb" where
  "flush_aux table db =
     (case rb_node (tree4 (tables db table)) of
        None \<Rightarrow> (None, db)
      | Some root_session \<Rightarrow>
          (let (db1, s1) =
                 delete_along LEFT TREE4_HOOK (\<lambda>session. True)
                   (rb_prev root_session (tree4 (tables db table))) table db 0;
               (db2, s2) =
                 delete_along RIGHT TREE4_HOOK (\<lambda>session. True)
                   (rb_next root_session (tree4 (tables db1 table))) table db1 s1
           in (None, sub_count table (s2 + 1) (remove_session root_session table db2))))"

definition sessiondb_flush :: "sessiondb \<Rightarrow> errno option \<times> sessiondb" where
  "sessiondb_flush db =
     (let db1 = snd (flush_aux SESSION_TABLE_UDP db);
          db2 = snd (flush_aux SESSION_TABLE_TCP db1);
          db3 = snd (flush_aux SESSION_TABLE_ICMP db2)
      in (None, db3))"

text \<open>The value of the \<open>int\<close> a function returns: 0, or the negative of the kernel's error
  number.\<close>

definition errno_number :: "errno \<Rightarrow> int" where
  "errno_number e = (case e of ENOENT \<Rightarrow> 2 | ENOMEM \<Rightarrow> 12 | EEXIST \<Rightarrow> 17 | EINVAL \<Rightarrow> 22)"

definition returned :: "errno option \<Rightarrow> int" where
  "returned r = (case r of None \<Rightarrow> 0 | Some e \<Rightarrow> - errno_number e)"

text \<open>Removing a sequence of sessions from a table, one after the other.\<close>

fun remove_sessions :: "session_ptr list \<Rightarrow> table_id \<Rightarrow> sessiondb \<Rightarrow> sessiondb" where
  "remove_sessions [] table db = db"
| "remove_sessions (p # ps) table db = remove_sessions ps table (remove_session p table db)"

text \<open>
  What \<open>sessiondb_delete_by_bib\<close> and \<open>delete_sessions_by_ipv4\<close> make of the database once
  \<open>rbtree_find\<close> has answered \<open>root_session\<close>: the two loops, the removal of \<open>root_session\<close>
  and the subtraction from the count.
\<close>

definition beside_result ::
  "(session_entry \<Rightarrow> 'k \<Rightarrow> int) \<Rightarrow> 'k \<Rightarrow> session_ptr \<Rightarrow> table_id \<Rightarrow> sessiondb \<Rightarrow> sessiondb"
  where
  "beside_result c key r T db =
     (let (db1, s1) = delete_beside LEFT c key r T db 0;
          (db2, s2) = delete_beside RIGHT c key r T db1 s1
      in sub_count T (s2 + 1) (remove_session r T db2))"

text \<open>
  The database with the two UDP sessions and the UDP entry of the BIB that the first one
  belongs to (\<open>192.168.2.1\<close> port 1001); the entries of the BIB at other indices have no
  protocol. The pool prefix \<open>64:ff9b::/96\<close>, which the IPv6 local address of both sessions
  lies in.
\<close>

definition example_db_udp_bib :: sessiondb where
  "example_db_udp_bib =
     example_db_udp\<lparr>bibs := (bibs example_db_udp)
       (0 := \<lparr>bib_ipv4 = \<lparr>l3 = [192, 168, 2, 1], l4 = 1001\<rparr>,
              bib_ipv6 = \<lparr>l3 = [0x20, 0x01, 0x0d, 0xb8, 0, 0, 0, 0, 0, 0, 0, 0, 0, 0, 0, 1],
                          l4 = 1001\<rparr>,
              bib_l4_proto = L4PROTO_UDP\<rparr>)\<rparr>"

definition example_prefix96 :: ipv6_prefix where
  "example_prefix96 =
     \<lparr>address = [0, 0x64, 0xff, 0x9b, 0, 0, 0, 0, 0, 0, 0, 0, 0, 0, 0, 0], len = 96\<rparr>"

section \<open>Part two: the theorems\<close>

subsection \<open>RFC 6052 round trip\<close>

lemma list16_nth:
  "length (a::'a list) = 16 \<Longrightarrow>
   a = [a!0, a!1, a!2, a!3, a!4, a!5, a!6, a!7, a!8, a!9, a!10, a!11, a!12, a!13, a!14, a!15]"
  by (simp add: list_eq_iff_nth_eq nth_Cons' less_Suc_eq eval_nat_numeral)

lemma list16_ex:
  "length (a::'a list) = 16 \<Longrightarrow>
   \<exists>a0 a1 a2 a3 a4 a5 a6 a7 a8 a9 a10 a11 a12 a13 a14 a15.
     a = [a0, a1, a2, a3, a4, a5, a6, a7, a8, a9, a10, a11, a12, a13, a14, a15]"
  using list16_nth by blast

text \<open>
  Claim C9, as stated: for every valid prefix \<open>p\<close> and every address \<open>a\<close> inside \<open>p\<close>,
  \<open>addr_4to6 (addr_6to4 a p) p = a\<close>. It fails: \<open>addr6_suffix\<close> lies in \<open>64:ff9b::/32\<close>, its
  last octet is 1, and the way back writes zero there.
\<close>

theorem addr_roundtrip_counterexample:
  "valid_prefix_len (len pfx32) \<and> length addr6_suffix = 16
   \<and> ipv6_prefix_equal (address pfx32) addr6_suffix (len pfx32)
   \<and> addr_6to4 addr6_suffix pfx32 = Inr [192, 0, 2, 1]
   \<and> addr_4to6 [192, 0, 2, 1] pfx32 = Inr addr6_clean
   \<and> addr6_clean \<noteq> addr6_suffix"
  by (simp add: pfx32_def addr6_suffix_def addr6_clean_def valid_prefix_len_def
      ipv6_prefix_equal_def addr_6to4_def addr_4to6_def)

text \<open>
  Claim C9, amended: for every valid prefix \<open>p\<close> and every address \<open>a\<close> inside \<open>p\<close> whose
  octets outside the prefix and the embedded IPv4 address are zero (always so for /96),
  translating \<open>a\<close> to IPv4 and back with \<open>p\<close> gives \<open>a\<close>.
\<close>

theorem addr_6to4_4to6_roundtrip:
  assumes "valid_prefix_len (len p)" and "length a = 16"
    and "ipv6_prefix_equal (address p) a (len p)"
    and "zero_outside a (len p)"
  shows "\<exists>v. addr_6to4 a p = Inr v \<and> addr_4to6 v p = Inr a"
proof -
  obtain a0 a1 a2 a3 a4 a5 a6 a7 a8 a9 a10 a11 a12 a13 a14 a15
    where a: "a = [a0, a1, a2, a3, a4, a5, a6, a7, a8, a9, a10, a11, a12, a13, a14, a15]"
    using list16_ex [OF assms(2)] by blast
  from assms(1) consider "len p = 32" | "len p = 40" | "len p = 48" | "len p = 56"
    | "len p = 64" | "len p = 96"
    by (auto simp: valid_prefix_len_def)
  then show ?thesis
  proof cases
    case 1
    with assms(3,4) show ?thesis
      by (simp add: a addr_6to4_def addr_4to6_def ipv6_prefix_equal_def zero_outside_def)
  next
    case 2
    with assms(3,4) show ?thesis
      by (simp add: a addr_6to4_def addr_4to6_def ipv6_prefix_equal_def zero_outside_def)
  next
    case 3
    with assms(3,4) show ?thesis
      by (simp add: a addr_6to4_def addr_4to6_def ipv6_prefix_equal_def zero_outside_def)
  next
    case 4
    with assms(3,4) show ?thesis
      by (simp add: a addr_6to4_def addr_4to6_def ipv6_prefix_equal_def zero_outside_def)
  next
    case 5
    with assms(3,4) show ?thesis
      by (simp add: a addr_6to4_def addr_4to6_def ipv6_prefix_equal_def zero_outside_def)
  next
    case 6
    with assms(3,4) show ?thesis
      by (simp add: a addr_6to4_def addr_4to6_def ipv6_prefix_equal_def zero_outside_def)
  qed
qed

theorem addr_6to4_4to6_roundtrip_witness:
  "\<exists>v. addr_6to4 addr6_clean pfx32 = Inr v \<and> addr_4to6 v pfx32 = Inr addr6_clean"
  by (rule addr_6to4_4to6_roundtrip)
     (simp_all add: pfx32_def addr6_clean_def valid_prefix_len_def ipv6_prefix_equal_def
        zero_outside_def)

subsection \<open>Updating the timeouts\<close>

lemma msecs_to_jiffies_250_examples:
  "msecs_to_jiffies 250 119999 = 30000" "msecs_to_jiffies 250 120000 = 30000"
  "msecs_to_jiffies 250 (1000 * UDP_MIN) = 30000"
  by (simp_all add: msecs_to_jiffies_def UDP_MIN_def word_sless_alt)

text \<open>
  Claim C10, as stated: an update is rejected whenever the value is below the minimum of its
  class (UDP: 120 seconds). It fails where a jiffy is longer than a millisecond: the code
  compares after \<open>msecs_to_jiffies\<close>, which rounds up. With \<open>HZ = 250\<close> the value 119999 ms is
  below 120 s, but it is 30000 jiffies as 120 s is, and the update is accepted.
\<close>

theorem sessiondb_set_config_counterexample:
  "(119999 :: u64) < 1000 * 120
   \<and> sessiondb_set_config (msecs_to_jiffies 250) True UDP_TIMEOUT 8 119999
        (sessiondb_init_config (msecs_to_jiffies 250))
      = (None, (sessiondb_init_config (msecs_to_jiffies 250))\<lparr>ttl_udp := 30000\<rparr>)"
  by (simp add: sessiondb_set_config_def msecs_to_jiffies_250_examples)

text \<open>
  Claim C10, amended: \<open>sessiondb_set_config\<close> rejects the update with \<open>EINVAL\<close> and leaves
  the stored configuration unchanged whenever the payload size is not 8 bytes, the value
  exceeds \<open>0xFFFFFFFF\<close> milliseconds, or the value converted to jiffies is below the minimum of
  its class converted to jiffies (UDP 120 s, TCP established 7200 s, TCP transitory 240 s;
  none for ICMP); a failed allocation gives \<open>ENOMEM\<close> and changes nothing either. In every
  other case it succeeds and the stored configuration is replaced as a whole by the snapshot
  that differs from the old one in the one timeout.
\<close>

theorem sessiondb_set_config_spec:
  "sessiondb_set_config m2j kmalloc_ok ty sz v cfg =
     (if sz \<noteq> 8 \<or> 0xFFFFFFFF < v then (Some EINVAL, cfg)
      else if \<not> kmalloc_ok then (Some ENOMEM, cfg)
      else case class_minimum ty of
             None \<Rightarrow> (None, with_ttl ty (m2j (ucast v)) cfg)
           | Some secs \<Rightarrow>
               if m2j (ucast v) < m2j (1000 * secs) then (Some EINVAL, cfg)
               else (None, with_ttl ty (m2j (ucast v)) cfg))"
  by (cases ty)
     (simp_all add: sessiondb_set_config_def Let_def UDP_MIN_def TCP_EST_def TCP_TRANS_def)

theorem sessiondb_set_config_spec_witness:
  "sessiondb_set_config (msecs_to_jiffies 1000) True UDP_TIMEOUT 8 119999
     (sessiondb_init_config (msecs_to_jiffies 1000))
   = (Some EINVAL, sessiondb_init_config (msecs_to_jiffies 1000))
   \<and> sessiondb_set_config (msecs_to_jiffies 1000) True ICMP_TIMEOUT 8 0
     (sessiondb_init_config (msecs_to_jiffies 1000))
   = (None, (sessiondb_init_config (msecs_to_jiffies 1000))\<lparr>ttl_icmp := 0\<rparr>)"
  using sessiondb_set_config_spec [of "msecs_to_jiffies 1000" True UDP_TIMEOUT 8 119999
      "sessiondb_init_config (msecs_to_jiffies 1000)"]
    sessiondb_set_config_spec [of "msecs_to_jiffies 1000" True ICMP_TIMEOUT 8 0
      "sessiondb_init_config (msecs_to_jiffies 1000)"]
  by (simp add: msecs_to_jiffies_def word_sless_alt)

text \<open>
  Where a jiffy is a millisecond (\<open>HZ = 1000\<close>) the comparison in jiffies is the comparison
  in milliseconds, and every value below the minimum is rejected, as the claim has it.
\<close>

lemma msecs_to_jiffies_1000:
  "\<not> m <s 0 \<Longrightarrow> msecs_to_jiffies 1000 m = ucast m"
  by (simp add: msecs_to_jiffies_def)

subsection \<open>Tuples of ICMP errors\<close>

lemma mem_bytes_4: "mem_bytes m off 4 = [m off, m (off + 1), m (off + 2), m (off + 3)]"
  by (simp add: mem_bytes_def upt_rec eval_nat_numeral)

lemma mem_bytes_16:
  "mem_bytes m off 16 =
     [m off, m (off + 1), m (off + 2), m (off + 3), m (off + 4), m (off + 5), m (off + 6),
      m (off + 7), m (off + 8), m (off + 9), m (off + 10), m (off + 11), m (off + 12),
      m (off + 13), m (off + 14), m (off + 15)]"
  by (simp add: mem_bytes_def upt_rec eval_nat_numeral)

lemma ipv4_icmp_err_cases:
  fixes H skb t
  defines "i \<equiv> inner4 skb" and "p \<equiv> inner4_l4 skb"
  shows "iphdr_protocol i = IPPROTO_UDP \<Longrightarrow>
           ipv4_icmp_err H skb t =
             (VER_CONTINUE, swapped (iphdr_saddr i) (l4hdr_source p) (iphdr_daddr i) (l4hdr_dest p)
                L3PROTO_IPV4 L4PROTO_UDP)"
    and "iphdr_protocol i = IPPROTO_TCP \<Longrightarrow>
           ipv4_icmp_err H skb t =
             (VER_CONTINUE, swapped (iphdr_saddr i) (l4hdr_source p) (iphdr_daddr i) (l4hdr_dest p)
                L3PROTO_IPV4 L4PROTO_TCP)"
    and "iphdr_protocol i = IPPROTO_ICMP \<Longrightarrow> \<not> is_icmp4_error H (icmphdr_type p) \<Longrightarrow>
           ipv4_icmp_err H skb t =
             (VER_CONTINUE, swapped (iphdr_saddr i) (icmphdr_echo_id p) (iphdr_daddr i)
                (icmphdr_echo_id p) L3PROTO_IPV4 L4PROTO_ICMP)"
    and "iphdr_protocol i = IPPROTO_ICMP \<Longrightarrow> is_icmp4_error H (icmphdr_type p) \<Longrightarrow>
           fst (ipv4_icmp_err H skb t) = VER_DROP"
    and "iphdr_protocol i \<noteq> IPPROTO_UDP \<Longrightarrow> iphdr_protocol i \<noteq> IPPROTO_TCP \<Longrightarrow>
         iphdr_protocol i \<noteq> IPPROTO_ICMP \<Longrightarrow> fst (ipv4_icmp_err H skb t) = VER_DROP"
  unfolding i_def p_def
  by (simp_all add: ipv4_icmp_err_def inner4_def inner4_l4_def ipv4_extract_l4_hdr_def
      swapped_def Let_def IPPROTO_UDP_def IPPROTO_TCP_def IPPROTO_ICMP_def)

lemma ipv6_icmp_err_cases:
  fixes H skb t
  defines "i \<equiv> inner6 skb"
  defines "ty \<equiv> fst (hdr_iterator_last H i)" and "p \<equiv> snd (hdr_iterator_last H i)"
  shows "ty = NEXTHDR_UDP \<Longrightarrow>
           ipv6_icmp_err H skb t =
             (VER_CONTINUE, swapped (ipv6hdr_saddr i) (l4hdr_source p) (ipv6hdr_daddr i)
                (l4hdr_dest p) L3PROTO_IPV6 L4PROTO_UDP)"
    and "ty = NEXTHDR_TCP \<Longrightarrow>
           ipv6_icmp_err H skb t =
             (VER_CONTINUE, swapped (ipv6hdr_saddr i) (l4hdr_source p) (ipv6hdr_daddr i)
                (l4hdr_dest p) L3PROTO_IPV6 L4PROTO_TCP)"
    and "ty = NEXTHDR_ICMP \<Longrightarrow> \<not> is_icmp6_error H (icmphdr_type p) \<Longrightarrow>
           ipv6_icmp_err H skb t =
             (VER_CONTINUE, swapped (ipv6hdr_saddr i) (icmphdr_echo_id p) (ipv6hdr_daddr i)
                (icmphdr_echo_id p) L3PROTO_IPV6 L4PROTO_ICMP)"
    and "ty = NEXTHDR_ICMP \<Longrightarrow> is_icmp6_error H (icmphdr_type p) \<Longrightarrow>
           fst (ipv6_icmp_err H skb t) = VER_DROP"
    and "ty \<noteq> NEXTHDR_UDP \<Longrightarrow> ty \<noteq> NEXTHDR_TCP \<Longrightarrow> ty \<noteq> NEXTHDR_ICMP \<Longrightarrow>
           fst (ipv6_icmp_err H skb t) = VER_DROP"
  unfolding i_def p_def ty_def
  by (simp_all add: ipv6_icmp_err_def inner6_def swapped_def Let_def
      NEXTHDR_UDP_def NEXTHDR_TCP_def NEXTHDR_ICMP_def)

lemma determine_in_tuple_icmp4_err:
  "icmp4_error_packet H skb \<Longrightarrow> determine_in_tuple H skb t = ipv4_icmp_err H skb t"
  by (simp add: icmp4_error_packet_def determine_in_tuple_def)

lemma determine_in_tuple_icmp6_err:
  "icmp6_error_packet H skb \<Longrightarrow> determine_in_tuple H skb t = ipv6_icmp_err H skb t"
  by (simp add: icmp6_error_packet_def determine_in_tuple_def)

text \<open>
  Claim C7: for an ICMP error packet (v4 or v6) whose inner packet is UDP, TCP or an ICMP
  message that is not an error (informational), tuple extraction returns \<open>VER_CONTINUE\<close> and
  the tuple has the inner destination address and port as its source and the inner source
  address and port as its destination (the inner ICMP identifier on both sides for ICMP);
  when the inner packet is an ICMP error, or is none of UDP, TCP and ICMP, it returns
  \<open>VER_DROP\<close>. For IPv6 the inner protocol is the type of the last header the iterator finds.
\<close>

theorem icmp_error_tuple_swapped:
  fixes H skb t
  defines "i4 \<equiv> inner4 skb" and "p4 \<equiv> inner4_l4 skb" and "i6 \<equiv> inner6 skb"
  defines "ty6 \<equiv> fst (hdr_iterator_last H i6)" and "p6 \<equiv> snd (hdr_iterator_last H i6)"
  shows
   "(icmp4_error_packet H skb \<longrightarrow>
      (iphdr_protocol i4 = IPPROTO_UDP \<longrightarrow>
         determine_in_tuple H skb t =
           (VER_CONTINUE, swapped (iphdr_saddr i4) (l4hdr_source p4) (iphdr_daddr i4)
              (l4hdr_dest p4) L3PROTO_IPV4 L4PROTO_UDP))
    \<and> (iphdr_protocol i4 = IPPROTO_TCP \<longrightarrow>
         determine_in_tuple H skb t =
           (VER_CONTINUE, swapped (iphdr_saddr i4) (l4hdr_source p4) (iphdr_daddr i4)
              (l4hdr_dest p4) L3PROTO_IPV4 L4PROTO_TCP))
    \<and> (iphdr_protocol i4 = IPPROTO_ICMP \<and> \<not> is_icmp4_error H (icmphdr_type p4) \<longrightarrow>
         determine_in_tuple H skb t =
           (VER_CONTINUE, swapped (iphdr_saddr i4) (icmphdr_echo_id p4) (iphdr_daddr i4)
              (icmphdr_echo_id p4) L3PROTO_IPV4 L4PROTO_ICMP))
    \<and> (iphdr_protocol i4 = IPPROTO_ICMP \<and> is_icmp4_error H (icmphdr_type p4) \<longrightarrow>
         fst (determine_in_tuple H skb t) = VER_DROP)
    \<and> (iphdr_protocol i4 \<notin> {IPPROTO_UDP, IPPROTO_TCP, IPPROTO_ICMP} \<longrightarrow>
         fst (determine_in_tuple H skb t) = VER_DROP))
  \<and> (icmp6_error_packet H skb \<longrightarrow>
      (ty6 = NEXTHDR_UDP \<longrightarrow>
         determine_in_tuple H skb t =
           (VER_CONTINUE, swapped (ipv6hdr_saddr i6) (l4hdr_source p6) (ipv6hdr_daddr i6)
              (l4hdr_dest p6) L3PROTO_IPV6 L4PROTO_UDP))
    \<and> (ty6 = NEXTHDR_TCP \<longrightarrow>
         determine_in_tuple H skb t =
           (VER_CONTINUE, swapped (ipv6hdr_saddr i6) (l4hdr_source p6) (ipv6hdr_daddr i6)
              (l4hdr_dest p6) L3PROTO_IPV6 L4PROTO_TCP))
    \<and> (ty6 = NEXTHDR_ICMP \<and> \<not> is_icmp6_error H (icmphdr_type p6) \<longrightarrow>
         determine_in_tuple H skb t =
           (VER_CONTINUE, swapped (ipv6hdr_saddr i6) (icmphdr_echo_id p6) (ipv6hdr_daddr i6)
              (icmphdr_echo_id p6) L3PROTO_IPV6 L4PROTO_ICMP))
    \<and> (ty6 = NEXTHDR_ICMP \<and> is_icmp6_error H (icmphdr_type p6) \<longrightarrow>
         fst (determine_in_tuple H skb t) = VER_DROP)
    \<and> (ty6 \<notin> {NEXTHDR_UDP, NEXTHDR_TCP, NEXTHDR_ICMP} \<longrightarrow>
         fst (determine_in_tuple H skb t) = VER_DROP))"
proof (intro conjI impI)
  assume e: "icmp4_error_packet H skb"
  note d = determine_in_tuple_icmp4_err [OF e]
  show "iphdr_protocol i4 = IPPROTO_UDP \<Longrightarrow>
      determine_in_tuple H skb t =
        (VER_CONTINUE, swapped (iphdr_saddr i4) (l4hdr_source p4) (iphdr_daddr i4)
           (l4hdr_dest p4) L3PROTO_IPV4 L4PROTO_UDP)"
    unfolding i4_def p4_def d by (rule ipv4_icmp_err_cases)
  show "iphdr_protocol i4 = IPPROTO_TCP \<Longrightarrow>
      determine_in_tuple H skb t =
        (VER_CONTINUE, swapped (iphdr_saddr i4) (l4hdr_source p4) (iphdr_daddr i4)
           (l4hdr_dest p4) L3PROTO_IPV4 L4PROTO_TCP)"
    unfolding i4_def p4_def d by (rule ipv4_icmp_err_cases)
  show "iphdr_protocol i4 = IPPROTO_ICMP \<and> \<not> is_icmp4_error H (icmphdr_type p4) \<Longrightarrow>
      determine_in_tuple H skb t =
        (VER_CONTINUE, swapped (iphdr_saddr i4) (icmphdr_echo_id p4) (iphdr_daddr i4)
           (icmphdr_echo_id p4) L3PROTO_IPV4 L4PROTO_ICMP)"
    unfolding i4_def p4_def d by (simp add: ipv4_icmp_err_cases)
  show "iphdr_protocol i4 = IPPROTO_ICMP \<and> is_icmp4_error H (icmphdr_type p4) \<Longrightarrow>
      fst (determine_in_tuple H skb t) = VER_DROP"
    unfolding i4_def p4_def d by (simp add: ipv4_icmp_err_cases)
  show "iphdr_protocol i4 \<notin> {IPPROTO_UDP, IPPROTO_TCP, IPPROTO_ICMP} \<Longrightarrow>
      fst (determine_in_tuple H skb t) = VER_DROP"
    unfolding i4_def p4_def d by (simp add: ipv4_icmp_err_cases)
next
  assume e: "icmp6_error_packet H skb"
  note d = determine_in_tuple_icmp6_err [OF e]
  show "ty6 = NEXTHDR_UDP \<Longrightarrow>
      determine_in_tuple H skb t =
        (VER_CONTINUE, swapped (ipv6hdr_saddr i6) (l4hdr_source p6) (ipv6hdr_daddr i6)
           (l4hdr_dest p6) L3PROTO_IPV6 L4PROTO_UDP)"
    unfolding i6_def p6_def ty6_def d by (rule ipv6_icmp_err_cases)
  show "ty6 = NEXTHDR_TCP \<Longrightarrow>
      determine_in_tuple H skb t =
        (VER_CONTINUE, swapped (ipv6hdr_saddr i6) (l4hdr_source p6) (ipv6hdr_daddr i6)
           (l4hdr_dest p6) L3PROTO_IPV6 L4PROTO_TCP)"
    unfolding i6_def p6_def ty6_def d by (rule ipv6_icmp_err_cases)
  show "ty6 = NEXTHDR_ICMP \<and> \<not> is_icmp6_error H (icmphdr_type p6) \<Longrightarrow>
      determine_in_tuple H skb t =
        (VER_CONTINUE, swapped (ipv6hdr_saddr i6) (icmphdr_echo_id p6) (ipv6hdr_daddr i6)
           (icmphdr_echo_id p6) L3PROTO_IPV6 L4PROTO_ICMP)"
    unfolding i6_def p6_def ty6_def d by (simp add: ipv6_icmp_err_cases)
  show "ty6 = NEXTHDR_ICMP \<and> is_icmp6_error H (icmphdr_type p6) \<Longrightarrow>
      fst (determine_in_tuple H skb t) = VER_DROP"
    unfolding i6_def p6_def ty6_def d by (simp add: ipv6_icmp_err_cases)
  show "ty6 \<notin> {NEXTHDR_UDP, NEXTHDR_TCP, NEXTHDR_ICMP} \<Longrightarrow>
      fst (determine_in_tuple H skb t) = VER_DROP"
    unfolding i6_def p6_def ty6_def d by (simp add: ipv6_icmp_err_cases)
qed

lemma ex4_facts:
  "icmp4_error_packet example_helpers example_icmp4_err"
  "iphdr_protocol (inner4 example_icmp4_err) = IPPROTO_UDP"
  "iphdr_saddr (inner4 example_icmp4_err) = [192, 168, 2, 1]"
  "iphdr_daddr (inner4 example_icmp4_err) = [192, 0, 2, 1]"
  "l4hdr_source (inner4_l4 example_icmp4_err) = 4000"
  "l4hdr_dest (inner4_l4 example_icmp4_err) = 53"
  by (simp_all add: icmp4_error_packet_def example_helpers_def example_icmp4_err_def
      mem_of_def icmphdr_type_def inner4_def inner4_l4_def mem_at_def iphdr_protocol_def
      IPPROTO_UDP_def iphdr_saddr_def iphdr_daddr_def mem_bytes_4 l4hdr_source_def
      l4hdr_dest_def be16_def iphdr_ihl_def)

lemma ex6_facts:
  "icmp6_error_packet example_helpers example_icmp6_err"
  "fst (hdr_iterator_last example_helpers (inner6 example_icmp6_err)) = NEXTHDR_TCP"
  "ipv6hdr_saddr (inner6 example_icmp6_err) =
     [0x20, 0x01, 0x0d, 0xb8, 0, 0, 0, 0, 0, 0, 0, 0, 0, 0, 0, 1]"
  "ipv6hdr_daddr (inner6 example_icmp6_err) =
     [0, 0x64, 0xff, 0x9b, 0, 0, 0, 0, 0, 0, 0, 0, 192, 0, 2, 1]"
  "l4hdr_source (snd (hdr_iterator_last example_helpers (inner6 example_icmp6_err))) = 4000"
  "l4hdr_dest (snd (hdr_iterator_last example_helpers (inner6 example_icmp6_err))) = 80"
  by (simp_all add: icmp6_error_packet_def example_helpers_def example_icmp6_err_def
      mem_of_def icmphdr_type_def inner6_def mem_at_def 
      NEXTHDR_TCP_def ipv6hdr_saddr_def ipv6hdr_daddr_def mem_bytes_16 l4hdr_source_def
      l4hdr_dest_def be16_def)

theorem icmp_error_tuple_swapped_witness:
  "determine_in_tuple example_helpers example_icmp4_err empty_tuple =
     (VER_CONTINUE, \<lparr>src = \<lparr>l3 = [192, 0, 2, 1], l4 = 53\<rparr>,
                      dst = \<lparr>l3 = [192, 168, 2, 1], l4 = 4000\<rparr>,
                      l3_proto = L3PROTO_IPV4, l4_proto = L4PROTO_UDP\<rparr>)
   \<and> determine_in_tuple example_helpers example_icmp6_err empty_tuple =
     (VER_CONTINUE,
      \<lparr>src = \<lparr>l3 = [0, 0x64, 0xff, 0x9b, 0, 0, 0, 0, 0, 0, 0, 0, 192, 0, 2, 1], l4 = 80\<rparr>,
       dst = \<lparr>l3 = [0x20, 0x01, 0x0d, 0xb8, 0, 0, 0, 0, 0, 0, 0, 0, 0, 0, 0, 1], l4 = 4000\<rparr>,
       l3_proto = L3PROTO_IPV6, l4_proto = L4PROTO_TCP\<rparr>)"
  using icmp_error_tuple_swapped [of example_helpers example_icmp4_err empty_tuple]
    icmp_error_tuple_swapped [of example_helpers example_icmp6_err empty_tuple]
  by (simp add: ex4_facts ex6_facts swapped_def)

subsection \<open>Fragmentation after translation\<close>

lemma fff8_not_mask: "(0xFFF8 :: u16) = NOT (mask 3)"
  by (simp add: mask_eq_exp_minus_1)

lemma and_fff8_shift: "(x::u16) AND 0xFFF8 = push_bit 3 (drop_bit 3 x)"
  unfolding fff8_not_mask
  by (rule bit_word_eqI) (auto simp: bit_simps)

lemma unat_u16_lt: "unat (x::u16) < 65536"
  using unsigned_less [of x, where ?'a = nat] by simp

lemma unat_and_fff8: "unat ((x::u16) AND 0xFFF8) = 8 * (unat x div 8)"
proof -
  have "unat (push_bit 3 (drop_bit 3 x)) = (unat (drop_bit 3 x) * 8) mod 65536"
    by (simp add: push_bit_eq_mult unat_word_ariths)
  also have "\<dots> = (unat x div 8 * 8) mod 65536"
    by (simp add: drop_bit_eq_div unat_div)
  also have "\<dots> = 8 * (unat x div 8)"
    using unat_u16_lt [of x] by simp
  finally show ?thesis by (simp add: and_fff8_shift)
qed

lemma and_fff8_id: "8 dvd unat (x::u16) \<Longrightarrow> x AND 0xFFF8 = x"
proof -
  assume "8 dvd unat x"
  then have "unat (x AND 0xFFF8) = unat x" by (simp add: unat_and_fff8)
  then show ?thesis by (simp only: word_unat_eq_iff)
qed

lemma dvd8_and_fff8: "8 dvd unat ((x::u16) AND 0xFFF8)"
  by (simp add: unat_and_fff8)

lemma be16_join:
  "push_bit 8 (ucast (ucast (drop_bit 8 x) :: u8)) OR ucast (ucast x :: u8) = (x::u16)"
  by (rule bit_word_eqI) (auto simp: bit_simps)

lemma be16_at_put_be16:
  "off + 1 < length bs \<Longrightarrow> be16_at (put_be16 bs off x) off = x"
  unfolding be16_at_def put_be16_def
  by (simp, rule bit_word_eqI) (auto simp: bit_simps)

lemma build_off: "build_ipv6_frag_off_field off mf AND 0xFFF8 = off AND 0xFFF8"
  unfolding build_ipv6_frag_off_field_def fff8_not_mask
  by (rule bit_word_eqI) (auto simp: bit_simps)

lemma and_1_bit0: "((w::u16) AND 1 \<noteq> 0) = bit w 0"
  by (simp add: and_one_eq bit_0 odd_iff_mod_2_eq_one)

lemma build_mf: "(build_ipv6_frag_off_field off mf AND 1 \<noteq> 0) = mf"
  unfolding build_ipv6_frag_off_field_def fff8_not_mask and_1_bit0
  by (cases mf) (simp_all add: bit_simps)

lemma nth_put_be16_other:
  "i \<noteq> off \<Longrightarrow> i \<noteq> off + 1 \<Longrightarrow> put_be16 bs off x ! i = bs ! i"
  by (simp add: put_be16_def)

lemma length_put_be16: "length (put_be16 bs off x) = length bs"
  by (simp add: put_be16_def)

lemma length_set_frag_headers:
  "40 \<le> length old \<Longrightarrow> 40 \<le> length new \<Longrightarrow>
   length (set_frag_headers old new ps off mf) = length new"
  by (simp add: set_frag_headers_def Let_def length_put_be16)

lemma set_frag_headers_fields:
  assumes "48 \<le> length old" "48 \<le> length new"
  shows "frag_hdr_frag_off (set_frag_headers old new ps off mf) = build_ipv6_frag_off_field off mf"
    and "frag_hdr_identification (set_frag_headers old new ps off mf) = frag_hdr_identification old"
    and "frag_hdr_nexthdr (set_frag_headers old new ps off mf) = frag_hdr_nexthdr old"
    and "frag_hdr_reserved (set_frag_headers old new ps off mf) = 0"
    and "ipv6hdr_payload_len (set_frag_headers old new ps off mf) = ps - 40"
    and "drop 48 (set_frag_headers old new ps off mf) = drop 48 new"
    and "take 4 (set_frag_headers old new ps off mf) = take 4 old"
    and "drop 6 (take 40 (set_frag_headers old new ps off mf)) = drop 6 (take 40 old)"
proof -
  let ?n1 = "take 40 old @ drop 40 new"
  have l1: "length ?n1 = length new" using assms by simp
  show "frag_hdr_frag_off (set_frag_headers old new ps off mf) = build_ipv6_frag_off_field off mf"
    using assms l1
    by (simp add: frag_hdr_frag_off_def set_frag_headers_def Let_def be16_at_def
        put_be16_def be16_join)
  show "frag_hdr_identification (set_frag_headers old new ps off mf) = frag_hdr_identification old"
    using assms l1
    by (simp add: frag_hdr_identification_def set_frag_headers_def Let_def length_put_be16)
  show "frag_hdr_nexthdr (set_frag_headers old new ps off mf) = frag_hdr_nexthdr old"
    using assms l1
    by (simp add: frag_hdr_nexthdr_def set_frag_headers_def Let_def length_put_be16
        nth_put_be16_other)
  show "frag_hdr_reserved (set_frag_headers old new ps off mf) = 0"
    using assms l1
    by (simp add: frag_hdr_reserved_def set_frag_headers_def Let_def length_put_be16
        nth_put_be16_other)
  show "ipv6hdr_payload_len (set_frag_headers old new ps off mf) = ps - 40"
    using assms l1
    by (simp add: ipv6hdr_payload_len_def set_frag_headers_def Let_def be16_at_def
        put_be16_def be16_join)
  show "drop 48 (set_frag_headers old new ps off mf) = drop 48 new"
    using assms l1
    by (simp add: set_frag_headers_def Let_def put_be16_def)
  show "take 4 (set_frag_headers old new ps off mf) = take 4 old"
    using assms l1
    by (simp add: set_frag_headers_def Let_def put_be16_def)
  show "drop 6 (take 40 (set_frag_headers old new ps off mf)) = drop 6 (take 40 old)"
    using assms l1
    by (simp add: set_frag_headers_def Let_def put_be16_def list_eq_iff_nth_eq nth_append)
qed

lemma divide_loop_rule:
  assumes step: "\<And>cp news. I cp news \<Longrightarrow> cp < length skb \<Longrightarrow>
            I (cp + unat (fst (divide_round skb pms off0 mf0 cp)))
              (news @ [snd (divide_round skb pms off0 mf0 cp)])
            \<and> 0 < unat (fst (divide_round skb pms off0 mf0 cp))"
  shows "I cp news \<Longrightarrow> length skb - cp \<le> allocs \<Longrightarrow>
         \<exists>cp' news'. divide_loop allocs skb pms off0 mf0 cp news = (VER_CONTINUE, news')
            \<and> I cp' news' \<and> length skb \<le> cp'"
proof (induction allocs arbitrary: cp news)
  case 0
  then show ?case by auto
next
  case (Suc allocs)
  show ?case
  proof (cases "cp < length skb")
    case False
    with Suc.prems show ?thesis by auto
  next
    case True
    let ?r = "divide_round skb pms off0 mf0 cp"
    from step [OF Suc.prems(1) True]
    have i: "I (cp + unat (fst ?r)) (news @ [snd ?r])" and pos: "0 < unat (fst ?r)"
      by simp_all
    from pos Suc.prems(2) have "length skb - (cp + unat (fst ?r)) \<le> allocs" by arith
    from Suc.IH [OF i this] True show ?thesis by (simp add: Let_def)
  qed
qed

lemma round_size:
  assumes "divide_ready skb pms m"
  shows "unat (fst (divide_round skb pms off0 mf0 cp)) =
           (if length skb - cp \<le> unat pms then length skb - cp else unat pms)"
proof -
  from assms have "8 dvd unat pms" by (auto simp: divide_ready_def)
  then have "pms AND 0xFFF8 = pms" by (rule and_fff8_id)
  then show ?thesis by (simp add: divide_round_def Let_def le_unat_uoi)
qed

lemma round_skb:
  "snd (divide_round skb pms off0 mf0 cp) =
     set_frag_headers skb (replicate 48 0) (48 + fst (divide_round skb pms off0 mf0 cp))
       (off0 + (of_nat cp - 48)) (if length skb - cp \<le> unat pms then mf0 else True)
     @ take (unat (fst (divide_round skb pms off0 mf0 cp))) (drop cp skb)"
  by (simp add: divide_round_def Let_def)

lemma hdr_fields_append:
  assumes "length h = 48"
  shows "frag_hdr_frag_off (h @ d) = frag_hdr_frag_off h"
    and "frag_hdr_identification (h @ d) = frag_hdr_identification h"
    and "frag_hdr_nexthdr (h @ d) = frag_hdr_nexthdr h"
    and "frag_hdr_reserved (h @ d) = frag_hdr_reserved h"
    and "ipv6hdr_payload_len (h @ d) = ipv6hdr_payload_len h"
    and "frag_data (h @ d) = d"
    and "take 4 (h @ d) = take 4 h"
    and "take 40 (h @ d) = take 40 h"
  using assms
  by (simp_all add: frag_hdr_frag_off_def frag_hdr_identification_def frag_hdr_nexthdr_def
      frag_hdr_reserved_def ipv6hdr_payload_len_def frag_data_def be16_at_def nth_append)

lemma dvd8_unat_add:
  "8 dvd unat (a::u16) \<Longrightarrow> 8 dvd n \<Longrightarrow> 8 dvd unat (a + of_nat n)"
proof -
  assume a: "8 dvd unat a" and n: "8 dvd n"
  have d: "(8::nat) dvd 65536" by simp
  have "8 dvd n mod 65536" using n d by (rule dvd_mod)
  then have "8 dvd unat a + n mod 65536" using a by simp
  then have "8 dvd (unat a + n mod 65536) mod 65536" using d by (rule dvd_mod)
  then show ?thesis by (simp add: unat_word_ariths unat_of_nat)
qed

lemma round_props:
  fixes skb pms off0 mf0 cp m
  defines "aps \<equiv> unat (fst (divide_round skb pms off0 mf0 cp))"
    and "new \<equiv> snd (divide_round skb pms off0 mf0 cp)"
  assumes r: "divide_ready skb pms m" and cp: "m \<le> cp" "cp < length skb" "8 dvd cp"
    and off: "8 dvd unat off0"
  shows "0 < aps" and "cp + aps \<le> length skb"
    and "(cp + aps = length skb) = (length skb - cp \<le> unat pms)"
    and "cp + aps < length skb \<Longrightarrow> 8 dvd (cp + aps)"
    and "length new = 48 + aps" and "length new \<le> m"
    and "frag_data new = take aps (drop cp skb)"
    and "frag_like skb new"
    and "is_more_fragments_set_ipv6 new = (if length skb - cp \<le> unat pms then mf0 else True)"
    and "get_fragment_offset_ipv6 new = off0 + of_nat (cp - 48)"
proof -
  from r have m: "56 \<le> m" "m < length skb" "8 dvd m" "unat pms = m - 48"
    by (auto simp: divide_ready_def)
  have aps: "aps = (if length skb - cp \<le> unat pms then length skb - cp else unat pms)"
    unfolding aps_def by (rule round_size [OF r])
  have p8: "8 dvd unat pms" using m by auto
  show "0 < aps" using aps cp m by auto
  show le: "cp + aps \<le> length skb" using aps cp by auto
  show "(cp + aps = length skb) = (length skb - cp \<le> unat pms)" using aps cp by auto
  show "cp + aps < length skb \<Longrightarrow> 8 dvd (cp + aps)" using aps cp p8 by (auto split: if_splits)
  let ?h = "set_frag_headers skb (replicate 48 0) (48 + fst (divide_round skb pms off0 mf0 cp))
       (off0 + (of_nat cp - 48)) (if length skb - cp \<le> unat pms then mf0 else True)"
  have new: "new = ?h @ take aps (drop cp skb)"
    unfolding new_def aps_def by (rule round_skb)
  have skb48: "48 \<le> length skb" using m by simp
  have lh: "length ?h = 48"
    using skb48 by (simp add: length_set_frag_headers)
  show ln: "length new = 48 + aps" using le by (simp add: new lh)
  show "length new \<le> m" using ln aps m cp by (auto split: if_splits)
  show "frag_data new = take aps (drop cp skb)"
    by (simp add: new hdr_fields_append [OF lh])
  show "frag_like skb new"
    using skb48 ln
    by (simp add: frag_like_def new hdr_fields_append [OF lh] set_frag_headers_fields)
  show "is_more_fragments_set_ipv6 new = (if length skb - cp \<le> unat pms then mf0 else True)"
    using skb48
    by (simp add: is_more_fragments_set_ipv6_def new hdr_fields_append [OF lh]
        set_frag_headers_fields build_mf)
  have c48: "48 \<le> cp" using m cp by simp
  then have e: "(of_nat cp - 48 :: u16) = of_nat (cp - 48)" by simp
  have "8 dvd cp - 48" using cp(3) c48 by (simp add: dvd_diff_nat)
  then have "8 dvd unat (off0 + of_nat (cp - 48))" using off by (simp add: dvd8_unat_add)
  then have "(off0 + of_nat (cp - 48)) AND 0xFFF8 = off0 + of_nat (cp - 48)"
    by (rule and_fff8_id)
  moreover have "get_fragment_offset_ipv6 new = (off0 + (of_nat cp - 48)) AND 0xFFF8"
    using skb48
    by (simp add: get_fragment_offset_ipv6_def new hdr_fields_append [OF lh]
        set_frag_headers_fields build_off)
  ultimately show "get_fragment_offset_ipv6 new = off0 + of_nat (cp - 48)"
    by (simp add: e)
qed

lemma divide_inv_step:
  fixes skb pms off0 mf0 cp m news
  defines "aps \<equiv> unat (fst (divide_round skb pms off0 mf0 cp))"
    and "new \<equiv> snd (divide_round skb pms off0 mf0 cp)"
  assumes r: "divide_ready skb pms m" and off: "8 dvd unat off0"
    and inv: "divide_inv skb m off0 mf0 cp news" and lt: "cp < length skb"
  shows "divide_inv skb m off0 mf0 (cp + aps) (news @ [new]) \<and> 0 < aps"
proof -
  from inv lt have i: "m \<le> cp" "8 dvd cp"
    "concat (map frag_data news) = take (cp - m) (drop m skb)"
    "\<forall>f \<in> set news. length f \<le> m \<and> frag_like skb f"
    "\<forall>i < length news. get_fragment_offset_ipv6 (news ! i) =
             off0 + of_nat (m - 48 + length (concat (map frag_data (take i news))))"
    "\<forall>f \<in> set news. is_more_fragments_set_ipv6 f"
    by (auto simp: divide_inv_def)
  note p = round_props [where ?mf0.0 = mf0, OF r i(1) lt i(2) off, folded aps_def new_def]
  from r have m: "56 \<le> m" by (simp add: divide_ready_def)
  have c1: "m \<le> cp + aps" using i(1) by simp
  have c4: "concat (map frag_data (news @ [new])) = take (cp + aps - m) (drop m skb)"
  proof -
    have "take (cp + aps - m) (drop m skb) = take ((cp - m) + aps) (drop m skb)"
      using i(1) by simp
    also have "\<dots> = take (cp - m) (drop m skb) @ take aps (drop (cp - m) (drop m skb))"
      by (rule take_add)
    also have "drop (cp - m) (drop m skb) = drop cp skb" using i(1) by simp
    finally show ?thesis by (simp add: i(3) p(7))
  qed
  have c5: "\<forall>f \<in> set (news @ [new]). length f \<le> m \<and> frag_like skb f"
    using i(4) p(6) p(8) by auto
  have len_so_far: "length (concat (map frag_data news)) = cp - m"
    using lt by (simp add: i(3))
  have c6: "\<forall>k < length (news @ [new]). get_fragment_offset_ipv6 ((news @ [new]) ! k) =
             off0 + of_nat (m - 48 + length (concat (map frag_data (take k (news @ [new])))))"
  proof (intro allI impI)
    fix k assume k: "k < length (news @ [new])"
    show "get_fragment_offset_ipv6 ((news @ [new]) ! k) =
             off0 + of_nat (m - 48 + length (concat (map frag_data (take k (news @ [new])))))"
    proof (cases "k < length news")
      case True
      then show ?thesis using i(5) by (simp add: nth_append)
    next
      case False
      with k have k: "k = length news" by simp
      have "m - 48 + (cp - m) = cp - 48" using m i(1) by simp
      then show ?thesis by (simp add: k p(10) len_so_far)
    qed
  qed
  have c7: "cp + aps < length skb \<longrightarrow> (\<forall>f \<in> set (news @ [new]). is_more_fragments_set_ipv6 f)"
    using i(6) p(3) p(9) by auto
  have c8: "cp + aps = length skb \<longrightarrow> news @ [new] \<noteq> []
      \<and> (\<forall>f \<in> set (butlast (news @ [new])). is_more_fragments_set_ipv6 f)
      \<and> is_more_fragments_set_ipv6 (last (news @ [new])) = mf0"
    using i(6) p(3) p(9) by auto
  show ?thesis
    unfolding divide_inv_def
    using c1 p(2) p(4) c4 c5 c6 c7 c8 p(1) by blast
qed

lemma hdr_fields_take:
  assumes "48 \<le> n"
  shows "frag_hdr_frag_off (take n h) = frag_hdr_frag_off h"
    and "frag_hdr_identification (take n h) = frag_hdr_identification h"
    and "frag_hdr_nexthdr (take n h) = frag_hdr_nexthdr h"
    and "frag_hdr_reserved (take n h) = frag_hdr_reserved h"
    and "frag_data (take n h) = take (n - 48) (frag_data h)"
    and "take 4 (take n h) = take 4 h"
    and "take 40 (take n h) = take 40 h"
  using assms
  by (simp_all add: frag_hdr_frag_off_def frag_hdr_identification_def frag_hdr_nexthdr_def
      frag_hdr_reserved_def frag_data_def be16_at_def drop_take min_def)

lemma frag_like_trans: "frag_like a b \<Longrightarrow> frag_like b c \<Longrightarrow> frag_like a c"
  by (simp add: frag_like_def)

lemma and_fff8_idem: "((x::u16) AND 0xFFF8) AND 0xFFF8 = x AND 0xFFF8"
  by (simp add: and.assoc)

lemma divide_spec:
  fixes mtu :: u16 and frag :: skb_octets
  assumes big: "unat mtu < length frag" and mtu: "56 \<le> unat mtu"
    and fuel: "length frag \<le> allocs"
  shows "\<exists>fs. divide mtu allocs frag lst = (VER_CONTINUE, lst @ fs) \<and> fragments_of mtu frag fs"
proof -
  define M where "M = mtu AND 0xFFF8"
  define m where "m = unat M"
  define pms where "pms = M - 48"
  define off0 where "off0 = get_fragment_offset_ipv6 frag"
  define mf0 where "mf0 = is_more_fragments_set_ipv6 frag"
  define skb where "skb = set_frag_headers frag frag M off0 True"
  have m8: "m = 8 * (unat mtu div 8)" by (simp add: m_def M_def unat_and_fff8)
  have m: "56 \<le> m" "m \<le> unat mtu" "8 dvd m" using mtu by (auto simp: m8)
  have T: "length skb = length frag" "48 \<le> length frag" "m < length frag"
    using big m by (simp_all add: skb_def length_set_frag_headers)
  have "(48::u16) \<le> M" using m(1) by (simp add: word_le_nat_alt m_def)
  then have pms: "unat pms = m - 48" by (simp add: pms_def unat_sub m_def)
  have ready: "divide_ready skb pms m"
    using m T pms by (simp add: divide_ready_def)
  have off8: "8 dvd unat off0" by (simp add: off0_def get_fragment_offset_ipv6_def dvd8_and_fff8)
  have inv0: "divide_inv skb m off0 mf0 m []"
    using m T by (simp add: divide_inv_def)
  have "\<exists>cp' news'. divide_loop allocs skb pms off0 mf0 m [] = (VER_CONTINUE, news')
            \<and> divide_inv skb m off0 mf0 cp' news' \<and> length skb \<le> cp'"
  proof (rule divide_loop_rule [where I = "divide_inv skb m off0 mf0"])
    show "divide_inv skb m off0 mf0 m []" by (rule inv0)
    show "length skb - m \<le> allocs" using fuel T by simp
    show "\<And>cp news. divide_inv skb m off0 mf0 cp news \<Longrightarrow> cp < length skb \<Longrightarrow>
      divide_inv skb m off0 mf0 (cp + unat (fst (divide_round skb pms off0 mf0 cp)))
        (news @ [snd (divide_round skb pms off0 mf0 cp)])
      \<and> 0 < unat (fst (divide_round skb pms off0 mf0 cp))"
      by (rule divide_inv_step [OF ready off8])
  qed
  then obtain cp' news where loop: "divide_loop allocs skb pms off0 mf0 m [] = (VER_CONTINUE, news)"
    and inv: "divide_inv skb m off0 mf0 cp' news" and fin: "length skb \<le> cp'"
    by blast
  from inv fin have cp': "cp' = length skb" by (simp add: divide_inv_def)
  from inv cp' have n: "news \<noteq> []"
    "concat (map frag_data news) = take (length skb - m) (drop m skb)"
    "\<forall>f \<in> set news. length f \<le> m \<and> frag_like skb f"
    "\<forall>i < length news. get_fragment_offset_ipv6 (news ! i) =
             off0 + of_nat (m - 48 + length (concat (map frag_data (take i news))))"
    "\<forall>f \<in> set (butlast news). is_more_fragments_set_ipv6 f"
    "is_more_fragments_set_ipv6 (last news) = mf0"
    by (auto simp: divide_inv_def)
  let ?first = "take m skb"
  let ?fs = "?first # news"
  have res: "divide mtu allocs frag lst = (VER_CONTINUE, lst @ ?fs)"
    using loop
    by (simp add: divide_def Let_def M_def [symmetric] m_def [symmetric] pms_def [symmetric]
        off0_def [symmetric] mf0_def [symmetric] skb_def [symmetric])
  note sf = set_frag_headers_fields [OF T(2) T(2), of M off0 True, folded skb_def]
  have like_skb: "frag_like frag skb"
    using T by (simp add: frag_like_def sf)
  have m48: "48 \<le> m" using m by simp
  have first_like: "frag_like frag ?first"
    using T m48 m by (simp add: frag_like_def hdr_fields_take sf)
  have first_mf: "is_more_fragments_set_ipv6 ?first"
    by (simp add: is_more_fragments_set_ipv6_def hdr_fields_take [OF m48] sf build_mf)
  have first_off: "get_fragment_offset_ipv6 ?first = off0"
    by (simp add: get_fragment_offset_ipv6_def hdr_fields_take [OF m48] sf build_off
        off0_def and_fff8_idem)
  have first_data: "frag_data ?first = take (m - 48) (frag_data frag)"
    by (simp add: hdr_fields_take [OF m48]) (simp add: frag_data_def sf)
  have first_len: "length (frag_data ?first) = m - 48"
    using T by (simp add: first_data frag_data_def)
  have rest_data: "concat (map frag_data news) = drop (m - 48) (frag_data frag)"
  proof -
    have "drop m skb = drop (m - 48) (drop 48 skb)" using m48 by simp
    also have "\<dots> = drop (m - 48) (frag_data frag)" by (simp add: sf frag_data_def)
    finally have "drop m skb = drop (m - 48) (frag_data frag)" .
    moreover have "take (length skb - m) (drop m skb) = drop m skb" by simp
    ultimately show ?thesis by (simp only: n(2))
  qed
  have p1: "2 \<le> length ?fs" using n(1) by (cases news) simp_all
  have p2: "\<forall>f \<in> set ?fs. length f \<le> unat mtu \<and> frag_like frag f
             \<and> 8 dvd unat (get_fragment_offset_ipv6 f)"
    using n(3) m(2) first_like like_skb
    by (auto intro: frag_like_trans simp: get_fragment_offset_ipv6_def dvd8_and_fff8)
  have p3: "\<forall>f \<in> set (butlast ?fs). is_more_fragments_set_ipv6 f"
    using n(1) n(5) first_mf by auto
  have p4: "is_more_fragments_set_ipv6 (last ?fs) = is_more_fragments_set_ipv6 frag"
    using n(1) n(6) by (simp add: mf0_def)
  have p5: "concat (map frag_data ?fs) = frag_data frag"
    by (simp add: first_data rest_data)
  have p6: "\<forall>i < length ?fs. get_fragment_offset_ipv6 (?fs ! i) =
             get_fragment_offset_ipv6 frag
             + of_nat (length (concat (map frag_data (take i ?fs))))"
  proof (intro allI impI)
    fix i assume i: "i < length ?fs"
    show "get_fragment_offset_ipv6 (?fs ! i) =
             get_fragment_offset_ipv6 frag
             + of_nat (length (concat (map frag_data (take i ?fs))))"
    proof (cases i)
      case 0
      then show ?thesis by (simp add: first_off off0_def)
    next
      case (Suc k)
      with i have "k < length news" by simp
      with n(4) have "get_fragment_offset_ipv6 (news ! k) =
             off0 + of_nat (m - 48 + length (concat (map frag_data (take k news))))"
        by blast
      then show ?thesis by (simp add: Suc first_len off0_def)
    qed
  qed
  have "fragments_of mtu frag ?fs"
    unfolding fragments_of_def using p1 p2 p3 p4 p5 p6 by blast
  with res show ?thesis by blast
qed

text \<open>
  Claim C8, as stated: of the fragments made, the more-fragments flag is clear on the last
  one (and only there). It fails when the IPv4 packet was itself a fragment that is not the
  last of its datagram: the last piece then carries the flag of the original. The datagram
  \<open>example_frag_mf\<close> (88 octets, flag set, DF clear) with \<open>min_ipv6_mtu = 64\<close> gives three
  fragments, and all three have the flag set.
\<close>

theorem translate_fragment_ipv4_counterexample:
  "unat (64 :: u16) < length example_frag_mf \<and> \<not> is_dont_fragment_set 0
   \<and> fst (translate_fragment_ipv4 64 88 0 example_frag_mf []) = VER_CONTINUE
   \<and> map is_more_fragments_set_ipv6 (fst (snd (translate_fragment_ipv4 64 88 0 example_frag_mf [])))
       = [True, True, True]"
  by code_simp

text \<open>
  Claim C8, amended: on v4-to-v6 translation, when the translated datagram is longer than
  \<open>min_ipv6_mtu\<close>: if the IPv4 packet had DF set, the packet is dropped and an ICMPv4
  fragmentation needed error with MTU \<open>min_ipv6_mtu - 20\<close> is emitted; otherwise, when
  \<open>min_ipv6_mtu\<close> is at least 56 and the allocations succeed, the datagram is divided into two
  or more fragments, each at most \<open>min_ipv6_mtu\<close> octets long, each with the IPv6 header and
  a fragment header of the original (same identification, next header and addresses), with
  offsets that are multiples of 8 and equal to the original offset plus the data before
  the fragment, with the data of the fragments making up the data of the original, and with
  the more-fragments flag set on every fragment but the last, which carries the flag of the
  original.
\<close>

theorem translate_fragment_ipv4_too_big:
  assumes "unat mtu < length out"
  shows
    "(is_dont_fragment_set in_frag_off \<longrightarrow>
        translate_fragment_ipv4 mtu allocs in_frag_off out frags =
          (VER_DROP, frags, [(ICMPERR_FRAG_NEEDED, uint mtu - 20)]))
     \<and> (\<not> is_dont_fragment_set in_frag_off \<and> 56 \<le> unat mtu \<and> length out \<le> allocs \<longrightarrow>
          (\<exists>fs. translate_fragment_ipv4 mtu allocs in_frag_off out frags =
                  (VER_CONTINUE, frags @ fs, [])
                \<and> fragments_of mtu out fs))"
proof (intro conjI impI)
  assume "is_dont_fragment_set in_frag_off"
  with assms show "translate_fragment_ipv4 mtu allocs in_frag_off out frags =
          (VER_DROP, frags, [(ICMPERR_FRAG_NEEDED, uint mtu - 20)])"
    by (simp add: translate_fragment_ipv4_def)
next
  assume a: "\<not> is_dont_fragment_set in_frag_off \<and> 56 \<le> unat mtu \<and> length out \<le> allocs"
  then obtain fs where "divide mtu allocs out frags = (VER_CONTINUE, frags @ fs)"
    and "fragments_of mtu out fs"
    using divide_spec [OF assms, of allocs frags] by blast
  with a assms show "\<exists>fs. translate_fragment_ipv4 mtu allocs in_frag_off out frags =
                  (VER_CONTINUE, frags @ fs, [])
                \<and> fragments_of mtu out fs"
    by (simp add: translate_fragment_ipv4_def)
qed

theorem translate_fragment_ipv4_too_big_witness:
  "(\<exists>fs. translate_fragment_ipv4 64 88 0 example_frag [] = (VER_CONTINUE, fs, [])
         \<and> fragments_of 64 example_frag fs)
   \<and> translate_fragment_ipv4 64 88 0x4000 example_frag [] =
       (VER_DROP, [], [(ICMPERR_FRAG_NEEDED, 44)])"
  using translate_fragment_ipv4_too_big [of 64 example_frag 0 88 "[]"]
    translate_fragment_ipv4_too_big [of 64 example_frag "0x4000" 88 "[]"]
  by (simp add: example_frag_def example_hdr6_def example_data_def is_dont_fragment_set_def)

subsection \<open>Expiration of sessions\<close>

lemma db_simps [simp]:
  "tables (list_del p db) = tables db"
  "config (list_del p db) = config db"
  "outbox (list_del p db) = outbox db"
  "sessions (expirers (list_del p db) e) = removeAll p (sessions (expirers db e))"
  "timer (expirers (list_del p db) e) = timer (expirers db e)"
  "tables (list_add_tail p e db) = tables db"
  "config (list_add_tail p e db) = config db"
  "outbox (list_add_tail p e db) = outbox db"
  "sessions (expirers (list_add_tail p e db) e') =
     (if e' = e then sessions (expirers db e) @ [p] else sessions (expirers db e'))"
  "timer (expirers (list_add_tail p e db) e') = timer (expirers db e')"
  "tables (schedule_timer now e t db) = tables db"
  "config (schedule_timer now e t db) = config db"
  "outbox (schedule_timer now e t db) = outbox db"
  "sessions (expirers (schedule_timer now e t db) e') = sessions (expirers db e')"
  "tables (send_probe_packet K s db) = tables db"
  "config (send_probe_packet K s db) = config db"
  "expirers (send_probe_packet K s db) = expirers db"
  "tables (set_state p st db) = tables db"
  "config (set_state p st db) = config db"
  "outbox (set_state p st db) = outbox db"
  "expirers (set_state p st db) = expirers db"
  "tables (set_update_time p t db) = tables db"
  "config (set_update_time p t db) = config db"
  "outbox (set_update_time p t db) = outbox db"
  "expirers (set_update_time p t db) = expirers db"
  "config (remove_session p tb db) = config db"
  "outbox (remove_session p tb db) = outbox db"
  "sessions (expirers (remove_session p tb db) e) = removeAll p (sessions (expirers db e))"
  "timer (expirers (remove_session p tb db) e) = timer (expirers db e)"
  "config (sub_count tb n db) = config db"
  "outbox (sub_count tb n db) = outbox db"
  "expirers (sub_count tb n db) = expirers db"
  by (simp_all add: list_del_def list_add_tail_def schedule_timer_def send_probe_packet_def
      set_state_def set_update_time_def remove_session_def sub_count_def Let_def)

lemma timer_schedule_timer:
  "timer (expirers (schedule_timer now e t db) e') =
     (if e' = e
      then Some (if time_before t (now + MIN_TIMER_SLEEP) then now + MIN_TIMER_SLEEP else t)
      else timer (expirers db e'))"
  by (simp add: schedule_timer_def Let_def)

lemma tables_remove_session:
  "tree6 (tables (remove_session p tb db) t) =
     (if t = tb then removeAll p (tree6 (tables db t)) else tree6 (tables db t))"
  "tree4 (tables (remove_session p tb db) t) =
     (if t = tb then removeAll p (tree4 (tables db t)) else tree4 (tables db t))"
  "count (tables (remove_session p tb db) t) = count (tables db t)"
  by (simp_all add: remove_session_def rb_erase_def)

lemma tables_sub_count:
  "tree6 (tables (sub_count tb n db) t) = tree6 (tables db t)"
  "tree4 (tables (sub_count tb n db) t) = tree4 (tables db t)"
  "count (tables (sub_count tb n db) t) =
     (if t = tb then count (tables db t) - of_nat n else count (tables db t))"
  by (simp_all add: sub_count_def)

lemma get_timeout_cong:
  "config db' = config db \<Longrightarrow> get_timeout K e db' = get_timeout K e db"
  by (simp add: get_timeout_def)

lemma session_expire_kept:
  assumes "is_established (heap db p)"
  shows "fst (session_expire K now p db) = False"
    and "tables (snd (session_expire K now p db)) = tables db"
    and "config (snd (session_expire K now p db)) = config db"
    and "sessions (expirers (snd (session_expire K now p db)) e) =
           (if e = EXPIRER_TCP_TRANS then removeAll p (sessions (expirers db e)) @ [p]
            else removeAll p (sessions (expirers db e)))"
    and "outbox (snd (session_expire K now p db)) =
           outbox (send_probe_packet K (heap db p) db)"
  using assms
  by (simp_all add: session_expire_def is_established_def Let_def)

lemma session_expire_destroyed:
  assumes "\<not> is_established (heap db p)"
  shows "fst (session_expire K now p db) = True"
    and "tables (snd (session_expire K now p db)) = tables db"
    and "config (snd (session_expire K now p db)) = config db"
    and "expirers (snd (session_expire K now p db)) = expirers db"
    and "outbox (snd (session_expire K now p db)) = outbox db"
  using assms
  by (cases "session_l4_proto (heap db p)"; cases "state (heap db p)";
      simp add: session_expire_def is_established_def Let_def)+

lemma heap_after_expire_other:
  "q \<noteq> p \<Longrightarrow> heap (snd (session_expire K now p db)) q = heap db q"
  by (simp add: session_expire_heap)

lemma cleaner_loop_prefix:
  assumes "distinct (pre @ [p])"
    and "\<forall>q \<in> set pre. expired now t (heap db q)"
    and "\<not> expired now t (heap db p)"
  shows "cleaner_loop K now e t (pre @ p # wl) db s =
           schedule_timer now e (update_time (heap db p) + t)
             (sub_count (expirer_table e) (snd (expire_all K now e pre db s))
                (fst (expire_all K now e pre db s)))"
  using assms
proof (induction pre arbitrary: wl db s)
  case Nil
  then show ?case by (simp add: expired_def)
next
  case (Cons q pre)
  let ?db' = "snd (session_expire K now q db)"
  from Cons.prems have q: "expired now t (heap db q)" and qp: "q \<noteq> p" "q \<notin> set pre"
    and d: "distinct (pre @ [p])" by auto
  have h: "\<And>r. r \<noteq> q \<Longrightarrow> heap ?db' r = heap db r"
    by (simp add: session_expire_heap)
  have pre': "\<forall>r \<in> set pre. expired now t (heap ?db' r)"
  proof
    fix r assume r: "r \<in> set pre"
    with qp have "r \<noteq> q" by auto
    with h have "heap ?db' r = heap db r" by simp
    with Cons.prems(2) r show "expired now t (heap ?db' r)" by simp
  qed
  have p': "\<not> expired now t (heap ?db' p)"
    using Cons.prems(3) qp h by auto
  have hp: "heap ?db' p = heap db p" using qp h by auto
  show ?case
  proof (cases "fst (session_expire K now q db)")
    case True
    let ?db2 = "remove_session q (expirer_table e) ?db'"
    have "cleaner_loop K now e t ((q # pre) @ p # wl) db s =
            cleaner_loop K now e t (pre @ p # wl) ?db2 (s + 1)"
      using q True by (simp add: expired_def)
    also have "\<dots> = schedule_timer now e (update_time (heap ?db2 p) + t)
             (sub_count (expirer_table e) (snd (expire_all K now e pre ?db2 (s + 1)))
                (fst (expire_all K now e pre ?db2 (s + 1))))"
      using d pre' p' by (intro Cons.IH) simp_all
    finally show ?thesis using True hp by simp
  next
    case False
    let ?wl = "if e = EXPIRER_TCP_TRANS then wl @ [q] else wl"
    have "cleaner_loop K now e t ((q # pre) @ p # wl) db s =
            cleaner_loop K now e t (pre @ p # ?wl) ?db' s"
      using q False by (simp add: expired_def)
    also have "\<dots> = schedule_timer now e (update_time (heap ?db' p) + t)
             (sub_count (expirer_table e) (snd (expire_all K now e pre ?db' s))
                (fst (expire_all K now e pre ?db' s)))"
      using d pre' p' by (intro Cons.IH) simp_all
    finally show ?thesis using False hp by simp
  qed
qed

lemma session_expire_heap':
  "heap (snd (session_expire K now p db)) q =
     (if q = p then expired_heap now (heap db p) else heap db q)"
  by (simp add: session_expire_heap expired_heap_def)

lemma removeAll_filter: "removeAll q xs = filter (\<lambda>r. r \<noteq> q) xs"
  by (induction xs) auto

lemma expire_all_post_Nil: "expire_all_post K now e [] db s"
  by (simp add: expire_all_post_def)

lemma expire_all_post_step:
  fixes K now e q pre db s
  defines "db2 \<equiv> (if fst (session_expire K now q db)
                    then remove_session q (expirer_table e) (snd (session_expire K now q db))
                    else snd (session_expire K now q db))"
    and "s2 \<equiv> (if fst (session_expire K now q db) then s + 1 else s)"
  assumes d: "q \<notin> set pre" and ih: "expire_all_post K now e pre db2 s2"
  shows "expire_all_post K now e (q # pre) db s"
proof -
  let ?est = "is_established (heap db q)"
  let ?D = "\<lambda>r. (r = q \<or> r \<in> set pre) \<and> \<not> is_established (heap db r)"
  have e: "expire_all K now e (q # pre) db s = expire_all K now e pre db2 s2"
    by (simp add: db2_def s2_def)
  have h2: "\<And>r. heap db2 r = (if r = q then expired_heap now (heap db q) else heap db r)"
    by (simp add: db2_def session_expire_heap')
  have same: "\<And>r. r \<in> set pre \<Longrightarrow> heap db2 r = heap db r"
    using d by (auto simp: h2)
  have c2: "config db2 = config db"
    by (cases ?est)
       (simp_all add: db2_def session_expire_kept session_expire_destroyed session_expire_destroy)
  have n2: "\<And>t. count (tables db2 t) = count (tables db t)"
    by (cases ?est)
       (simp_all add: db2_def session_expire_kept session_expire_destroyed
          session_expire_destroy tables_remove_session)
  have t6: "\<And>t. tree6 (tables db2 t) =
      (if t = expirer_table e \<and> \<not> ?est then removeAll q (tree6 (tables db t))
       else tree6 (tables db t))"
    by (cases ?est)
       (simp_all add: db2_def session_expire_kept session_expire_destroyed
          session_expire_destroy tables_remove_session)
  have t4: "\<And>t. tree4 (tables db2 t) =
      (if t = expirer_table e \<and> \<not> ?est then removeAll q (tree4 (tables db t))
       else tree4 (tables db t))"
    by (cases ?est)
       (simp_all add: db2_def session_expire_kept session_expire_destroyed
          session_expire_destroy tables_remove_session)
  have x2: "\<And>e'. sessions (expirers db2 e') =
      removeAll q (sessions (expirers db e'))
      @ (if e' = EXPIRER_TCP_TRANS \<and> ?est then [q] else [])"
    by (cases ?est)
       (simp_all add: db2_def session_expire_kept session_expire_destroyed
          session_expire_destroy)
  have s2: "s2 = s + (if ?est then 0 else 1)"
    by (simp add: s2_def session_expire_destroy)
  let ?db1 = "fst (expire_all K now e pre db2 s2)"
  let ?D2 = "\<lambda>r. r \<in> set pre \<and> \<not> is_established (heap db2 r)"
  from ih have
    i1: "snd (expire_all K now e pre db2 s2) = s2 + length (filter ?D2 pre)" and
    i2: "config ?db1 = config db2" and
    i3: "\<And>r. heap ?db1 r = (if r \<in> set pre then expired_heap now (heap db2 r) else heap db2 r)"
    and i4: "\<And>t. count (tables ?db1 t) = count (tables db2 t)" and
    i5: "\<And>t. tree6 (tables ?db1 t) =
             (if t = expirer_table e then filter (\<lambda>r. \<not> ?D2 r) (tree6 (tables db2 t))
              else tree6 (tables db2 t))" and
    i6: "\<And>t. tree4 (tables ?db1 t) =
             (if t = expirer_table e then filter (\<lambda>r. \<not> ?D2 r) (tree4 (tables db2 t))
              else tree4 (tables db2 t))" and
    i7: "\<And>e'. sessions (expirers ?db1 e') =
             filter (\<lambda>r. r \<notin> set pre) (sessions (expirers db2 e'))
             @ (if e' = EXPIRER_TCP_TRANS
                then filter (\<lambda>q. is_established (heap db2 q)) pre else [])"
    unfolding expire_all_post_def Let_def by blast+
  have D2: "\<And>r. r \<noteq> q \<Longrightarrow> ?D2 r = ?D r" using same by auto
  have g1: "snd (expire_all K now e pre db2 s2) = s + length (filter ?D (q # pre))"
  proof -
    have f: "filter ?D2 pre = filter ?D pre"
      using same d by (auto intro: filter_cong)
    from i1 have "snd (expire_all K now e pre db2 s2) = s2 + length (filter ?D pre)"
      by (simp only: f)
    then show ?thesis using s2 by simp
  qed
  have g3: "\<And>r. heap ?db1 r =
      (if r \<in> set (q # pre) then expired_heap now (heap db r) else heap db r)"
    using d by (auto simp: i3 h2)
  have fl: "filter (\<lambda>r. \<not> ?D2 r) (if \<not> ?est then removeAll q xs else xs) =
            filter (\<lambda>r. \<not> ?D r) xs" for xs
    using same d by (induction xs) auto
  have g5: "\<And>t. tree6 (tables ?db1 t) =
             (if t = expirer_table e then filter (\<lambda>r. \<not> ?D r) (tree6 (tables db t))
              else tree6 (tables db t))"
    using fl [of "tree6 (tables db (expirer_table e))"] by (simp add: i5 t6)
  have g6: "\<And>t. tree4 (tables ?db1 t) =
             (if t = expirer_table e then filter (\<lambda>r. \<not> ?D r) (tree4 (tables db t))
              else tree4 (tables db t))"
    using fl [of "tree4 (tables db (expirer_table e))"] by (simp add: i6 t4)
  have g7: "\<And>e'. sessions (expirers ?db1 e') =
             filter (\<lambda>r. r \<notin> set (q # pre)) (sessions (expirers db e'))
             @ (if e' = EXPIRER_TCP_TRANS
                then filter (\<lambda>r. is_established (heap db r)) (q # pre) else [])"
  proof -
    fix e'
    have a: "filter (\<lambda>r. r \<notin> set pre) (removeAll q xs) =
             filter (\<lambda>r. r \<notin> set (q # pre)) xs" for xs
      by (induction xs) auto
    have b: "filter (\<lambda>r. is_established (heap db2 r)) pre =
             filter (\<lambda>r. is_established (heap db r)) pre"
      using same by (auto intro: filter_cong)
    show "sessions (expirers ?db1 e') =
             filter (\<lambda>r. r \<notin> set (q # pre)) (sessions (expirers db e'))
             @ (if e' = EXPIRER_TCP_TRANS
                then filter (\<lambda>r. is_established (heap db r)) (q # pre) else [])"
      using d by (simp add: i7 x2 a b)
  qed
  show ?thesis
    unfolding expire_all_post_def Let_def e
    using g1 i2 c2 g3 i4 n2 g5 g6 g7 by simp
qed

lemma expire_all_post: "distinct pre \<Longrightarrow> expire_all_post K now e pre db s"
proof (induction pre arbitrary: db s)
  case Nil
  show ?case by (rule expire_all_post_Nil)
next
  case (Cons q pre)
  then have "q \<notin> set pre" "distinct pre" by simp_all
  then show ?case by (intro expire_all_post_step Cons.IH)
qed

section \<open>Expiry of sessions: the claims\<close>

lemma time_before_refl: "\<not> time_before t t"
  by (simp add: time_before_def)

lemma example_timeouts:
  "get_timeout example_kernel EXPIRER_UDP example_db_udp = 300000"
  "get_timeout example_kernel EXPIRER_SYN db = 6000"
  "get_timeout example_kernel EXPIRER_TCP_EST db = 0"
  "get_timeout example_kernel EXPIRER_TCP_TRANS db = 0"
  "get_timeout example_kernel EXPIRER_ICMP db = 0"
  by (simp_all add: get_timeout_def timeout_offset_def config_word_def example_kernel_def
      example_db_udp_def empty_db_def sessiondb_init_config_def msecs_to_jiffies_def
      UDP_DEFAULT_def TCP_INCOMING_SYN_def word_sless_alt)

lemma example_db_udp_facts:
  "sessions (expirers example_db_udp EXPIRER_UDP) = [1] @ 2 # []"
  "heap example_db_udp 1 = example_entry L4PROTO_UDP CLOSED 1001 0"
  "heap example_db_udp (Suc 0) = example_entry L4PROTO_UDP CLOSED 1001 0"
  "heap example_db_udp 2 = example_entry L4PROTO_UDP CLOSED 1002 299000"
  "tables example_db_udp SESSION_TABLE_UDP = \<lparr>tree6 = [1, 2], tree4 = [1, 2], count = 2\<rparr>"
  by (simp_all add: example_db_udp_def empty_db_def)

text \<open>
  Claim C6. When the timer of an expirer fires, \<open>cleaner_timer\<close> walks the list of the
  expirer from its head. Let the list be \<open>pre @ p # rest\<close> where the deadline
  \<open>update_time + get_timeout\<close> of every entry of \<open>pre\<close> has passed and \<open>p\<close> is the first entry
  whose deadline is still ahead (\<open>time_before now deadline\<close>). Then the walk stops at \<open>p\<close>: the
  timer is set to the deadline of \<open>p\<close>, or to \<open>now + MIN_TIMER_SLEEP\<close> when the deadline is
  sooner than that, so it is never before \<open>now + MIN_TIMER_SLEEP\<close>; every entry of \<open>pre\<close>
  that \<open>session_expire\<close> condemns is out of both trees and of every list; every
  established TCP entry of \<open>pre\<close> is in state \<open>TRANS\<close> with a fresh update time, in the
  list of the transitory expirer and still in the trees; \<open>p\<close> and the entries after it are
  untouched and still head the list; and the count of the table went down by the number
  of entries removed. The timeout that \<open>get_timeout\<close> answers is the configured one for the
  UDP expirer and six seconds for the SYN expirer; for the ICMP expirer and the two TCP
  expirers it is the word at index 8, 16 and 24 of the configuration, which lies after
  the object, and not the configured timeout.
\<close>

theorem cleaner_timer_stops_at_first_unexpired:
  fixes K now e db pre p rest
  defines "timeout \<equiv> get_timeout K e db"
  defines "deadline \<equiv> update_time (heap db p) + timeout"
    and "db' \<equiv> cleaner_timer K now e db"
    and "tb \<equiv> expirer_table e"
  assumes l: "sessions (expirers db e) = pre @ p # rest"
    and d: "distinct (pre @ p # rest)"
    and ex: "\<forall>q \<in> set pre. \<not> time_before now (update_time (heap db q) + timeout)"
    and nx: "time_before now deadline"
  shows
    "timer (expirers db' e) =
        Some (if time_before deadline (now + MIN_TIMER_SLEEP) then now + MIN_TIMER_SLEEP
              else deadline)
     \<and> (\<forall>t. timer (expirers db' e) = Some t \<longrightarrow> \<not> time_before t (now + MIN_TIMER_SLEEP))
     \<and> (\<forall>q \<in> set pre. \<not> is_established (heap db q) \<longrightarrow>
           q \<notin> set (tree6 (tables db' tb)) \<and> q \<notin> set (tree4 (tables db' tb))
           \<and> (\<forall>e'. q \<notin> set (sessions (expirers db' e'))))
     \<and> (\<forall>q \<in> set pre. is_established (heap db q) \<longrightarrow>
           state (heap db' q) = TRANS \<and> update_time (heap db' q) = now
           \<and> q \<in> set (sessions (expirers db' EXPIRER_TCP_TRANS))
           \<and> (q \<in> set (tree6 (tables db' tb)) \<longleftrightarrow> q \<in> set (tree6 (tables db tb)))
           \<and> (q \<in> set (tree4 (tables db' tb)) \<longleftrightarrow> q \<in> set (tree4 (tables db tb))))
     \<and> (\<forall>q \<in> set (p # rest). heap db' q = heap db q
           \<and> (q \<in> set (tree6 (tables db' tb)) \<longleftrightarrow> q \<in> set (tree6 (tables db tb)))
           \<and> (q \<in> set (tree4 (tables db' tb)) \<longleftrightarrow> q \<in> set (tree4 (tables db tb))))
     \<and> sessions (expirers db' e) =
           p # rest @ (if e = EXPIRER_TCP_TRANS
                       then filter (\<lambda>q. is_established (heap db q)) pre else [])
     \<and> count (tables db' tb) =
           count (tables db tb)
           - of_nat (length (filter (\<lambda>q. \<not> is_established (heap db q)) pre))
     \<and> get_timeout K EXPIRER_UDP db = ttl_udp (config db)
     \<and> get_timeout K EXPIRER_SYN db = kernel_m2j K (1000 * TCP_INCOMING_SYN)
     \<and> get_timeout K EXPIRER_ICMP db = memory_after_config K 8
     \<and> get_timeout K EXPIRER_TCP_EST db = memory_after_config K 16
     \<and> get_timeout K EXPIRER_TCP_TRANS db = memory_after_config K 24"
proof -
  let ?db1 = "fst (expire_all K now e pre db 0)"
  let ?s1 = "snd (expire_all K now e pre db 0)"
  have dp: "distinct (pre @ [p])" "distinct pre" using d by auto
  have "cleaner_loop K now e timeout (pre @ p # rest) db 0 =
          schedule_timer now e (update_time (heap db p) + timeout)
            (sub_count (expirer_table e) ?s1 ?db1)"
    using dp(1) ex nx
    by (intro cleaner_loop_prefix) (simp_all add: expired_def deadline_def)
  then have r: "db' = schedule_timer now e deadline (sub_count tb ?s1 ?db1)"
    by (simp add: db'_def cleaner_timer_def l timeout_def deadline_def tb_def)
  from expire_all_post [OF dp(2), of K now e db 0] have
    i1: "?s1 = length (filter (\<lambda>r. r \<in> set pre \<and> \<not> is_established (heap db r)) pre)" and
    i3: "\<And>r. heap ?db1 r = (if r \<in> set pre then expired_heap now (heap db r) else heap db r)"
    and i4: "\<And>t. count (tables ?db1 t) = count (tables db t)" and
    i5: "\<And>t. tree6 (tables ?db1 t) =
             (if t = expirer_table e
              then filter (\<lambda>r. \<not> (r \<in> set pre \<and> \<not> is_established (heap db r)))
                     (tree6 (tables db t))
              else tree6 (tables db t))" and
    i6: "\<And>t. tree4 (tables ?db1 t) =
             (if t = expirer_table e
              then filter (\<lambda>r. \<not> (r \<in> set pre \<and> \<not> is_established (heap db r)))
                     (tree4 (tables db t))
              else tree4 (tables db t))" and
    i7: "\<And>e'. sessions (expirers ?db1 e') =
             filter (\<lambda>r. r \<notin> set pre) (sessions (expirers db e'))
             @ (if e' = EXPIRER_TCP_TRANS
                then filter (\<lambda>q. is_established (heap db q)) pre else [])"
    unfolding expire_all_post_def Let_def by simp_all
  have h: "\<And>q. heap db' q = heap ?db1 q" by (simp add: r)
  have t6: "tree6 (tables db' tb) =
      filter (\<lambda>r. \<not> (r \<in> set pre \<and> \<not> is_established (heap db r))) (tree6 (tables db tb))"
    by (simp add: r tables_sub_count i5 tb_def)
  have t4: "tree4 (tables db' tb) =
      filter (\<lambda>r. \<not> (r \<in> set pre \<and> \<not> is_established (heap db r))) (tree4 (tables db tb))"
    by (simp add: r tables_sub_count i6 tb_def)
  have x: "\<And>e'. sessions (expirers db' e') =
             filter (\<lambda>r. r \<notin> set pre) (sessions (expirers db e'))
             @ (if e' = EXPIRER_TCP_TRANS
                then filter (\<lambda>q. is_established (heap db q)) pre else [])"
    by (simp add: r i7)
  have c1: "timer (expirers db' e) =
        Some (if time_before deadline (now + MIN_TIMER_SLEEP) then now + MIN_TIMER_SLEEP
              else deadline)"
    by (simp add: r timer_schedule_timer)
  have c2: "\<forall>t. timer (expirers db' e) = Some t \<longrightarrow> \<not> time_before t (now + MIN_TIMER_SLEEP)"
    by (auto simp: c1 time_before_refl split: if_splits)
  have c3: "\<forall>q \<in> set pre. \<not> is_established (heap db q) \<longrightarrow>
           q \<notin> set (tree6 (tables db' tb)) \<and> q \<notin> set (tree4 (tables db' tb))
           \<and> (\<forall>e'. q \<notin> set (sessions (expirers db' e')))"
    by (auto simp: t6 t4 x)
  have c4: "\<forall>q \<in> set pre. is_established (heap db q) \<longrightarrow>
           state (heap db' q) = TRANS \<and> update_time (heap db' q) = now
           \<and> q \<in> set (sessions (expirers db' EXPIRER_TCP_TRANS))
           \<and> (q \<in> set (tree6 (tables db' tb)) \<longleftrightarrow> q \<in> set (tree6 (tables db tb)))
           \<and> (q \<in> set (tree4 (tables db' tb)) \<longleftrightarrow> q \<in> set (tree4 (tables db tb)))"
    by (auto simp: t6 t4 x h i3 expired_heap_def is_established_def)
  have c5: "\<forall>q \<in> set (p # rest). heap db' q = heap db q
           \<and> (q \<in> set (tree6 (tables db' tb)) \<longleftrightarrow> q \<in> set (tree6 (tables db tb)))
           \<and> (q \<in> set (tree4 (tables db' tb)) \<longleftrightarrow> q \<in> set (tree4 (tables db tb)))"
    using d by (auto simp: t6 t4 h i3)
  have f: "filter (\<lambda>r. r \<notin> set pre) (pre @ p # rest) = p # rest"
  proof -
    have "filter (\<lambda>r. r \<notin> set pre) pre = []" by (simp add: filter_empty_conv)
    moreover have "filter (\<lambda>r. r \<notin> set pre) (p # rest) = p # rest"
      using d by (subst filter_id_conv) auto
    ultimately show ?thesis by (simp only: filter_append append_Nil)
  qed
  have c6: "sessions (expirers db' e) =
           p # rest @ (if e = EXPIRER_TCP_TRANS
                       then filter (\<lambda>q. is_established (heap db q)) pre else [])"
    unfolding x l f by simp
  have g: "filter (\<lambda>r. r \<in> set pre \<and> \<not> is_established (heap db r)) pre =
           filter (\<lambda>q. \<not> is_established (heap db q)) pre"
    by (auto intro: filter_cong)
  have c7: "count (tables db' tb) =
           count (tables db tb)
           - of_nat (length (filter (\<lambda>q. \<not> is_established (heap db q)) pre))"
    by (simp add: r tables_sub_count i4 i1 g)
  have c8: "get_timeout K EXPIRER_UDP db = ttl_udp (config db)"
    "get_timeout K EXPIRER_SYN db = kernel_m2j K (1000 * TCP_INCOMING_SYN)"
    "get_timeout K EXPIRER_ICMP db = memory_after_config K 8"
    "get_timeout K EXPIRER_TCP_EST db = memory_after_config K 16"
    "get_timeout K EXPIRER_TCP_TRANS db = memory_after_config K 24"
    by (simp_all add: get_timeout_def timeout_offset_def config_word_def)
  from c1 c2 c3 c4 c5 c6 c7 c8 show ?thesis by blast
qed

text \<open>The two UDP sessions of \<open>example_db_udp\<close> at time 300000: the first has expired and is
  removed, the second has a second left and the timer is set to its deadline.\<close>

theorem cleaner_timer_stops_at_first_unexpired_witness:
  "sessions (expirers example_db_udp EXPIRER_UDP) = [1, 2]
   \<and> \<not> time_before 300000
         (update_time (heap example_db_udp 1) + get_timeout example_kernel EXPIRER_UDP example_db_udp)
   \<and> time_before 300000
         (update_time (heap example_db_udp 2) + get_timeout example_kernel EXPIRER_UDP example_db_udp)
   \<and> timer (expirers (cleaner_timer example_kernel 300000 EXPIRER_UDP example_db_udp) EXPIRER_UDP)
       = Some 599000
   \<and> sessions (expirers (cleaner_timer example_kernel 300000 EXPIRER_UDP example_db_udp) EXPIRER_UDP)
       = [2]
   \<and> 1 \<notin> set (tree6 (tables (cleaner_timer example_kernel 300000 EXPIRER_UDP example_db_udp)
                         SESSION_TABLE_UDP))
   \<and> 2 \<in> set (tree6 (tables (cleaner_timer example_kernel 300000 EXPIRER_UDP example_db_udp)
                         SESSION_TABLE_UDP))
   \<and> count (tables (cleaner_timer example_kernel 300000 EXPIRER_UDP example_db_udp)
              SESSION_TABLE_UDP) = 1"
proof -
  have a: "\<not> time_before 300000
         (update_time (heap example_db_udp 1) + get_timeout example_kernel EXPIRER_UDP example_db_udp)"
    and b: "time_before 300000
         (update_time (heap example_db_udp 2) + get_timeout example_kernel EXPIRER_UDP example_db_udp)"
    by (simp_all add: example_timeouts example_db_udp_facts example_entry_def time_before_def
        word_sless_alt)
  have ne: "\<not> is_established (heap example_db_udp 1)"
    by (simp add: example_db_udp_facts example_entry_def is_established_def)
  have tb: "\<not> time_before (599000 :: u64) (300000 + MIN_TIMER_SLEEP)"
    by (simp add: time_before_def MIN_TIMER_SLEEP_def word_sless_alt)
  have u: "update_time (heap example_db_udp 2) + get_timeout example_kernel EXPIRER_UDP example_db_udp
           = 599000"
    by (simp add: example_timeouts example_db_udp_facts example_entry_def)
  have d: "distinct ([1] @ 2 # ([] :: session_ptr list))" by simp
  have ex: "\<forall>q \<in> set [1]. \<not> time_before 300000
         (update_time (heap example_db_udp q) + get_timeout example_kernel EXPIRER_UDP example_db_udp)"
    using a by simp
  note T = cleaner_timer_stops_at_first_unexpired
    [where pre = "[1]" and p = 2 and rest = "[]" and db = example_db_udp and e = EXPIRER_UDP
       and K = example_kernel and now = 300000, OF example_db_udp_facts(1) d ex b,
     unfolded u]
  have c1: "timer (expirers (cleaner_timer example_kernel 300000 EXPIRER_UDP example_db_udp)
              EXPIRER_UDP) = Some 599000"
    using T [THEN conjunct1] tb by simp
  have c3: "1 \<notin> set (tree6 (tables (cleaner_timer example_kernel 300000 EXPIRER_UDP example_db_udp)
                         SESSION_TABLE_UDP))"
    using T [THEN conjunct2, THEN conjunct2, THEN conjunct1] ne by simp
  have c5: "2 \<in> set (tree6 (tables (cleaner_timer example_kernel 300000 EXPIRER_UDP example_db_udp)
                         SESSION_TABLE_UDP))"
    using T [THEN conjunct2, THEN conjunct2, THEN conjunct2, THEN conjunct2, THEN conjunct1]
    by (simp add: example_db_udp_facts)
  have c6: "sessions (expirers (cleaner_timer example_kernel 300000 EXPIRER_UDP example_db_udp)
              EXPIRER_UDP) = [2]"
    using T [THEN conjunct2, THEN conjunct2, THEN conjunct2, THEN conjunct2, THEN conjunct2,
             THEN conjunct1]
    by simp
  have c7: "count (tables (cleaner_timer example_kernel 300000 EXPIRER_UDP example_db_udp)
              SESSION_TABLE_UDP) = 1"
    using T [THEN conjunct2, THEN conjunct2, THEN conjunct2, THEN conjunct2, THEN conjunct2,
             THEN conjunct2] ne
    by (simp add: example_db_udp_facts)
  have l: "sessions (expirers example_db_udp EXPIRER_UDP) = [1, 2]"
    by (simp add: example_db_udp_facts)
  from l a b c1 c6 c3 c5 c7 show ?thesis by (intro conjI)
qed

text \<open>
  Claim C6, as stated, takes the configured timeout of the class for the deadline.
  An ICMP session one second after its last packet, with a configured ICMP timeout of 60
  seconds and zeros in the memory after the configuration: the deadline by the configured
  timeout is still ahead, but \<open>get_timeout\<close> answers 0 and \<open>cleaner_timer\<close> removes the
  session and leaves the timer idle.
\<close>

lemma example_db_icmp_facts:
  "heap example_db_icmp 1 = example_entry L4PROTO_ICMP CLOSED 1001 0"
  "heap example_db_icmp (Suc 0) = example_entry L4PROTO_ICMP CLOSED 1001 0"
  "sessions (expirers example_db_icmp e) = (if e = EXPIRER_ICMP then [1] else [])"
  "timer (expirers example_db_icmp e) = None"
  "tables example_db_icmp SESSION_TABLE_ICMP = \<lparr>tree6 = [1], tree4 = [1], count = 1\<rparr>"
  "ttl_icmp (config example_db_icmp) = 60000"
  by (simp_all add: example_db_icmp_def empty_db_def sessiondb_init_config_def
      msecs_to_jiffies_def ICMP_DEFAULT_def word_sless_alt)

theorem cleaner_timer_icmp_timeout_counterexample:
  "sessions (expirers example_db_icmp EXPIRER_ICMP) = [1]
   \<and> update_time (heap example_db_icmp 1) = 0
   \<and> ttl_icmp (config example_db_icmp) = 60000
   \<and> time_before 1000 (update_time (heap example_db_icmp 1) + ttl_icmp (config example_db_icmp))
   \<and> get_timeout example_kernel EXPIRER_ICMP example_db_icmp = 0
   \<and> sessions (expirers (cleaner_timer example_kernel 1000 EXPIRER_ICMP example_db_icmp)
         EXPIRER_ICMP) = []
   \<and> tables (cleaner_timer example_kernel 1000 EXPIRER_ICMP example_db_icmp) SESSION_TABLE_ICMP
       = \<lparr>tree6 = [], tree4 = [], count = 0\<rparr>
   \<and> timer (expirers (cleaner_timer example_kernel 1000 EXPIRER_ICMP example_db_icmp)
         EXPIRER_ICMP) = None"
proof -
  let ?D = "example_db_icmp"
  have r: "session_expire example_kernel 1000 1 ?D = (True, ?D)"
    by (simp add: session_expire_def example_db_icmp_facts example_entry_def)
  have x: "\<not> time_before 1000
             (update_time (heap ?D 1) + get_timeout example_kernel EXPIRER_ICMP ?D)"
    by (simp add: example_db_icmp_facts example_entry_def example_timeouts time_before_def
        word_sless_alt)
  have c: "cleaner_timer example_kernel 1000 EXPIRER_ICMP ?D =
             sub_count SESSION_TABLE_ICMP 1 (remove_session 1 SESSION_TABLE_ICMP ?D)"
    using x r by (simp add: cleaner_timer_def example_db_icmp_facts)
  have t: "time_before 1000 (update_time (heap ?D 1) + ttl_icmp (config ?D))"
    by (simp add: example_db_icmp_facts example_entry_def time_before_def word_sless_alt)
  show ?thesis
    unfolding c
    using t
    by (simp add: example_timeouts example_db_icmp_facts example_entry_def
        remove_session_def rb_erase_def sub_count_def list_del_def)
qed
lemma probe_of_fields:
  "ack (th (probe_of K s))" "seq (th (probe_of K s)) = 0" "ack_seq (th (probe_of K s)) = 0"
  "window (th (probe_of K s)) = 8192"
  "\<not> syn (th (probe_of K s))" "\<not> fin (th (probe_of K s))" "\<not> rst (th (probe_of K s))"
  "payload_len (iph (probe_of K s)) = 20" "doff (th (probe_of K s)) = 5"
  "skb_len (probe_of K s) = 60"
  "saddr (iph (probe_of K s)) = l3 (local (ipv6 s))"
  "source (th (probe_of K s)) = l4 (local (ipv6 s))"
  "daddr (iph (probe_of K s)) = l3 (remote (ipv6 s))"
  "dest (th (probe_of K s)) = l4 (remote (ipv6 s))"
  "version (iph (probe_of K s)) = 6" "nexthdr (iph (probe_of K s)) = 6"
  "hop_limit (iph (probe_of K s)) = 255"
  "\<not> psh (th (probe_of K s))" "\<not> urg (th (probe_of K s))"
  by (simp_all add: probe_of_def Let_def NEXTHDR_TCP_def)

lemma session_expire_established_db:
  assumes "is_established (heap db p)"
  shows "snd (session_expire K now p db) =
     (let db3 = list_add_tail p EXPIRER_TCP_TRANS (list_del p
                  (set_update_time p now (set_state p TRANS
                     (send_probe_packet K (heap db p) db))))
      in if timer (expirers db3 EXPIRER_TCP_TRANS) = None
         then schedule_timer now EXPIRER_TCP_TRANS (now + get_timeout K EXPIRER_TCP_TRANS db3) db3
         else db3)"
  using assms by (simp add: session_expire_def is_established_def Let_def)

lemma outbox_simps:
  "outbox (list_add_tail p e db) = outbox db"
  "outbox (list_del p db) = outbox db"
  "outbox (set_update_time p t db) = outbox db"
  "outbox (set_state p st db) = outbox db"
  "outbox (schedule_timer now e t db) = outbox db"
  "outbox (sub_count tb n db) = outbox db"
  by (simp_all add: list_add_tail_def list_del_def set_update_time_def set_state_def
      schedule_timer_def sub_count_def Let_def)

lemma tables_simps:
  "tables (list_add_tail p e db) = tables db"
  "tables (list_del p db) = tables db"
  "tables (set_update_time p t db) = tables db"
  "tables (set_state p st db) = tables db"
  "tables (schedule_timer now e t db) = tables db"
  "tables (send_probe_packet K s db) = tables db"
  by (simp_all add: list_add_tail_def list_del_def set_update_time_def set_state_def
      schedule_timer_def send_probe_packet_def Let_def)

lemma sessions_simps:
  "sessions (expirers (list_add_tail p e db) e') =
     (if e' = e then sessions (expirers db e') @ [p] else sessions (expirers db e'))"
  "sessions (expirers (list_del p db) e') = removeAll p (sessions (expirers db e'))"
  "sessions (expirers (set_update_time p t db) e') = sessions (expirers db e')"
  "sessions (expirers (set_state p st db) e') = sessions (expirers db e')"
  "sessions (expirers (schedule_timer now e t db) e') = sessions (expirers db e')"
  "sessions (expirers (send_probe_packet K s db) e') = sessions (expirers db e')"
  "sessions (expirers (sub_count tb n db) e') = sessions (expirers db e')"
  by (simp_all add: list_add_tail_def list_del_def set_update_time_def set_state_def
      schedule_timer_def send_probe_packet_def sub_count_def Let_def)

lemma heap_set_simps:
  "heap (set_update_time p t db) = (heap db)(p := (heap db p)\<lparr>update_time := t\<rparr>)"
  "heap (set_state p st db) = (heap db)(p := (heap db p)\<lparr>state := st\<rparr>)"
  by (simp_all add: set_update_time_def set_state_def)

lemma example_db_tcp_facts:
  "heap (example_db_tcp st e) 1 = example_entry L4PROTO_TCP st 1001 0"
  "heap (example_db_tcp st e) (Suc 0) = example_entry L4PROTO_TCP st 1001 0"
  "sessions (expirers (example_db_tcp st e) e') = (if e' = e then [1] else [])"
  "timer (expirers (example_db_tcp st e) e') = None"
  "tables (example_db_tcp st e) SESSION_TABLE_TCP = \<lparr>tree6 = [1], tree4 = [1], count = 1\<rparr>"
  "outbox (example_db_tcp st e) = []"
  by (simp_all add: example_db_tcp_def empty_db_def)

lemma example_entry_fields:
  "session_l4_proto (example_entry proto st port t) = proto"
  "state (example_entry proto st port t) = st"
  "update_time (example_entry proto st port t) = t"
  by (simp_all add: example_entry_def)

lemma cleaner_loop_all:
  assumes "e \<noteq> EXPIRER_TCP_TRANS" and "distinct pre"
    and "\<forall>q \<in> set pre. expired now t (heap db q)"
  shows "cleaner_loop K now e t pre db s =
           sub_count (expirer_table e) (snd (expire_all K now e pre db s))
             (fst (expire_all K now e pre db s))"
  using assms
proof (induction pre arbitrary: db s)
  case Nil
  show ?case by simp
next
  case (Cons q pre)
  let ?db' = "snd (session_expire K now q db)"
  from Cons.prems have q: "expired now t (heap db q)" and qp: "q \<notin> set pre"
    and d: "distinct pre" by auto
  have pre': "\<forall>r \<in> set pre. expired now t (heap ?db' r)"
  proof
    fix r assume r: "r \<in> set pre"
    with qp have "r \<noteq> q" by auto
    then have "heap ?db' r = heap db r" by (simp add: session_expire_heap)
    with Cons.prems(3) r show "expired now t (heap ?db' r)" by simp
  qed
  show ?case
  proof (cases "fst (session_expire K now q db)")
    case True
    let ?db2 = "remove_session q (expirer_table e) ?db'"
    have "cleaner_loop K now e t (q # pre) db s =
            cleaner_loop K now e t pre ?db2 (s + 1)"
      using q True by (simp add: expired_def)
    also have "\<dots> = sub_count (expirer_table e) (snd (expire_all K now e pre ?db2 (s + 1)))
                (fst (expire_all K now e pre ?db2 (s + 1)))"
      using Cons.prems(1) d pre' by (intro Cons.IH) simp_all
    finally show ?thesis using True by simp
  next
    case False
    have "cleaner_loop K now e t (q # pre) db s = cleaner_loop K now e t pre ?db' s"
      using q False Cons.prems(1) by (simp add: expired_def)
    also have "\<dots> = sub_count (expirer_table e) (snd (expire_all K now e pre ?db' s))
                (fst (expire_all K now e pre ?db' s))"
      using Cons.prems(1) d pre' by (intro Cons.IH) simp_all
    finally show ?thesis using False by simp
  qed
qed

lemma outbox_send_probe_packet:
  "outbox (send_probe_packet K s db) =
     outbox db @ (if kernel_sends K then [PROBE (probe_of K s)] else [])"
  by (simp add: send_probe_packet_def kernel_sends_def)

lemma outbox_remove_session: "outbox (remove_session q t db) = outbox db"
  by (simp add: remove_session_def list_del_def)

lemma expire_all_outbox:
  assumes "distinct pre"
  shows "outbox (fst (expire_all K now e pre db s)) =
           outbox db @ (if kernel_sends K
                        then map (\<lambda>q. PROBE (probe_of K (heap db q)))
                               (filter (\<lambda>q. is_established (heap db q)) pre)
                        else [])"
  using assms
proof (induction pre arbitrary: db s)
  case Nil
  show ?case by simp
next
  case (Cons q pre)
  let ?db' = "snd (session_expire K now q db)"
  from Cons.prems have qp: "q \<notin> set pre" and d: "distinct pre" by auto
  have h: "\<And>r. r \<in> set pre \<Longrightarrow> heap ?db' r = heap db r"
    using qp by (auto simp: session_expire_heap)
  have m: "map (\<lambda>q. PROBE (probe_of K (heap ?db' q)))
             (filter (\<lambda>q. is_established (heap ?db' q)) pre) =
           map (\<lambda>q. PROBE (probe_of K (heap db q)))
             (filter (\<lambda>q. is_established (heap db q)) pre)"
  proof -
    have "filter (\<lambda>q. is_established (heap ?db' q)) pre =
          filter (\<lambda>q. is_established (heap db q)) pre"
      using h by (intro filter_cong) simp_all
    moreover have "map (\<lambda>q. PROBE (probe_of K (heap ?db' q)))
                     (filter (\<lambda>q. is_established (heap db q)) pre) =
          map (\<lambda>q. PROBE (probe_of K (heap db q)))
            (filter (\<lambda>q. is_established (heap db q)) pre)"
      using h by (intro map_cong) auto
    ultimately show ?thesis by (simp only:)
  qed
  show ?case
  proof (cases "is_established (heap db q)")
    case True
    then have f: "\<not> fst (session_expire K now q db)" by (simp add: session_expire_destroy)
    have o: "outbox ?db' = outbox db @ (if kernel_sends K then [PROBE (probe_of K (heap db q))] else [])"
      using True by (simp add: session_expire_kept outbox_send_probe_packet)
    show ?thesis
      using f True by (simp add: Cons.IH [OF d] m o)
  next
    case False
    then have f: "fst (session_expire K now q db)" by (simp add: session_expire_destroy)
    have o: "outbox ?db' = outbox db" using False by (simp add: session_expire_destroyed)
    have hr: "\<And>r. heap (remove_session q (expirer_table e) ?db') r = heap ?db' r" by simp
    show ?thesis
      using f False by (simp add: Cons.IH [OF d] m o outbox_remove_session)
  qed
qed

lemma cleaner_timer_walk:
  assumes l: "sessions (expirers db e) = pre @ p # rest"
    and d: "distinct (pre @ p # rest)"
    and e: "e \<noteq> EXPIRER_TCP_TRANS"
    and x: "\<forall>q \<in> set (pre @ [p]). expired now (get_timeout K e db) (heap db q)"
  shows "\<exists>P. distinct P \<and> p \<in> set P
           \<and> heap (cleaner_timer K now e db) = heap (fst (expire_all K now e P db 0))
           \<and> (\<forall>t. tree6 (tables (cleaner_timer K now e db) t)
                    = tree6 (tables (fst (expire_all K now e P db 0)) t))
           \<and> (\<forall>t. tree4 (tables (cleaner_timer K now e db) t)
                    = tree4 (tables (fst (expire_all K now e P db 0)) t))
           \<and> (\<forall>e'. sessions (expirers (cleaner_timer K now e db) e')
                     = sessions (expirers (fst (expire_all K now e P db 0)) e'))
           \<and> outbox (cleaner_timer K now e db) = outbox (fst (expire_all K now e P db 0))"
proof (cases "\<forall>q \<in> set rest. expired now (get_timeout K e db) (heap db q)")
  case True
  let ?P = "pre @ p # rest"
  have a: "\<forall>q \<in> set ?P. expired now (get_timeout K e db) (heap db q)"
    using x True by auto
  have c: "cleaner_timer K now e db =
             sub_count (expirer_table e) (snd (expire_all K now e ?P db 0))
               (fst (expire_all K now e ?P db 0))"
    unfolding cleaner_timer_def l by (rule cleaner_loop_all [OF e d a])
  have "heap (cleaner_timer K now e db) = heap (fst (expire_all K now e ?P db 0))"
    and "\<forall>t. tree6 (tables (cleaner_timer K now e db) t)
                    = tree6 (tables (fst (expire_all K now e ?P db 0)) t)"
    and "\<forall>t. tree4 (tables (cleaner_timer K now e db) t)
                    = tree4 (tables (fst (expire_all K now e ?P db 0)) t)"
    and "\<forall>e'. sessions (expirers (cleaner_timer K now e db) e')
                     = sessions (expirers (fst (expire_all K now e ?P db 0)) e')"
    and "outbox (cleaner_timer K now e db) = outbox (fst (expire_all K now e ?P db 0))"
    unfolding c by (simp_all add: tables_sub_count sessions_simps outbox_simps)
  then show ?thesis using d by (intro exI [of _ ?P]) simp
next
  case False
  then have "\<exists>q \<in> set rest. \<not> expired now (get_timeout K e db) (heap db q)" by simp
  then obtain mid u rest' where r: "rest = mid @ u # rest'"
    and u: "\<not> expired now (get_timeout K e db) (heap db u)"
    and m: "\<forall>q \<in> set mid. \<not> \<not> expired now (get_timeout K e db) (heap db q)"
    by (auto dest!: split_list_first_prop)
  let ?P = "pre @ p # mid"
  have a: "\<forall>q \<in> set ?P. expired now (get_timeout K e db) (heap db q)"
    using x m by auto
  have dP: "distinct (?P @ [u])" using d r by auto
  have "cleaner_loop K now e (get_timeout K e db) (?P @ u # rest') db 0 =
          schedule_timer now e (update_time (heap db u) + get_timeout K e db)
            (sub_count (expirer_table e) (snd (expire_all K now e ?P db 0))
               (fst (expire_all K now e ?P db 0)))"
    by (rule cleaner_loop_prefix [OF dP a u])
  then have c: "cleaner_timer K now e db =
          schedule_timer now e (update_time (heap db u) + get_timeout K e db)
            (sub_count (expirer_table e) (snd (expire_all K now e ?P db 0))
               (fst (expire_all K now e ?P db 0)))"
    by (simp add: cleaner_timer_def l r)
  have "heap (cleaner_timer K now e db) = heap (fst (expire_all K now e ?P db 0))"
    and "\<forall>t. tree6 (tables (cleaner_timer K now e db) t)
                    = tree6 (tables (fst (expire_all K now e ?P db 0)) t)"
    and "\<forall>t. tree4 (tables (cleaner_timer K now e db) t)
                    = tree4 (tables (fst (expire_all K now e ?P db 0)) t)"
    and "\<forall>e'. sessions (expirers (cleaner_timer K now e db) e')
                     = sessions (expirers (fst (expire_all K now e ?P db 0)) e')"
    and "outbox (cleaner_timer K now e db) = outbox (fst (expire_all K now e ?P db 0))"
    unfolding c by (simp_all add: tables_sub_count tables_simps sessions_simps outbox_simps)
  moreover have "distinct ?P" using dP by simp
  ultimately show ?thesis by (intro exI [of _ ?P]) simp
qed

lemma cleaner_timer_keeps_established:
  assumes l: "sessions (expirers db e) = pre @ p # rest"
    and d: "distinct (pre @ p # rest)"
    and e: "e \<noteq> EXPIRER_TCP_TRANS"
    and x: "\<forall>q \<in> set (pre @ [p]). expired now (get_timeout K e db) (heap db q)"
    and est: "is_established (heap db p)"
  shows "p \<in> set (tree6 (tables (cleaner_timer K now e db) t)) \<longleftrightarrow>
           p \<in> set (tree6 (tables db t))"
    and "p \<in> set (tree4 (tables (cleaner_timer K now e db) t)) \<longleftrightarrow>
           p \<in> set (tree4 (tables db t))"
    and "state (heap (cleaner_timer K now e db) p) = TRANS"
    and "update_time (heap (cleaner_timer K now e db) p) = now"
    and "p \<in> set (sessions (expirers (cleaner_timer K now e db) EXPIRER_TCP_TRANS))"
    and "p \<notin> set (sessions (expirers (cleaner_timer K now e db) e))"
    and "kernel_sends K \<Longrightarrow>
           PROBE (probe_of K (heap db p)) \<in> set (outbox (cleaner_timer K now e db))"
proof -
  from cleaner_timer_walk [OF l d e x] obtain P where dP: "distinct P" and pP: "p \<in> set P"
    and h: "heap (cleaner_timer K now e db) = heap (fst (expire_all K now e P db 0))"
    and t6: "\<And>t. tree6 (tables (cleaner_timer K now e db) t)
                    = tree6 (tables (fst (expire_all K now e P db 0)) t)"
    and t4: "\<And>t. tree4 (tables (cleaner_timer K now e db) t)
                    = tree4 (tables (fst (expire_all K now e P db 0)) t)"
    and ss: "\<And>e'. sessions (expirers (cleaner_timer K now e db) e')
                     = sessions (expirers (fst (expire_all K now e P db 0)) e')"
    and ob: "outbox (cleaner_timer K now e db) = outbox (fst (expire_all K now e P db 0))"
    by blast
  let ?db1 = "fst (expire_all K now e P db 0)"
  from expire_all_post [OF dP, of K now e db 0] have
    i3: "\<And>r. heap ?db1 r = (if r \<in> set P then expired_heap now (heap db r) else heap db r)"
    and i5: "\<And>t. tree6 (tables ?db1 t) =
             (if t = expirer_table e
              then filter (\<lambda>r. \<not> (r \<in> set P \<and> \<not> is_established (heap db r)))
                     (tree6 (tables db t))
              else tree6 (tables db t))" and
    i6: "\<And>t. tree4 (tables ?db1 t) =
             (if t = expirer_table e
              then filter (\<lambda>r. \<not> (r \<in> set P \<and> \<not> is_established (heap db r)))
                     (tree4 (tables db t))
              else tree4 (tables db t))" and
    i7: "\<And>e'. sessions (expirers ?db1 e') =
             filter (\<lambda>r. r \<notin> set P) (sessions (expirers db e'))
             @ (if e' = EXPIRER_TCP_TRANS
                then filter (\<lambda>q. is_established (heap db q)) P else [])"
    unfolding expire_all_post_def Let_def by simp_all
  show "p \<in> set (tree6 (tables (cleaner_timer K now e db) t)) \<longleftrightarrow>
           p \<in> set (tree6 (tables db t))"
    using est by (simp add: t6 i5)
  show "p \<in> set (tree4 (tables (cleaner_timer K now e db) t)) \<longleftrightarrow>
           p \<in> set (tree4 (tables db t))"
    using est by (simp add: t4 i6)
  show "state (heap (cleaner_timer K now e db) p) = TRANS"
    using est pP by (simp add: h i3 expired_heap_def is_established_def)
  show "update_time (heap (cleaner_timer K now e db) p) = now"
    using est pP by (simp add: h i3 expired_heap_def is_established_def)
  show "p \<in> set (sessions (expirers (cleaner_timer K now e db) EXPIRER_TCP_TRANS))"
    using est pP by (simp add: ss i7)
  show "p \<notin> set (sessions (expirers (cleaner_timer K now e db) e))"
    using e pP by (simp add: ss i7)
  show "PROBE (probe_of K (heap db p)) \<in> set (outbox (cleaner_timer K now e db))"
    if "kernel_sends K"
    using that est pP by (simp add: ob expire_all_outbox [OF dP])
qed

lemma example_db_tcp2_facts:
  "heap example_db_tcp2 1 = example_entry L4PROTO_TCP ESTABLISHED 1001 0"
  "heap example_db_tcp2 (Suc 0) = example_entry L4PROTO_TCP ESTABLISHED 1001 0"
  "heap example_db_tcp2 2 = example_entry L4PROTO_TCP ESTABLISHED 1002 10000000"
  "sessions (expirers example_db_tcp2 EXPIRER_TCP_EST) = [] @ 1 # [2]"
  "tables example_db_tcp2 SESSION_TABLE_TCP = \<lparr>tree6 = [1, 2], tree4 = [1, 2], count = 2\<rparr>"
  by (simp_all add: example_db_tcp2_def empty_db_def)

lemma example_kernel_no_route_facts:
  "\<not> kernel_sends example_kernel_no_route" "\<not> route_ipv6_ok example_kernel_no_route"
  "kernel_sends example_kernel"
  "get_timeout example_kernel_no_route EXPIRER_TCP_EST db = 0"
  by (simp_all add: kernel_sends_def example_kernel_no_route_def example_kernel_def
      get_timeout_def timeout_offset_def config_word_def)

text \<open>
  Claim C5, as stated, has a probe sent whenever an established session expires. When no
  route to the IPv6 node is found, \<open>send_probe_packet\<close> gives up: the session of the example
  is still moved to \<open>TRANS\<close> and to the list of the transitory expirer, and nothing is sent,
  neither by \<open>session_expire\<close> nor by the run of \<open>cleaner_timer\<close> that calls it.
\<close>

theorem session_expire_established_no_route_counterexample:
  "session_l4_proto (heap (example_db_tcp ESTABLISHED EXPIRER_TCP_EST) 1) = L4PROTO_TCP
   \<and> state (heap (example_db_tcp ESTABLISHED EXPIRER_TCP_EST) 1) = ESTABLISHED
   \<and> sessions (expirers (example_db_tcp ESTABLISHED EXPIRER_TCP_EST) EXPIRER_TCP_EST) = [1]
   \<and> alloc_skb_ok example_kernel_no_route
   \<and> \<not> route_ipv6_ok example_kernel_no_route
   \<and> \<not> fst (session_expire example_kernel_no_route 7200000 1
                (example_db_tcp ESTABLISHED EXPIRER_TCP_EST))
   \<and> state (heap (snd (session_expire example_kernel_no_route 7200000 1
                        (example_db_tcp ESTABLISHED EXPIRER_TCP_EST))) 1) = TRANS
   \<and> sessions (expirers (snd (session_expire example_kernel_no_route 7200000 1
                        (example_db_tcp ESTABLISHED EXPIRER_TCP_EST))) EXPIRER_TCP_TRANS) = [1]
   \<and> outbox (snd (session_expire example_kernel_no_route 7200000 1
                   (example_db_tcp ESTABLISHED EXPIRER_TCP_EST))) = []
   \<and> state (heap (cleaner_timer example_kernel_no_route 7200000 EXPIRER_TCP_EST
                     (example_db_tcp ESTABLISHED EXPIRER_TCP_EST)) 1) = TRANS
   \<and> outbox (cleaner_timer example_kernel_no_route 7200000 EXPIRER_TCP_EST
              (example_db_tcp ESTABLISHED EXPIRER_TCP_EST)) = []"
proof -
  let ?D = "example_db_tcp ESTABLISHED EXPIRER_TCP_EST"
  let ?K = "example_kernel_no_route"
  let ?r = "session_expire ?K 7200000 1 ?D"
  have e: "is_established (heap ?D 1)"
    by (simp add: is_established_def example_db_tcp_facts example_entry_fields)
  have k: "alloc_skb_ok ?K" "\<not> route_ipv6_ok ?K"
    by (simp_all add: example_kernel_no_route_def example_kernel_def)
  have f: "\<not> fst ?r" using e by (simp add: session_expire_destroy)
  have st: "state (heap (snd ?r) 1) = TRANS"
    using e by (simp add: session_expire_heap' expired_heap_def is_established_def)
  have ss: "sessions (expirers (snd ?r) EXPIRER_TCP_TRANS) = [1]"
    using e by (simp add: session_expire_kept example_db_tcp_facts)
  have ob: "outbox (snd ?r) = []"
    using e by (simp add: session_expire_kept outbox_send_probe_packet
        example_kernel_no_route_facts example_db_tcp_facts)
  have x: "\<not> time_before 7200000
             (update_time (heap ?D 1) + get_timeout ?K EXPIRER_TCP_EST ?D)"
    by (simp add: example_db_tcp_facts example_entry_fields example_kernel_no_route_facts
        time_before_def word_sless_alt)
  have c: "cleaner_timer ?K 7200000 EXPIRER_TCP_EST ?D =
             sub_count SESSION_TABLE_TCP 0 (snd ?r)"
    using x f by (simp add: cleaner_timer_def example_db_tcp_facts)
  have st2: "state (heap (cleaner_timer ?K 7200000 EXPIRER_TCP_EST ?D) 1) = TRANS"
    unfolding c using st by simp
  have ob2: "outbox (cleaner_timer ?K 7200000 EXPIRER_TCP_EST ?D) = []"
    unfolding c using ob by (simp add: outbox_simps)
  have a: "session_l4_proto (heap ?D 1) = L4PROTO_TCP" "state (heap ?D 1) = ESTABLISHED"
    "sessions (expirers ?D EXPIRER_TCP_EST) = [1]"
    by (simp_all add: example_db_tcp_facts example_entry_fields)
  from a k f st ss ob st2 ob2 show ?thesis by (intro conjI)
qed

text \<open>
  Claim C5, amended. When \<open>session_expire\<close> is called on a TCP session in state
  \<open>ESTABLISHED\<close>, it answers that the entry is not to be destroyed; the state of the entry is
  \<open>TRANS\<close> and its update time is the current time; the entry is the last of the list of the
  transitory expirer and in no other list, and the timer of that expirer is pending; the
  tables are as they were. When the allocation of the buffer, the search of the route and
  the dispatch all succeed, one probe packet is sent; when one of them fails, nothing is
  sent. The probe is an IPv6 packet (version 6, hop limit 255) whose next header is TCP (6)
  and that holds a TCP header of five words and no data (payload length 20, buffer length
  60), with the ACK flag set, SYN, FIN, RST, PSH and URG clear, sequence and
  acknowledgement numbers 0 and window 8192, from the local IPv6 transport address of the
  session to its remote IPv6 transport address. A run of \<open>cleaner_timer\<close> on the list of an
  expirer other than the transitory one, in which the entry and every entry before it
  have expired, leaves the entry in the trees it was in, in state \<open>TRANS\<close> with the current
  time, in the list of the transitory expirer and out of the list walked, and its probe is
  among the packets sent when the three steps succeed.
\<close>

theorem session_expire_established_keeps_and_probes:
  assumes tcp: "session_l4_proto (heap db p) = L4PROTO_TCP"
    and est: "state (heap db p) = ESTABLISHED"
  shows
    "\<not> fst (session_expire K now p db)
     \<and> state (heap (snd (session_expire K now p db)) p) = TRANS
     \<and> update_time (heap (snd (session_expire K now p db)) p) = now
     \<and> sessions (expirers (snd (session_expire K now p db)) EXPIRER_TCP_TRANS) =
         removeAll p (sessions (expirers db EXPIRER_TCP_TRANS)) @ [p]
     \<and> (\<forall>e. e \<noteq> EXPIRER_TCP_TRANS \<longrightarrow>
           p \<notin> set (sessions (expirers (snd (session_expire K now p db)) e)))
     \<and> timer (expirers (snd (session_expire K now p db)) EXPIRER_TCP_TRANS) \<noteq> None
     \<and> tables (snd (session_expire K now p db)) = tables db
     \<and> (sessions (expirers db e) = [p] \<and> e \<noteq> EXPIRER_TCP_TRANS
          \<and> \<not> time_before now (update_time (heap db p) + get_timeout K e db) \<longrightarrow>
          tables (cleaner_timer K now e db) = tables db
          \<and> sessions (expirers (cleaner_timer K now e db) EXPIRER_TCP_TRANS) =
              removeAll p (sessions (expirers db EXPIRER_TCP_TRANS)) @ [p])
     \<and> (alloc_skb_ok K \<and> route_ipv6_ok K \<and> ip6_local_out_ok K \<longrightarrow>
          outbox (snd (session_expire K now p db)) = outbox db @ [PROBE (probe_of K (heap db p))])
     \<and> ack (th (probe_of K (heap db p)))
     \<and> seq (th (probe_of K (heap db p))) = 0
     \<and> ack_seq (th (probe_of K (heap db p))) = 0
     \<and> window (th (probe_of K (heap db p))) = 8192
     \<and> \<not> syn (th (probe_of K (heap db p))) \<and> \<not> fin (th (probe_of K (heap db p)))
     \<and> \<not> rst (th (probe_of K (heap db p)))
     \<and> skb_len (probe_of K (heap db p)) = 40 + 4 * doff (th (probe_of K (heap db p)))
     \<and> unat (payload_len (iph (probe_of K (heap db p))))
         = 4 * doff (th (probe_of K (heap db p)))
     \<and> saddr (iph (probe_of K (heap db p))) = l3 (local (ipv6 (heap db p)))
     \<and> source (th (probe_of K (heap db p))) = l4 (local (ipv6 (heap db p)))
     \<and> daddr (iph (probe_of K (heap db p))) = l3 (remote (ipv6 (heap db p)))
     \<and> dest (th (probe_of K (heap db p))) = l4 (remote (ipv6 (heap db p)))
     \<and> (\<not> (alloc_skb_ok K \<and> route_ipv6_ok K \<and> ip6_local_out_ok K) \<longrightarrow>
          outbox (snd (session_expire K now p db)) = outbox db)
     \<and> version (iph (probe_of K (heap db p))) = 6
     \<and> nexthdr (iph (probe_of K (heap db p))) = 6
     \<and> hop_limit (iph (probe_of K (heap db p))) = 255
     \<and> doff (th (probe_of K (heap db p))) = 5
     \<and> payload_len (iph (probe_of K (heap db p))) = 20
     \<and> skb_len (probe_of K (heap db p)) = 60
     \<and> \<not> psh (th (probe_of K (heap db p))) \<and> \<not> urg (th (probe_of K (heap db p)))
     \<and> (sessions (expirers db e) = pre @ p # rest \<and> distinct (pre @ p # rest)
          \<and> e \<noteq> EXPIRER_TCP_TRANS
          \<and> (\<forall>q \<in> set (pre @ [p]).
                \<not> time_before now (update_time (heap db q) + get_timeout K e db)) \<longrightarrow>
          (\<forall>t. (p \<in> set (tree6 (tables (cleaner_timer K now e db) t)))
                = (p \<in> set (tree6 (tables db t))))
          \<and> (\<forall>t. (p \<in> set (tree4 (tables (cleaner_timer K now e db) t)))
                = (p \<in> set (tree4 (tables db t))))
          \<and> state (heap (cleaner_timer K now e db) p) = TRANS
          \<and> update_time (heap (cleaner_timer K now e db) p) = now
          \<and> p \<in> set (sessions (expirers (cleaner_timer K now e db) EXPIRER_TCP_TRANS))
          \<and> p \<notin> set (sessions (expirers (cleaner_timer K now e db) e))
          \<and> (alloc_skb_ok K \<and> route_ipv6_ok K \<and> ip6_local_out_ok K \<longrightarrow>
               PROBE (probe_of K (heap db p)) \<in> set (outbox (cleaner_timer K now e db))))"
proof -
  let ?r = "session_expire K now p db"
  have e: "is_established (heap db p)" using tcp est by (simp add: is_established_def)
  note D = session_expire_established_db [OF e, of K now]
  have c1: "\<not> fst ?r" using e by (simp add: session_expire_destroy)
  have c2: "state (heap (snd ?r) p) = TRANS" "update_time (heap (snd ?r) p) = now"
    by (simp_all add: D Let_def heap_set_simps)
  have c3: "\<And>e'. sessions (expirers (snd ?r) e') =
      (if e' = EXPIRER_TCP_TRANS then removeAll p (sessions (expirers db e')) @ [p]
       else removeAll p (sessions (expirers db e')))"
    by (simp add: D Let_def sessions_simps)
  have c3a: "sessions (expirers (snd ?r) EXPIRER_TCP_TRANS) =
         removeAll p (sessions (expirers db EXPIRER_TCP_TRANS)) @ [p]"
    by (simp add: c3)
  have c3b: "\<forall>e. e \<noteq> EXPIRER_TCP_TRANS \<longrightarrow> p \<notin> set (sessions (expirers (snd ?r) e))"
    by (simp add: c3)
  have c4: "timer (expirers (snd ?r) EXPIRER_TCP_TRANS) \<noteq> None"
    by (simp add: D Let_def timer_schedule_timer)
  have c5: "tables (snd ?r) = tables db"
    by (simp add: D Let_def tables_simps)
  have c6: "alloc_skb_ok K \<and> route_ipv6_ok K \<and> ip6_local_out_ok K \<longrightarrow>
          outbox (snd ?r) = outbox db @ [PROBE (probe_of K (heap db p))]"
    by (simp add: D Let_def outbox_simps send_probe_packet_def)
  have c6n: "\<not> (alloc_skb_ok K \<and> route_ipv6_ok K \<and> ip6_local_out_ok K) \<longrightarrow>
          outbox (snd ?r) = outbox db"
    by (auto simp: D Let_def outbox_simps send_probe_packet_def)
  have c7: "sessions (expirers db e) = [p] \<and> e \<noteq> EXPIRER_TCP_TRANS
          \<and> \<not> time_before now (update_time (heap db p) + get_timeout K e db) \<longrightarrow>
          tables (cleaner_timer K now e db) = tables db
          \<and> sessions (expirers (cleaner_timer K now e db) EXPIRER_TCP_TRANS) =
              removeAll p (sessions (expirers db EXPIRER_TCP_TRANS)) @ [p]"
  proof (intro impI, elim conjE)
    assume l: "sessions (expirers db e) = [p]"
      and x: "\<not> time_before now (update_time (heap db p) + get_timeout K e db)"
    have "cleaner_timer K now e db = sub_count (expirer_table e) 0 (snd ?r)"
      using x c1 by (simp add: cleaner_timer_def l)
    moreover have "\<And>d. tables (sub_count (expirer_table e) 0 d) = tables d"
      by (simp add: sub_count_def)
    ultimately show "tables (cleaner_timer K now e db) = tables db
          \<and> sessions (expirers (cleaner_timer K now e db) EXPIRER_TCP_TRANS) =
              removeAll p (sessions (expirers db EXPIRER_TCP_TRANS)) @ [p]"
      by (simp add: c5 c3 sessions_simps)
  qed
  have c8: "sessions (expirers db e) = pre @ p # rest \<and> distinct (pre @ p # rest)
          \<and> e \<noteq> EXPIRER_TCP_TRANS
          \<and> (\<forall>q \<in> set (pre @ [p]).
                \<not> time_before now (update_time (heap db q) + get_timeout K e db)) \<longrightarrow>
          (\<forall>t. (p \<in> set (tree6 (tables (cleaner_timer K now e db) t)))
                = (p \<in> set (tree6 (tables db t))))
          \<and> (\<forall>t. (p \<in> set (tree4 (tables (cleaner_timer K now e db) t)))
                = (p \<in> set (tree4 (tables db t))))
          \<and> state (heap (cleaner_timer K now e db) p) = TRANS
          \<and> update_time (heap (cleaner_timer K now e db) p) = now
          \<and> p \<in> set (sessions (expirers (cleaner_timer K now e db) EXPIRER_TCP_TRANS))
          \<and> p \<notin> set (sessions (expirers (cleaner_timer K now e db) e))
          \<and> (alloc_skb_ok K \<and> route_ipv6_ok K \<and> ip6_local_out_ok K \<longrightarrow>
               PROBE (probe_of K (heap db p)) \<in> set (outbox (cleaner_timer K now e db)))"
  proof (intro impI, elim conjE)
    assume l: "sessions (expirers db e) = pre @ p # rest" and d: "distinct (pre @ p # rest)"
      and ne: "e \<noteq> EXPIRER_TCP_TRANS"
      and x: "\<forall>q \<in> set (pre @ [p]).
                \<not> time_before now (update_time (heap db q) + get_timeout K e db)"
    from x have x': "\<forall>q \<in> set (pre @ [p]). expired now (get_timeout K e db) (heap db q)"
      by (simp add: expired_def)
    note k = cleaner_timer_keeps_established [OF l d ne x' e]
    show "(\<forall>t. (p \<in> set (tree6 (tables (cleaner_timer K now e db) t)))
                = (p \<in> set (tree6 (tables db t))))
          \<and> (\<forall>t. (p \<in> set (tree4 (tables (cleaner_timer K now e db) t)))
                = (p \<in> set (tree4 (tables db t))))
          \<and> state (heap (cleaner_timer K now e db) p) = TRANS
          \<and> update_time (heap (cleaner_timer K now e db) p) = now
          \<and> p \<in> set (sessions (expirers (cleaner_timer K now e db) EXPIRER_TCP_TRANS))
          \<and> p \<notin> set (sessions (expirers (cleaner_timer K now e db) e))
          \<and> (alloc_skb_ok K \<and> route_ipv6_ok K \<and> ip6_local_out_ok K \<longrightarrow>
               PROBE (probe_of K (heap db p)) \<in> set (outbox (cleaner_timer K now e db)))"
      using k by (simp add: kernel_sends_def)
  qed
  have f: "ack (th (probe_of K (heap db p)))
     \<and> seq (th (probe_of K (heap db p))) = 0
     \<and> ack_seq (th (probe_of K (heap db p))) = 0
     \<and> window (th (probe_of K (heap db p))) = 8192
     \<and> \<not> syn (th (probe_of K (heap db p))) \<and> \<not> fin (th (probe_of K (heap db p)))
     \<and> \<not> rst (th (probe_of K (heap db p)))
     \<and> skb_len (probe_of K (heap db p)) = 40 + 4 * doff (th (probe_of K (heap db p)))
     \<and> unat (payload_len (iph (probe_of K (heap db p))))
         = 4 * doff (th (probe_of K (heap db p)))
     \<and> saddr (iph (probe_of K (heap db p))) = l3 (local (ipv6 (heap db p)))
     \<and> source (th (probe_of K (heap db p))) = l4 (local (ipv6 (heap db p)))
     \<and> daddr (iph (probe_of K (heap db p))) = l3 (remote (ipv6 (heap db p)))
     \<and> dest (th (probe_of K (heap db p))) = l4 (remote (ipv6 (heap db p)))"
    by (simp add: probe_of_fields)
  have g: "version (iph (probe_of K (heap db p))) = 6
     \<and> nexthdr (iph (probe_of K (heap db p))) = 6
     \<and> hop_limit (iph (probe_of K (heap db p))) = 255
     \<and> doff (th (probe_of K (heap db p))) = 5
     \<and> payload_len (iph (probe_of K (heap db p))) = 20
     \<and> skb_len (probe_of K (heap db p)) = 60
     \<and> \<not> psh (th (probe_of K (heap db p))) \<and> \<not> urg (th (probe_of K (heap db p)))"
    by (simp add: probe_of_fields)
  from c1 c2 c3a c3b c4 c5 c7 c6 f c6n g c8 show ?thesis by (intro conjI) blast+
qed

text \<open>An established session of the example kernel, handled 7200 seconds after its last
  packet; the same without a route; and two established sessions of which the first has
  expired.\<close>

theorem session_expire_established_keeps_and_probes_witness:
  "session_l4_proto (heap (example_db_tcp ESTABLISHED EXPIRER_TCP_EST) 1) = L4PROTO_TCP
   \<and> state (heap (example_db_tcp ESTABLISHED EXPIRER_TCP_EST) 1) = ESTABLISHED
   \<and> \<not> fst (session_expire example_kernel 7200000 1 (example_db_tcp ESTABLISHED EXPIRER_TCP_EST))
   \<and> state (heap (snd (session_expire example_kernel 7200000 1
                        (example_db_tcp ESTABLISHED EXPIRER_TCP_EST))) 1) = TRANS
   \<and> sessions (expirers (snd (session_expire example_kernel 7200000 1
                        (example_db_tcp ESTABLISHED EXPIRER_TCP_EST))) EXPIRER_TCP_TRANS) = [1]
   \<and> tables (cleaner_timer example_kernel 7200000 EXPIRER_TCP_EST
               (example_db_tcp ESTABLISHED EXPIRER_TCP_EST)) SESSION_TABLE_TCP
       = \<lparr>tree6 = [1], tree4 = [1], count = 1\<rparr>
   \<and> outbox (snd (session_expire example_kernel 7200000 1
                   (example_db_tcp ESTABLISHED EXPIRER_TCP_EST)))
       = [PROBE (probe_of example_kernel (heap (example_db_tcp ESTABLISHED EXPIRER_TCP_EST) 1))]
   \<and> \<not> route_ipv6_ok example_kernel_no_route
   \<and> outbox (snd (session_expire example_kernel_no_route 7200000 1
                   (example_db_tcp ESTABLISHED EXPIRER_TCP_EST))) = []
   \<and> sessions (expirers example_db_tcp2 EXPIRER_TCP_EST) = [1, 2]
   \<and> session_l4_proto (heap example_db_tcp2 1) = L4PROTO_TCP
   \<and> state (heap example_db_tcp2 1) = ESTABLISHED
   \<and> \<not> time_before 7200000
         (update_time (heap example_db_tcp2 1)
          + get_timeout example_kernel EXPIRER_TCP_EST example_db_tcp2)
   \<and> 1 \<in> set (tree6 (tables (cleaner_timer example_kernel 7200000 EXPIRER_TCP_EST
                                  example_db_tcp2) SESSION_TABLE_TCP))
   \<and> 1 \<in> set (tree4 (tables (cleaner_timer example_kernel 7200000 EXPIRER_TCP_EST
                                  example_db_tcp2) SESSION_TABLE_TCP))
   \<and> state (heap (cleaner_timer example_kernel 7200000 EXPIRER_TCP_EST example_db_tcp2) 1)
       = TRANS
   \<and> 1 \<in> set (sessions (expirers (cleaner_timer example_kernel 7200000 EXPIRER_TCP_EST
                                      example_db_tcp2) EXPIRER_TCP_TRANS))
   \<and> 1 \<notin> set (sessions (expirers (cleaner_timer example_kernel 7200000 EXPIRER_TCP_EST
                                      example_db_tcp2) EXPIRER_TCP_EST))
   \<and> PROBE (probe_of example_kernel (heap example_db_tcp2 1))
       \<in> set (outbox (cleaner_timer example_kernel 7200000 EXPIRER_TCP_EST example_db_tcp2))"
proof -
  let ?D = "example_db_tcp ESTABLISHED EXPIRER_TCP_EST"
  have a: "session_l4_proto (heap ?D 1) = L4PROTO_TCP" and b: "state (heap ?D 1) = ESTABLISHED"
    by (simp_all add: example_db_tcp_facts example_entry_fields)
  have x: "\<not> time_before 7200000
             (update_time (heap ?D 1) + get_timeout example_kernel EXPIRER_TCP_EST ?D)"
    by (simp add: example_db_tcp_facts example_entry_fields example_timeouts time_before_def
        word_sless_alt)
  have k: "alloc_skb_ok example_kernel" "route_ipv6_ok example_kernel"
    "ip6_local_out_ok example_kernel"
    by (simp_all add: example_kernel_def)
  note T = session_expire_established_keeps_and_probes
    [where db = ?D and p = 1 and K = example_kernel and now = 7200000 and e = EXPIRER_TCP_EST
       and pre = "[]" and rest = "[]", OF a b]
  have c1: "\<not> fst (session_expire example_kernel 7200000 1 ?D)"
    using T by (rule conjunct1)
  have c2: "state (heap (snd (session_expire example_kernel 7200000 1 ?D)) 1) = TRANS"
    using T by (elim conjE)
  have c4: "sessions (expirers (snd (session_expire example_kernel 7200000 1 ?D))
              EXPIRER_TCP_TRANS) = [1]"
    using T by (elim conjE) (simp add: example_db_tcp_facts)
  have c8: "tables (cleaner_timer example_kernel 7200000 EXPIRER_TCP_EST ?D) SESSION_TABLE_TCP
       = \<lparr>tree6 = [1], tree4 = [1], count = 1\<rparr>"
    using T x by (elim conjE) (simp add: example_db_tcp_facts)
  have c9: "outbox (snd (session_expire example_kernel 7200000 1 ?D))
       = [PROBE (probe_of example_kernel (heap ?D 1))]"
    using T k by (elim conjE) (simp add: example_db_tcp_facts)
  have nr: "\<not> route_ipv6_ok example_kernel_no_route"
    by (rule example_kernel_no_route_facts)
  note N = session_expire_established_keeps_and_probes
    [where db = ?D and p = 1 and K = example_kernel_no_route and now = 7200000
       and e = EXPIRER_TCP_EST and pre = "[]" and rest = "[]", OF a b]
  have "\<not> (alloc_skb_ok example_kernel_no_route \<and> route_ipv6_ok example_kernel_no_route
            \<and> ip6_local_out_ok example_kernel_no_route) \<longrightarrow>
        outbox (snd (session_expire example_kernel_no_route 7200000 1 ?D)) = outbox ?D"
    using N by (elim conjE)
  then have c10: "outbox (snd (session_expire example_kernel_no_route 7200000 1 ?D)) = []"
    using nr by (simp add: example_db_tcp_facts)
  let ?E = "example_db_tcp2"
  have a2: "session_l4_proto (heap ?E 1) = L4PROTO_TCP" and b2: "state (heap ?E 1) = ESTABLISHED"
    by (simp_all add: example_db_tcp2_facts example_entry_fields)
  have l2: "sessions (expirers ?E EXPIRER_TCP_EST) = [] @ 1 # [2]"
    by (rule example_db_tcp2_facts)
  have l2': "sessions (expirers ?E EXPIRER_TCP_EST) = [1, 2]"
    using l2 by simp
  have x2: "\<not> time_before 7200000
             (update_time (heap ?E 1) + get_timeout example_kernel EXPIRER_TCP_EST ?E)"
    by (simp add: example_db_tcp2_facts example_entry_fields example_timeouts time_before_def
        word_sless_alt)
  have h2: "sessions (expirers ?E EXPIRER_TCP_EST) = [] @ 1 # [2]
          \<and> distinct ([] @ 1 # [2 :: session_ptr])
          \<and> EXPIRER_TCP_EST \<noteq> EXPIRER_TCP_TRANS
          \<and> (\<forall>q \<in> set ([] @ [1]).
                \<not> time_before 7200000
                    (update_time (heap ?E q) + get_timeout example_kernel EXPIRER_TCP_EST ?E))"
    using l2 x2 by simp
  note G = session_expire_established_keeps_and_probes
    [where db = ?E and p = 1 and K = example_kernel and now = 7200000 and e = EXPIRER_TCP_EST
       and pre = "[]" and rest = "[2]", OF a2 b2]
  have g: "sessions (expirers ?E EXPIRER_TCP_EST) = [] @ 1 # [2]
          \<and> distinct ([] @ 1 # [2 :: session_ptr])
          \<and> EXPIRER_TCP_EST \<noteq> EXPIRER_TCP_TRANS
          \<and> (\<forall>q \<in> set ([] @ [1]).
                \<not> time_before 7200000
                    (update_time (heap ?E q) + get_timeout example_kernel EXPIRER_TCP_EST ?E))
        \<longrightarrow>
          (\<forall>t. (1 \<in> set (tree6 (tables (cleaner_timer example_kernel 7200000 EXPIRER_TCP_EST ?E) t)))
                = (1 \<in> set (tree6 (tables ?E t))))
          \<and> (\<forall>t. (1 \<in> set (tree4 (tables (cleaner_timer example_kernel 7200000 EXPIRER_TCP_EST ?E) t)))
                = (1 \<in> set (tree4 (tables ?E t))))
          \<and> state (heap (cleaner_timer example_kernel 7200000 EXPIRER_TCP_EST ?E) 1) = TRANS
          \<and> update_time (heap (cleaner_timer example_kernel 7200000 EXPIRER_TCP_EST ?E) 1)
              = 7200000
          \<and> 1 \<in> set (sessions (expirers (cleaner_timer example_kernel 7200000 EXPIRER_TCP_EST ?E)
                                  EXPIRER_TCP_TRANS))
          \<and> 1 \<notin> set (sessions (expirers (cleaner_timer example_kernel 7200000 EXPIRER_TCP_EST ?E)
                                  EXPIRER_TCP_EST))
          \<and> (alloc_skb_ok example_kernel \<and> route_ipv6_ok example_kernel
               \<and> ip6_local_out_ok example_kernel \<longrightarrow>
               PROBE (probe_of example_kernel (heap ?E 1))
               \<in> set (outbox (cleaner_timer example_kernel 7200000 EXPIRER_TCP_EST ?E)))"
    using G by (elim conjE)
  note g' = g [rule_format, OF h2]
  have d1: "1 \<in> set (tree6 (tables (cleaner_timer example_kernel 7200000 EXPIRER_TCP_EST ?E)
                                  SESSION_TABLE_TCP))"
    using g' by (simp add: example_db_tcp2_facts)
  have d2: "1 \<in> set (tree4 (tables (cleaner_timer example_kernel 7200000 EXPIRER_TCP_EST ?E)
                                  SESSION_TABLE_TCP))"
    using g' by (simp add: example_db_tcp2_facts)
  have d3: "state (heap (cleaner_timer example_kernel 7200000 EXPIRER_TCP_EST ?E) 1) = TRANS"
    using g' by simp
  have d4: "1 \<in> set (sessions (expirers (cleaner_timer example_kernel 7200000 EXPIRER_TCP_EST ?E)
                                  EXPIRER_TCP_TRANS))"
    using g' by simp
  have d5: "1 \<notin> set (sessions (expirers (cleaner_timer example_kernel 7200000 EXPIRER_TCP_EST ?E)
                                  EXPIRER_TCP_EST))"
    using g' by simp
  have d6: "PROBE (probe_of example_kernel (heap ?E 1))
               \<in> set (outbox (cleaner_timer example_kernel 7200000 EXPIRER_TCP_EST ?E))"
    using g' k by simp
  from a b c1 c2 c4 c8 c9 nr c10 l2' a2 b2 x2 d1 d2 d3 d4 d5 d6 show ?thesis
    by (intro conjI)
qed
text \<open>
  The expiry of a TCP session in state \<open>V4_INIT\<close>, as far as \<^verbatim>\<open>session_db.c\<close> goes:
  \<open>session_expire\<close> sets the session to \<open>CLOSED\<close> and answers that it is to be destroyed,
  and leaves the tables, the lists and the packets sent as they were. The packet that was
  stored for the session and the ICMP error made of it belong to the packet store
  (\<^verbatim>\<open>mod/pkt_queue.h\<close>), whose code is not among the sources.
\<close>

lemma session_expire_v4_init:
  assumes "session_l4_proto (heap db p) = L4PROTO_TCP" and "state (heap db p) = V4_INIT"
  shows "fst (session_expire K now p db)"
    and "state (heap (snd (session_expire K now p db)) p) = CLOSED"
    and "tables (snd (session_expire K now p db)) = tables db"
    and "expirers (snd (session_expire K now p db)) = expirers db"
    and "outbox (snd (session_expire K now p db)) = outbox db"
  using assms by (simp_all add: session_expire_def set_state_def)

section \<open>Adding sessions: the claims\<close>

lemma memcmp_refl: "memcmp a a = 0"
  by (induction a) simp_all

lemma compare_full6_self: "compare_full6 s (ipv6 s) = 0"
  by (simp add: compare_full6_def ipv6_addr_cmp_def memcmp_refl)

lemma compare_full4_self: "compare_full4 s (ipv4 s) = 0"
  by (simp add: compare_full4_def compare_addrs4_def compare_local4_def ipv4_addr_cmp_def
      memcmp_refl Let_def)

lemma rbtree_find_None:
  "rbtree_find c m k root = None \<longleftrightarrow> (\<forall>q \<in> set root. c (m q) k \<noteq> 0)"
  by (auto simp: rbtree_find_def find_None_iff)

lemma rbtree_add_cases:
  "rbtree_add c m k e root =
     (if \<exists>q \<in> set root. c (m q) k = 0 then Inl EEXIST else Inr (rb_link c m k e root))"
  using rbtree_find_None [of c m k root]
  by (cases "rbtree_find c m k root") (auto simp: rbtree_add_def)

lemma set_rb_link: "set (rb_link c m k e xs) = insert e (set xs)"
  by (induction xs) auto

lemma removeAll_rb_link: "e \<notin> set xs \<Longrightarrow> removeAll e (rb_link c m k e xs) = xs"
  by (induction xs) auto

lemma table_tree6_triv: "(t :: session_table)\<lparr>tree6 := tree6 t\<rparr> = t"
  by simp

lemma db_tables_triv: "(db :: sessiondb)\<lparr>tables := tables db\<rparr> = db"
  by simp

lemma sessiondb_add_collision6:
  assumes "get_session_table (session_l4_proto (heap db p)) = Inr T"
    and "\<exists>q \<in> set (tree6 (tables db T)). compare_full6 (heap db q) (ipv6 (heap db p)) = 0"
  shows "sessiondb_add (Some p) db = (Some EEXIST, db)"
  using assms by (simp add: sessiondb_add_def rbtree_add_cases)

lemma sessiondb_add_collision4:
  assumes tb: "get_session_table (session_l4_proto (heap db p)) = Inr T"
    and n6: "\<not> (\<exists>q \<in> set (tree6 (tables db T)). compare_full6 (heap db q) (ipv6 (heap db p)) = 0)"
    and c4: "\<exists>q \<in> set (tree4 (tables db T)). compare_full4 (heap db q) (ipv4 (heap db p)) = 0"
  shows "sessiondb_add (Some p) db = (Some EEXIST, db)"
proof -
  have "p \<notin> set (tree6 (tables db T))"
    using n6 compare_full6_self [of "heap db p"] by blast
  then have "rb_erase p (rb_link compare_full6 (heap db) (ipv6 (heap db p)) p (tree6 (tables db T)))
             = tree6 (tables db T)"
    by (simp add: rb_erase_def removeAll_rb_link)
  then show ?thesis
    using tb n6 c4 by (simp add: sessiondb_add_def rbtree_add_cases)
qed

lemma sessiondb_add_ok:
  assumes tb: "get_session_table (session_l4_proto (heap db p)) = Inr T"
    and n6: "\<not> (\<exists>q \<in> set (tree6 (tables db T)). compare_full6 (heap db q) (ipv6 (heap db p)) = 0)"
    and n4: "\<not> (\<exists>q \<in> set (tree4 (tables db T)). compare_full4 (heap db q) (ipv4 (heap db p)) = 0)"
  shows "sessiondb_add (Some p) db =
           (None, db\<lparr>tables := (tables db)
              (T := \<lparr>tree6 = rb_link compare_full6 (heap db) (ipv6 (heap db p)) p (tree6 (tables db T)),
                     tree4 = rb_link compare_full4 (heap db) (ipv4 (heap db p)) p (tree4 (tables db T)),
                     count = count (tables db T) + 1\<rparr>)\<rparr>)"
  using assms by (simp add: sessiondb_add_def rbtree_add_cases)

lemma sessiondb_add_failure_unchanged:
  "fst (sessiondb_add arg db) \<noteq> None \<Longrightarrow> snd (sessiondb_add arg db) = db"
proof (cases arg)
  case None
  then show ?thesis by (simp add: sessiondb_add_def)
next
  case (Some p)
  assume f: "fst (sessiondb_add arg db) \<noteq> None"
  show ?thesis
  proof (cases "get_session_table (session_l4_proto (heap db p))")
    case (Inl e)
    then show ?thesis using Some by (simp add: sessiondb_add_def)
  next
    case (Inr T)
    consider
      (a) "\<exists>q \<in> set (tree6 (tables db T)). compare_full6 (heap db q) (ipv6 (heap db p)) = 0"
      | (b) "\<not> (\<exists>q \<in> set (tree6 (tables db T)). compare_full6 (heap db q) (ipv6 (heap db p)) = 0)"
          "\<exists>q \<in> set (tree4 (tables db T)). compare_full4 (heap db q) (ipv4 (heap db p)) = 0"
      | (c) "\<not> (\<exists>q \<in> set (tree6 (tables db T)). compare_full6 (heap db q) (ipv6 (heap db p)) = 0)"
          "\<not> (\<exists>q \<in> set (tree4 (tables db T)). compare_full4 (heap db q) (ipv4 (heap db p)) = 0)"
      by blast
    then show ?thesis
    proof cases
      case a
      then show ?thesis using Some sessiondb_add_collision6 [OF Inr] by simp
    next
      case b
      then show ?thesis using Some sessiondb_add_collision4 [OF Inr] by simp
    next
      case c
      then show ?thesis using Some f sessiondb_add_ok [OF Inr] by simp
    qed
  qed
qed

lemma example_db_collide_facts:
  "heap example_db_collide 1 = example_entry L4PROTO_UDP CLOSED 1001 0"
  "heap example_db_collide (Suc 0) = example_entry L4PROTO_UDP CLOSED 1001 0"
  "heap example_db_collide 2 = example_entry L4PROTO_UDP CLOSED 1002 299000"
  "heap example_db_collide 3 = (example_entry L4PROTO_UDP CLOSED 1003 0)
               \<lparr>ipv4 := ipv4 (example_entry L4PROTO_UDP CLOSED 1001 0)\<rparr>"
  "tables example_db_collide SESSION_TABLE_UDP = \<lparr>tree6 = [1, 2], tree4 = [1, 2], count = 2\<rparr>"
  by (simp_all add: example_db_collide_def example_db_udp_def empty_db_def)

lemma example_collide_compare:
  "compare_full6 (heap example_db_collide 1) (ipv6 (heap example_db_collide 3)) \<noteq> 0"
  "compare_full6 (heap example_db_collide 2) (ipv6 (heap example_db_collide 3)) \<noteq> 0"
  "compare_full4 (heap example_db_collide 1) (ipv4 (heap example_db_collide 3)) = 0"
  by (simp_all add: example_db_collide_facts example_entry_def compare_full6_def
      compare_full4_def compare_addrs4_def compare_local4_def ipv6_addr_cmp_def
      ipv4_addr_cmp_def Let_def)

text \<open>
  Claim C4. \<open>sessiondb_add\<close> puts a session into the tree by IPv6 addresses and into the tree
  by IPv4 addresses of the table of its protocol, or into neither. Whenever it answers an
  error the database is the one it was given. When an entry of the IPv6 tree or an entry of
  the IPv4 tree matches the key of the new session the answer is \<open>EEXIST\<close> and the database is
  unchanged (in the second case the node just linked into the IPv6 tree is erased again).
  When no entry matches, the session is in both trees, the count of the table is one more,
  and nothing else has changed.
\<close>

theorem sessiondb_add_atomic:
  "(fst (sessiondb_add arg db) \<noteq> None \<longrightarrow> snd (sessiondb_add arg db) = db)
   \<and> (get_session_table (session_l4_proto (heap db p)) = Inr T \<longrightarrow>
        ((\<exists>q \<in> set (tree6 (tables db T)). compare_full6 (heap db q) (ipv6 (heap db p)) = 0)
          \<or> (\<exists>q \<in> set (tree4 (tables db T)). compare_full4 (heap db q) (ipv4 (heap db p)) = 0)
         \<longrightarrow> sessiondb_add (Some p) db = (Some EEXIST, db))
        \<and> (\<not> (\<exists>q \<in> set (tree6 (tables db T)). compare_full6 (heap db q) (ipv6 (heap db p)) = 0)
           \<and> \<not> (\<exists>q \<in> set (tree4 (tables db T)). compare_full4 (heap db q) (ipv4 (heap db p)) = 0)
         \<longrightarrow> fst (sessiondb_add (Some p) db) = None
             \<and> set (tree6 (tables (snd (sessiondb_add (Some p) db)) T))
                 = insert p (set (tree6 (tables db T)))
             \<and> set (tree4 (tables (snd (sessiondb_add (Some p) db)) T))
                 = insert p (set (tree4 (tables db T)))
             \<and> count (tables (snd (sessiondb_add (Some p) db)) T) = count (tables db T) + 1
             \<and> (\<forall>T'. T' \<noteq> T \<longrightarrow> tables (snd (sessiondb_add (Some p) db)) T' = tables db T')
             \<and> heap (snd (sessiondb_add (Some p) db)) = heap db
             \<and> expirers (snd (sessiondb_add (Some p) db)) = expirers db))"
proof (intro conjI impI)
  assume "fst (sessiondb_add arg db) \<noteq> None"
  then show "snd (sessiondb_add arg db) = db" by (rule sessiondb_add_failure_unchanged)
next
  assume tb: "get_session_table (session_l4_proto (heap db p)) = Inr T"
    and c: "(\<exists>q \<in> set (tree6 (tables db T)). compare_full6 (heap db q) (ipv6 (heap db p)) = 0)
          \<or> (\<exists>q \<in> set (tree4 (tables db T)). compare_full4 (heap db q) (ipv4 (heap db p)) = 0)"
  show "sessiondb_add (Some p) db = (Some EEXIST, db)"
    using c sessiondb_add_collision6 [OF tb] sessiondb_add_collision4 [OF tb] by blast
next
  assume tb: "get_session_table (session_l4_proto (heap db p)) = Inr T"
    and n: "\<not> (\<exists>q \<in> set (tree6 (tables db T)). compare_full6 (heap db q) (ipv6 (heap db p)) = 0)
           \<and> \<not> (\<exists>q \<in> set (tree4 (tables db T)). compare_full4 (heap db q) (ipv4 (heap db p)) = 0)"
  note ok = sessiondb_add_ok [OF tb conjunct1 [OF n] conjunct2 [OF n]]
  show "fst (sessiondb_add (Some p) db) = None" by (simp add: ok)
  show "set (tree6 (tables (snd (sessiondb_add (Some p) db)) T)) = insert p (set (tree6 (tables db T)))"
    by (simp add: ok set_rb_link)
  show "set (tree4 (tables (snd (sessiondb_add (Some p) db)) T)) = insert p (set (tree4 (tables db T)))"
    by (simp add: ok set_rb_link)
  show "count (tables (snd (sessiondb_add (Some p) db)) T) = count (tables db T) + 1"
    by (simp add: ok)
  show "\<forall>T'. T' \<noteq> T \<longrightarrow> tables (snd (sessiondb_add (Some p) db)) T' = tables db T'"
    by (simp add: ok)
  show "heap (snd (sessiondb_add (Some p) db)) = heap db" by (simp add: ok)
  show "expirers (snd (sessiondb_add (Some p) db)) = expirers db" by (simp add: ok)
qed

text \<open>A session whose IPv6 pair is new and whose IPv4 pair is in the table already: the
  insertion into the IPv6 tree is undone.\<close>

theorem sessiondb_add_atomic_witness:
  "get_session_table (session_l4_proto (heap example_db_collide 3)) = Inr SESSION_TABLE_UDP
   \<and> tree6 (tables example_db_collide SESSION_TABLE_UDP) = [1, 2]
   \<and> tree4 (tables example_db_collide SESSION_TABLE_UDP) = [1, 2]
   \<and> compare_full6 (heap example_db_collide 1) (ipv6 (heap example_db_collide 3)) \<noteq> 0
   \<and> compare_full6 (heap example_db_collide 2) (ipv6 (heap example_db_collide 3)) \<noteq> 0
   \<and> compare_full4 (heap example_db_collide 1) (ipv4 (heap example_db_collide 3)) = 0
   \<and> sessiondb_add (Some 3) example_db_collide = (Some EEXIST, example_db_collide)"
proof -
  have tb: "get_session_table (session_l4_proto (heap example_db_collide 3))
              = Inr SESSION_TABLE_UDP"
    by (simp add: example_db_collide_facts example_entry_def get_session_table_def)
  have t: "tree6 (tables example_db_collide SESSION_TABLE_UDP) = [1, 2]"
    "tree4 (tables example_db_collide SESSION_TABLE_UDP) = [1, 2]"
    by (simp_all add: example_db_collide_facts)
  have c: "\<exists>q \<in> set (tree4 (tables example_db_collide SESSION_TABLE_UDP)).
             compare_full4 (heap example_db_collide q) (ipv4 (heap example_db_collide 3)) = 0"
    unfolding t using example_collide_compare(3) by simp
  from sessiondb_add_atomic [of "Some 3" example_db_collide 3 SESSION_TABLE_UDP]
  have "sessiondb_add (Some 3) example_db_collide = (Some EEXIST, example_db_collide)"
    using tb c by blast
  with tb t example_collide_compare show ?thesis by (intro conjI)
qed









section \<open>Bulk removal: the claims\<close>

lemma filter_removeAll: "filter P (removeAll q xs) = filter (\<lambda>p. p \<noteq> q \<and> P p) xs"
  by (induction xs) auto

lemma tree_of_remove_sessions:
  "tree_of h (tables (remove_sessions ps T db) T) =
     filter (\<lambda>p. p \<notin> set ps) (tree_of h (tables db T))"
  by (induction ps arbitrary: db) (simp_all add: tree_of_remove_session filter_removeAll)

lemma remove_session_other:
  "T' \<noteq> T \<Longrightarrow> tables (remove_session p T db) T' = tables db T'"
  by (simp add: remove_session_def list_del_def)

lemma remove_sessions_other:
  "T' \<noteq> T \<Longrightarrow> tables (remove_sessions ps T db) T' = tables db T'"
  by (induction ps arbitrary: db) (simp_all add: remove_session_other)

lemma count_remove_sessions:
  "count (tables (remove_sessions ps T db) T') = count (tables db T')"
  by (induction ps arbitrary: db) (simp_all add: tables_remove_session)

lemma takeWhile_neq: "q \<notin> set pre \<Longrightarrow> takeWhile (\<lambda>p. p \<noteq> q) (pre @ q # post) = pre"
  by (induction pre) auto

lemma dropWhile_neq:
  "q \<notin> set pre \<Longrightarrow> dropWhile (\<lambda>p. p \<noteq> q) (pre @ q # post) = q # post"
  by (induction pre) auto

lemma rb_prev_split:
  assumes "q \<notin> set pre"
  shows "rb_prev q (pre @ q # post) = (if pre = [] then None else Some (last pre))"
proof -
  have "rb_prevs q (pre @ q # post) = rev pre"
    unfolding rb_prevs_def using takeWhile_neq [OF assms, of post] by simp
  then show ?thesis
    by (cases pre rule: rev_cases) (simp_all add: rb_prev_def)
qed

lemma rb_next_split:
  "q \<notin> set pre \<Longrightarrow>
     rb_next q (pre @ q # post) = (if post = [] then None else Some (hd post))"
  by (cases post) (simp_all add: rb_next_def rb_nexts_def dropWhile_neq)

lemma delete_along_left:
  assumes "distinct (pre @ q # post)" and "tree_of h (tables db T) = pre @ q # post"
  shows "delete_along LEFT h (\<lambda>session. True) (Some q) T db s =
           (remove_sessions (q # rev pre) T db, s + length pre + 1)"
  using assms
proof (induction pre arbitrary: db s q post rule: rev_induct)
  case Nil
  then have "rb_step LEFT q (tree_of h (tables db T)) = None"
    using rb_prev_split [of q "[]" post] by (simp add: rb_step_def)
  then show ?case by (simp add: delete_along.simps)
next
  case (snoc q' pre')
  have "q \<notin> set (pre' @ [q'])" using snoc.prems by auto
  then have "rb_prev q ((pre' @ [q']) @ q # post) =
               (if pre' @ [q'] = [] then None else Some (last (pre' @ [q'])))"
    by (rule rb_prev_split)
  then have st: "rb_step LEFT q (tree_of h (tables db T)) = Some q'"
    using snoc.prems by (simp add: rb_step_def)
  have tr: "tree_of h (tables (remove_session q T db) T) = pre' @ q' # post"
    using snoc.prems by (simp add: tree_of_remove_session)
  have d: "distinct (pre' @ q' # post)" using snoc.prems by simp
  have "delete_along LEFT h (\<lambda>session. True) (Some q) T db s =
          delete_along LEFT h (\<lambda>session. True) (Some q') T (remove_session q T db) (s + 1)"
    by (subst delete_along.simps) (simp add: st)
  then show ?case
    by (simp add: snoc.IH [OF d tr])
qed

lemma delete_along_right:
  assumes "distinct (pre @ q # post)" and "tree_of h (tables db T) = pre @ q # post"
  shows "delete_along RIGHT h (\<lambda>session. True) (Some q) T db s =
           (remove_sessions (q # post) T db, s + length post + 1)"
  using assms
proof (induction post arbitrary: db s q)
  case Nil
  then have "rb_step RIGHT q (tree_of h (tables db T)) = None"
    by (simp add: rb_step_def rb_next_split)
  then show ?case by (simp add: delete_along.simps)
next
  case (Cons q' post')
  have st: "rb_step RIGHT q (tree_of h (tables db T)) = Some q'"
    using Cons.prems by (simp add: rb_step_def rb_next_split)
  have tr: "tree_of h (tables (remove_session q T db) T) = pre @ q' # post'"
    using Cons.prems by (simp add: tree_of_remove_session)
  have d: "distinct (pre @ q' # post')" using Cons.prems by simp
  have "delete_along RIGHT h (\<lambda>session. True) (Some q) T db s =
          delete_along RIGHT h (\<lambda>session. True) (Some q') T (remove_session q T db) (s + 1)"
    by (subst delete_along.simps) (simp add: st)
  then show ?case
    by (simp add: Cons.IH [OF d tr])
qed

lemma flush_left:
  assumes "distinct (pre @ r # post)" and "tree_of h (tables db T) = pre @ r # post"
  shows "delete_along LEFT h (\<lambda>session. True) (rb_prev r (pre @ r # post)) T db s =
           (remove_sessions (rev pre) T db, s + length pre)"
proof (cases pre rule: rev_cases)
  case Nil
  then show ?thesis
    using rb_prev_split [of r "[]" post] by (simp add: delete_along.simps)
next
  case (snoc ys y)
  have "r \<notin> set pre" using assms(1) by auto
  then have "rb_prev r (pre @ r # post) = (if pre = [] then None else Some (last pre))"
    by (rule rb_prev_split)
  then have "rb_prev r (pre @ r # post) = Some y"
    using snoc by simp
  moreover have "delete_along LEFT h (\<lambda>session. True) (Some y) T db s =
                   (remove_sessions (y # rev ys) T db, s + length ys + 1)"
    using assms snoc by (intro delete_along_left [where post = "r # post"]) simp_all
  ultimately show ?thesis using snoc by simp
qed

lemma flush_right:
  assumes "distinct (pre @ r # post)" and "tree_of h (tables db T) = pre @ r # post"
  shows "delete_along RIGHT h (\<lambda>session. True) (rb_next r (pre @ r # post)) T db s =
           (remove_sessions post T db, s + length post)"
proof (cases post)
  case Nil
  then show ?thesis
    using assms(1) by (simp add: rb_next_split delete_along.simps)
next
  case (Cons y ys)
  have "r \<notin> set pre" using assms(1) by auto
  then have "rb_next r (pre @ r # post) = (if post = [] then None else Some (hd post))"
    by (rule rb_next_split)
  then have "rb_next r (pre @ r # post) = Some y"
    using Cons by simp
  moreover have "delete_along RIGHT h (\<lambda>session. True) (Some y) T db s =
                   (remove_sessions (y # ys) T db, s + length ys + 1)"
    using assms Cons by (intro delete_along_right [where pre = "pre @ [r]"]) simp_all
  ultimately show ?thesis using Cons by simp
qed

lemma flush_aux_split:
  assumes d: "distinct (pre @ r # post)" and t: "tree4 (tables db T) = pre @ r # post"
    and n: "rb_node (pre @ r # post) = Some r"
  shows "flush_aux T db =
           (None, sub_count T (length pre + length post + 1)
                    (remove_session r T
                       (remove_sessions post T (remove_sessions (rev pre) T db))))"
proof -
  let ?db1 = "remove_sessions (rev pre) T db"
  have t': "tree_of TREE4_HOOK (tables db T) = pre @ r # post"
    by (simp add: tree_of_def t)
  have l: "delete_along LEFT TREE4_HOOK (\<lambda>session. True) (rb_prev r (pre @ r # post)) T db 0 =
             (?db1, length pre)"
    using flush_left [OF d t', of 0] by simp
  have "tree_of TREE4_HOOK (tables ?db1 T) = filter (\<lambda>p. p \<notin> set (rev pre)) (pre @ r # post)"
    by (simp only: tree_of_remove_sessions t')
  also have "\<dots> = [] @ r # post"
    using d by (auto simp: filter_empty_conv filter_id_conv)
  finally have t1: "tree_of TREE4_HOOK (tables ?db1 T) = [] @ r # post" .
  then have t1': "tree4 (tables ?db1 T) = r # post" by (simp add: tree_of_def)
  have d1: "distinct ([] @ r # post)" using d by simp
  have r: "delete_along RIGHT TREE4_HOOK (\<lambda>session. True) (rb_next r ([] @ r # post)) T ?db1
             (length pre) = (remove_sessions post T ?db1, length pre + length post)"
    by (rule flush_right [OF d1 t1])
  show ?thesis
    using l r by (simp add: flush_aux_def t n t1')
qed

lemma flush_aux_empty: "tree4 (tables db T) = [] \<Longrightarrow> flush_aux T db = (None, db)"
  by (simp add: flush_aux_def rb_node_def)

lemma rb_node_split:
  assumes "t \<noteq> []"
  shows "\<exists>pre r post. t = pre @ r # post \<and> rb_node (pre @ r # post) = Some r"
proof -
  let ?k = "length t div 2"
  have k: "?k < length t" using assms by (cases t) simp_all
  then have "t = take ?k t @ t ! ?k # drop (Suc ?k) t" by (rule id_take_nth_drop)
  moreover have "rb_node t = Some (t ! ?k)" using assms by (simp add: rb_node_def)
  ultimately show ?thesis by metis
qed

lemma trees_remove_sessions:
  "tree4 (tables (remove_sessions ps T db) T) = filter (\<lambda>p. p \<notin> set ps) (tree4 (tables db T))"
  "tree6 (tables (remove_sessions ps T db) T) = filter (\<lambda>p. p \<notin> set ps) (tree6 (tables db T))"
  using tree_of_remove_sessions [of TREE4_HOOK ps T db]
    tree_of_remove_sessions [of TREE6_HOOK ps T db]
  by (simp_all add: tree_of_def)

lemma flush_aux_tables:
  assumes d: "distinct (tree4 (tables db T))"
  shows "fst (flush_aux T db) = None"
    and "tree4 (tables (snd (flush_aux T db)) T') =
           (if T' = T then [] else tree4 (tables db T'))"
    and "tree6 (tables (snd (flush_aux T db)) T') =
           (if T' = T
            then filter (\<lambda>p. p \<notin> set (tree4 (tables db T))) (tree6 (tables db T))
            else tree6 (tables db T'))"
    and "count (tables (snd (flush_aux T db)) T') =
           (if T' = T then count (tables db T) - of_nat (length (tree4 (tables db T)))
            else count (tables db T'))"
proof -
  have "fst (flush_aux T db) = None
    \<and> tree4 (tables (snd (flush_aux T db)) T') =
           (if T' = T then [] else tree4 (tables db T'))
    \<and> tree6 (tables (snd (flush_aux T db)) T') =
           (if T' = T
            then filter (\<lambda>p. p \<notin> set (tree4 (tables db T))) (tree6 (tables db T))
            else tree6 (tables db T'))
    \<and> count (tables (snd (flush_aux T db)) T') =
           (if T' = T then count (tables db T) - of_nat (length (tree4 (tables db T)))
            else count (tables db T'))"
  proof (cases "tree4 (tables db T) = []")
    case True
    then show ?thesis by (simp add: flush_aux_empty)
  next
    case False
    then obtain pre r post where t: "tree4 (tables db T) = pre @ r # post"
      and n: "rb_node (pre @ r # post) = Some r"
      using rb_node_split by metis
    have dd: "distinct (pre @ r # post)" using d t by simp
    note f = flush_aux_split [OF dd t n]
    have a: "fst (flush_aux T db) = None" by (simp add: f)
    have b: "tree4 (tables (snd (flush_aux T db)) T') =
           (if T' = T then [] else tree4 (tables db T'))"
    proof (cases "T' = T")
      case True
      have "removeAll r (filter (\<lambda>p. p \<notin> set post)
              (filter (\<lambda>p. p \<notin> set (rev pre)) (pre @ r # post))) = []"
        by (auto simp: filter_empty_conv removeAll_filter_not_eq)
      then show ?thesis
        using True by (simp add: f tables_sub_count tables_remove_session trees_remove_sessions t)
    next
      case False
      then show ?thesis
        by (simp add: f tables_sub_count tables_remove_session remove_sessions_other)
    qed
    have c: "tree6 (tables (snd (flush_aux T db)) T') =
           (if T' = T
            then filter (\<lambda>p. p \<notin> set (tree4 (tables db T))) (tree6 (tables db T))
            else tree6 (tables db T'))"
    proof (cases "T' = T")
      case True
      have "removeAll r (filter (\<lambda>p. p \<notin> set post)
              (filter (\<lambda>p. p \<notin> set (rev pre)) xs)) =
            filter (\<lambda>p. p \<notin> set (pre @ r # post)) xs" for xs
        by (induction xs) auto
      then show ?thesis
        using True by (simp add: f tables_sub_count tables_remove_session trees_remove_sessions t)
    next
      case False
      then show ?thesis
        by (simp add: f tables_sub_count tables_remove_session remove_sessions_other)
    qed
    have e: "count (tables (snd (flush_aux T db)) T') =
           (if T' = T then count (tables db T) - of_nat (length (tree4 (tables db T)))
            else count (tables db T'))"
      by (simp add: f tables_sub_count tables_remove_session count_remove_sessions t)
    from a b c e show ?thesis by blast
  qed
  then show "fst (flush_aux T db) = None"
    and "tree4 (tables (snd (flush_aux T db)) T') =
           (if T' = T then [] else tree4 (tables db T'))"
    and "tree6 (tables (snd (flush_aux T db)) T') =
           (if T' = T
            then filter (\<lambda>p. p \<notin> set (tree4 (tables db T))) (tree6 (tables db T))
            else tree6 (tables db T'))"
    and "count (tables (snd (flush_aux T db)) T') =
           (if T' = T then count (tables db T) - of_nat (length (tree4 (tables db T)))
            else count (tables db T'))"
    by blast+
qed

lemma sessiondb_flush_tables:
  assumes d: "\<And>T. distinct (tree4 (tables db T))"
  shows "tree4 (tables (snd (sessiondb_flush db)) T) = []"
    and "tree6 (tables (snd (sessiondb_flush db)) T) =
           filter (\<lambda>p. p \<notin> set (tree4 (tables db T))) (tree6 (tables db T))"
    and "count (tables (snd (sessiondb_flush db)) T) =
           count (tables db T) - of_nat (length (tree4 (tables db T)))"
proof -
  let ?db1 = "snd (flush_aux SESSION_TABLE_UDP db)"
  let ?db2 = "snd (flush_aux SESSION_TABLE_TCP ?db1)"
  let ?db3 = "snd (flush_aux SESSION_TABLE_ICMP ?db2)"
  note f1 = flush_aux_tables [OF d [of SESSION_TABLE_UDP]]
  have d1: "distinct (tree4 (tables ?db1 SESSION_TABLE_TCP))" using d by (simp add: f1)
  note f2 = flush_aux_tables [OF d1]
  have d2: "distinct (tree4 (tables ?db2 SESSION_TABLE_ICMP))" using d by (simp add: f2 f1)
  note f3 = flush_aux_tables [OF d2]
  have r: "snd (sessiondb_flush db) = ?db3" by (simp add: sessiondb_flush_def Let_def)
  show "tree4 (tables (snd (sessiondb_flush db)) T) = []"
    unfolding r by (cases T) (simp_all add: f3 f2 f1)
  show "tree6 (tables (snd (sessiondb_flush db)) T) =
           filter (\<lambda>p. p \<notin> set (tree4 (tables db T))) (tree6 (tables db T))"
    unfolding r by (cases T) (simp_all add: f3 f2 f1)
  show "count (tables (snd (sessiondb_flush db)) T) =
           count (tables db T) - of_nat (length (tree4 (tables db T)))"
    unfolding r by (cases T) (simp_all add: f3 f2 f1)
qed

lemma rb_step_neq:
  assumes "distinct root" and "rb_step dir node root = Some q"
  shows "q \<noteq> node"
proof (cases dir)
  case LEFT
  then have "q \<in> set (rb_prevs node root)"
    using assms(2) by (auto simp: rb_step_def rb_prev_def split: list.splits)
  then show ?thesis by (auto simp: rb_prevs_def dest: set_takeWhileD)
next
  case RIGHT
  then have q: "q \<in> set (rb_nexts node root)"
    using assms(2) by (auto simp: rb_step_def rb_next_def split: list.splits)
  show ?thesis
  proof (cases "dropWhile (\<lambda>p. p \<noteq> node) root")
    case Nil
    show ?thesis using q unfolding rb_nexts_def Nil by simp
  next
    case (Cons a as)
    then have a: "a = node" using hd_dropWhile [of "\<lambda>p. p \<noteq> node" root] by auto
    have "distinct (dropWhile (\<lambda>p. p \<noteq> node) root)" using assms(1) by simp
    then have "node \<notin> set as" using Cons a by simp
    then show ?thesis using q unfolding rb_nexts_def Cons by auto
  qed
qed

lemma length_removeAll_distinct:
  "distinct xs \<Longrightarrow> q \<in> set xs \<Longrightarrow> Suc (length (removeAll q xs)) = length xs"
  by (induction xs) auto

lemma delete_beside_inv:
  assumes "distinct (tree4 (tables db T))" and "r \<in> set (tree4 (tables db T))"
  shows "distinct (tree4 (tables (fst (delete_beside dir c key r T db s)) T))
     \<and> r \<in> set (tree4 (tables (fst (delete_beside dir c key r T db s)) T))
     \<and> length (tree4 (tables (fst (delete_beside dir c key r T db s)) T))
         + snd (delete_beside dir c key r T db s)
         = length (tree4 (tables db T)) + s
     \<and> (\<forall>T'. count (tables (fst (delete_beside dir c key r T db s)) T') = count (tables db T'))
     \<and> (\<forall>T'. T' \<noteq> T \<longrightarrow> tables (fst (delete_beside dir c key r T db s)) T' = tables db T')"
  using assms
proof (induction dir c key r T db s rule: delete_beside.induct)
  case (1 dir c key r T db s)
  show ?case
  proof (cases "rb_step dir r (tree4 (tables db T))")
    case None
    then show ?thesis using "1.prems" by (subst (1 2 3 4 5 6) delete_beside.simps) simp
  next
    case (Some q)
    show ?thesis
    proof (cases "c (heap db q) key \<noteq> 0")
      case True
      then show ?thesis using Some "1.prems"
        by (subst (1 2 3 4 5 6) delete_beside.simps) simp
    next
      case False
      have qin: "q \<in> set (tree4 (tables db T))" using Some by (rule rb_step_in_tree)
      have qr: "q \<noteq> r" using "1.prems"(1) Some by (rule rb_step_neq)
      let ?db1 = "remove_session q T db"
      have t: "tree4 (tables ?db1 T) = removeAll q (tree4 (tables db T))"
        by (simp add: tables_remove_session)
      have d1: "distinct (tree4 (tables ?db1 T))" using "1.prems"(1) by (simp add: t distinct_removeAll)
      have r1: "r \<in> set (tree4 (tables ?db1 T))" using "1.prems"(2) qr by (simp add: t)
      have l1: "Suc (length (tree4 (tables ?db1 T))) = length (tree4 (tables db T))"
        using "1.prems"(1) qin by (simp add: t length_removeAll_distinct)
      note IH = "1.IH" [OF Some _ d1 r1]
      have e: "delete_beside dir c key r T db s = delete_beside dir c key r T ?db1 (s + 1)"
        using Some False by (subst delete_beside.simps) simp
      have o: "\<And>T'. T' \<noteq> T \<Longrightarrow> tables ?db1 T' = tables db T'"
        by (simp add: remove_session_def list_del_def)
      show ?thesis
        unfolding e using IH False l1 o by (simp add: tables_remove_session)
    qed
  qed
qed

lemma rbtree_find_in: "rbtree_find c m k root = Some r \<Longrightarrow> r \<in> set root"
  by (auto simp: rbtree_find_def find_Some_iff)

lemma beside_result_tables:
  assumes d: "distinct (tree4 (tables db T))" and r: "r \<in> set (tree4 (tables db T))"
  shows "count (tables (beside_result c key r T db) T') =
           count (tables db T')
           - of_nat (length (tree4 (tables db T'))
                     - length (tree4 (tables (beside_result c key r T db) T')))"
    and "T' \<noteq> T \<Longrightarrow>
           tree4 (tables (beside_result c key r T db) T') = tree4 (tables db T')"
    and "distinct (tree4 (tables (beside_result c key r T db) T))"
    and "length (tree4 (tables (beside_result c key r T db) T'))
           \<le> length (tree4 (tables db T'))"
proof -
  let ?L = "delete_beside LEFT c key r T db 0"
  let ?R = "delete_beside RIGHT c key r T (fst ?L) (snd ?L)"
  note a = delete_beside_inv [OF d r, of LEFT c key 0]
  have d1: "distinct (tree4 (tables (fst ?L) T))" and r1: "r \<in> set (tree4 (tables (fst ?L) T))"
    using a by simp_all
  note b = delete_beside_inv [OF d1 r1, of RIGHT c key "snd ?L"]
  have e: "beside_result c key r T db = sub_count T (snd ?R + 1) (remove_session r T (fst ?R))"
    by (simp add: beside_result_def split_def Let_def)
  have len: "length (tree4 (tables (fst ?R) T)) + snd ?R = length (tree4 (tables db T))"
    using a b by simp
  have dr: "distinct (tree4 (tables (fst ?R) T))" and rr: "r \<in> set (tree4 (tables (fst ?R) T))"
    using b by simp_all
  have l2: "Suc (length (removeAll r (tree4 (tables (fst ?R) T)))) = length (tree4 (tables (fst ?R) T))"
    using dr rr by (rule length_removeAll_distinct)
  have cnt: "\<And>T'. count (tables (fst ?R) T') = count (tables db T')" using a b by simp
  have oth: "\<And>T'. T' \<noteq> T \<Longrightarrow> tables (fst ?R) T' = tables db T'" using a b by simp
  show "count (tables (beside_result c key r T db) T') =
           count (tables db T')
           - of_nat (length (tree4 (tables db T'))
                     - length (tree4 (tables (beside_result c key r T db) T')))"
  proof (cases "T' = T")
    case True
    have "length (tree4 (tables db T)) - length (removeAll r (tree4 (tables (fst ?R) T)))
            = snd ?R + 1"
      using len l2 by arith
    then show ?thesis
      using True by (simp add: e tables_sub_count tables_remove_session cnt)
  next
    case False
    then show ?thesis
      by (simp add: e tables_sub_count tables_remove_session cnt oth)
  qed
  show "tree4 (tables (beside_result c key r T db) T') = tree4 (tables db T')" if "T' \<noteq> T"
    using that by (simp add: e tables_sub_count tables_remove_session oth)
  show "distinct (tree4 (tables (beside_result c key r T db) T))"
    using dr by (simp add: e tables_sub_count tables_remove_session distinct_removeAll)
  show "length (tree4 (tables (beside_result c key r T db) T'))
          \<le> length (tree4 (tables db T'))"
  proof (cases "T' = T")
    case True
    then show ?thesis
      using len l2 by (simp add: e tables_sub_count tables_remove_session)
  next
    case False
    then show ?thesis
      by (simp add: e tables_sub_count tables_remove_session oth)
  qed
qed

lemma delete_sessions_by_ipv4_tables:
  assumes d: "distinct (tree4 (tables db T))"
  shows "count (tables (snd (delete_sessions_by_ipv4 T addr db)) T') =
           count (tables db T')
           - of_nat (length (tree4 (tables db T'))
                     - length (tree4 (tables (snd (delete_sessions_by_ipv4 T addr db)) T')))"
    and "T' \<noteq> T \<Longrightarrow>
           tree4 (tables (snd (delete_sessions_by_ipv4 T addr db)) T') = tree4 (tables db T')"
    and "distinct (tree4 (tables (snd (delete_sessions_by_ipv4 T addr db)) T))"
    and "length (tree4 (tables (snd (delete_sessions_by_ipv4 T addr db)) T')) \<le> length (tree4 (tables db T'))"
proof -
  have "count (tables (snd (delete_sessions_by_ipv4 T addr db)) T') =
           count (tables db T')
           - of_nat (length (tree4 (tables db T'))
                     - length (tree4 (tables (snd (delete_sessions_by_ipv4 T addr db)) T')))
     \<and> (T' \<noteq> T \<longrightarrow>
           tree4 (tables (snd (delete_sessions_by_ipv4 T addr db)) T') = tree4 (tables db T'))
     \<and> distinct (tree4 (tables (snd (delete_sessions_by_ipv4 T addr db)) T))
     \<and> length (tree4 (tables (snd (delete_sessions_by_ipv4 T addr db)) T'))
           \<le> length (tree4 (tables db T'))"
  proof (cases "rbtree_find compare_local_addr4 (heap db) addr (tree4 (tables db T))")
    case None
    then show ?thesis using d by (simp add: delete_sessions_by_ipv4_def)
  next
    case (Some r)
    then have r: "r \<in> set (tree4 (tables db T))" by (rule rbtree_find_in)
    have e: "snd (delete_sessions_by_ipv4 T addr db) = beside_result compare_local_addr4 addr r T db"
      using Some by (simp add: delete_sessions_by_ipv4_def beside_result_def split_def Let_def)
    show ?thesis
      unfolding e
      using beside_result_tables [OF d r, where c = compare_local_addr4 and key = addr]
      by blast
  qed
  then show "count (tables (snd (delete_sessions_by_ipv4 T addr db)) T') =
           count (tables db T')
           - of_nat (length (tree4 (tables db T'))
                     - length (tree4 (tables (snd (delete_sessions_by_ipv4 T addr db)) T')))"
    and "T' \<noteq> T \<Longrightarrow>
           tree4 (tables (snd (delete_sessions_by_ipv4 T addr db)) T') = tree4 (tables db T')"
    and "distinct (tree4 (tables (snd (delete_sessions_by_ipv4 T addr db)) T))"
    and "length (tree4 (tables (snd (delete_sessions_by_ipv4 T addr db)) T'))
           \<le> length (tree4 (tables db T'))"
    by blast+
qed

lemma sessiondb_delete_by_ipv4_count:
  assumes d: "\<And>T. distinct (tree4 (tables db T))"
  shows "count (tables (snd (sessiondb_delete_by_ipv4 (Some addr) db)) T) =
           count (tables db T)
           - of_nat (length (tree4 (tables db T))
                     - length (tree4 (tables (snd (sessiondb_delete_by_ipv4 (Some addr) db)) T)))"
proof -
  let ?db1 = "snd (delete_sessions_by_ipv4 SESSION_TABLE_TCP addr db)"
  let ?db2 = "snd (delete_sessions_by_ipv4 SESSION_TABLE_ICMP addr ?db1)"
  let ?db3 = "snd (delete_sessions_by_ipv4 SESSION_TABLE_UDP addr ?db2)"
  note f1 = delete_sessions_by_ipv4_tables [OF d [of SESSION_TABLE_TCP], where addr = addr]
  have d1: "distinct (tree4 (tables ?db1 SESSION_TABLE_ICMP))" using d by (simp add: f1(2))
  note f2 = delete_sessions_by_ipv4_tables [OF d1, where addr = addr]
  have d2: "distinct (tree4 (tables ?db2 SESSION_TABLE_UDP))" using d by (simp add: f2(2) f1(2))
  note f3 = delete_sessions_by_ipv4_tables [OF d2, where addr = addr]
  have r: "snd (sessiondb_delete_by_ipv4 (Some addr) db) = ?db3"
    by (simp add: sessiondb_delete_by_ipv4_def Let_def)
  have "count (tables ?db3 T) =
           count (tables db T)
           - of_nat (length (tree4 (tables db T)) - length (tree4 (tables ?db3 T)))"
  proof (cases T)
    case SESSION_TABLE_UDP
    have "tree4 (tables ?db2 T) = tree4 (tables db T)" "count (tables ?db2 T) = count (tables db T)"
      using SESSION_TABLE_UDP f1(1) [of T] f2(1) [of T] by (simp_all add: f1(2) f2(2))
    then show ?thesis using f3(1) [of T] by simp
  next
    case SESSION_TABLE_TCP
    have a: "tree4 (tables ?db3 T) = tree4 (tables ?db1 T)"
      using SESSION_TABLE_TCP by (simp add: f3(2) f2(2))
    have "count (tables ?db3 T) = count (tables ?db2 T)"
      using SESSION_TABLE_TCP f3(1) [of T] by (simp add: f3(2))
    moreover have "count (tables ?db2 T) = count (tables ?db1 T)"
      using SESSION_TABLE_TCP f2(1) [of T] by (simp add: f2(2))
    ultimately show ?thesis using f1(1) [of T] a by simp
  next
    case SESSION_TABLE_ICMP
    have a: "tree4 (tables ?db3 T) = tree4 (tables ?db2 T)"
      "tree4 (tables ?db1 T) = tree4 (tables db T)"
      using SESSION_TABLE_ICMP by (simp_all add: f3(2) f1(2))
    have "count (tables ?db3 T) = count (tables ?db2 T)"
      using SESSION_TABLE_ICMP f3(1) [of T] by (simp add: f3(2))
    moreover have "count (tables ?db1 T) = count (tables db T)"
      using SESSION_TABLE_ICMP f1(1) [of T] by (simp add: f1(2))
    ultimately show ?thesis using f2(1) [of T] a by simp
  qed
  then show ?thesis by (simp only: r)
qed

lemma sessiondb_delete_by_bib_count:
  assumes d: "\<And>T. distinct (tree4 (tables db T))"
  shows "count (tables (snd (sessiondb_delete_by_bib b db)) T) =
           count (tables db T)
           - of_nat (length (tree4 (tables db T))
                     - length (tree4 (tables (snd (sessiondb_delete_by_bib b db)) T)))
         \<and> length (tree4 (tables (snd (sessiondb_delete_by_bib b db)) T))
             \<le> length (tree4 (tables db T))"
proof (cases "get_session_table (bib_l4_proto (bibs db b))")
  case (Inl e)
  then show ?thesis by (simp add: sessiondb_delete_by_bib_def)
next
  case (Inr T0)
  show ?thesis
  proof (cases "rbtree_find compare_local4 (heap db) (bib_ipv4 (bibs db b))
                  (tree4 (tables db T0))")
    case None
    then show ?thesis using Inr by (simp add: sessiondb_delete_by_bib_def)
  next
    case (Some r)
    then have r: "r \<in> set (tree4 (tables db T0))" by (rule rbtree_find_in)
    have e: "snd (sessiondb_delete_by_bib b db) =
               beside_result compare_local4 (bib_ipv4 (bibs db b)) r T0 db"
      using Inr Some
      by (simp add: sessiondb_delete_by_bib_def beside_result_def split_def Let_def)
    show ?thesis
      unfolding e
      using beside_result_tables(1,4) [OF d r, of compare_local4 "bib_ipv4 (bibs db b)" T]
      by blast
  qed
qed

lemma heap_remove_sessions [simp]: "heap (remove_sessions ps T db) = heap db"
  by (induction ps arbitrary: db) simp_all

lemma delete_along_left_while:
  assumes "distinct (pre @ q # post)" and "tree_of h (tables db T) = pre @ q # post"
  shows "delete_along LEFT h m (Some q) T db s =
           (remove_sessions (takeWhile (\<lambda>p. m (heap db p)) (q # rev pre)) T db,
            s + length (takeWhile (\<lambda>p. m (heap db p)) (q # rev pre)))"
  using assms
proof (induction pre arbitrary: db s q post rule: rev_induct)
  case Nil
  then have "rb_step LEFT q (tree_of h (tables db T)) = None"
    using rb_prev_split [of q "[]" post] by (simp add: rb_step_def)
  then show ?case by (simp add: delete_along.simps)
next
  case (snoc q' pre')
  show ?case
  proof (cases "m (heap db q)")
    case False
    then show ?thesis by (simp add: delete_along.simps)
  next
    case True
    have "q \<notin> set (pre' @ [q'])" using snoc.prems by auto
    then have "rb_prev q ((pre' @ [q']) @ q # post) =
                 (if pre' @ [q'] = [] then None else Some (last (pre' @ [q'])))"
      by (rule rb_prev_split)
    then have st: "rb_step LEFT q (tree_of h (tables db T)) = Some q'"
      using snoc.prems by (simp add: rb_step_def)
    have tr: "tree_of h (tables (remove_session q T db) T) = pre' @ q' # post"
      using snoc.prems by (simp add: tree_of_remove_session)
    have d: "distinct (pre' @ q' # post)" using snoc.prems by simp
    have "delete_along LEFT h m (Some q) T db s =
            delete_along LEFT h m (Some q') T (remove_session q T db) (s + 1)"
      using True by (subst delete_along.simps) (simp add: st)
    then show ?thesis
      using True by (simp add: snoc.IH [OF d tr])
  qed
qed

lemma delete_along_right_while:
  assumes "distinct (pre @ q # post)" and "tree_of h (tables db T) = pre @ q # post"
  shows "delete_along RIGHT h m (Some q) T db s =
           (remove_sessions (takeWhile (\<lambda>p. m (heap db p)) (q # post)) T db,
            s + length (takeWhile (\<lambda>p. m (heap db p)) (q # post)))"
  using assms
proof (induction post arbitrary: db s q)
  case Nil
  then have "rb_step RIGHT q (tree_of h (tables db T)) = None"
    by (simp add: rb_step_def rb_next_split)
  then show ?case by (simp add: delete_along.simps)
next
  case (Cons q' post')
  show ?case
  proof (cases "m (heap db q)")
    case False
    then show ?thesis by (simp add: delete_along.simps)
  next
    case True
    have st: "rb_step RIGHT q (tree_of h (tables db T)) = Some q'"
      using Cons.prems by (simp add: rb_step_def rb_next_split)
    have tr: "tree_of h (tables (remove_session q T db) T) = pre @ q' # post'"
      using Cons.prems by (simp add: tree_of_remove_session)
    have d: "distinct (pre @ q' # post')" using Cons.prems by simp
    have "delete_along RIGHT h m (Some q) T db s =
            delete_along RIGHT h m (Some q') T (remove_session q T db) (s + 1)"
      using True by (subst delete_along.simps) (simp add: st)
    then show ?thesis
      using True by (simp add: Cons.IH [OF d tr])
  qed
qed

lemma walk_left_while:
  assumes "distinct (pre @ r # post)" and "tree_of h (tables db T) = pre @ r # post"
  shows "delete_along LEFT h m (rb_prev r (pre @ r # post)) T db s =
           (remove_sessions (takeWhile (\<lambda>p. m (heap db p)) (rev pre)) T db,
            s + length (takeWhile (\<lambda>p. m (heap db p)) (rev pre)))"
proof (cases pre rule: rev_cases)
  case Nil
  then show ?thesis
    using rb_prev_split [of r "[]" post] by (simp add: delete_along.simps)
next
  case (snoc ys y)
  have "r \<notin> set pre" using assms(1) by auto
  then have "rb_prev r (pre @ r # post) = (if pre = [] then None else Some (last pre))"
    by (rule rb_prev_split)
  then have "rb_prev r (pre @ r # post) = Some y"
    using snoc by simp
  moreover have "delete_along LEFT h m (Some y) T db s =
           (remove_sessions (takeWhile (\<lambda>p. m (heap db p)) (y # rev ys)) T db,
            s + length (takeWhile (\<lambda>p. m (heap db p)) (y # rev ys)))"
    using assms snoc by (intro delete_along_left_while [where post = "r # post"]) simp_all
  ultimately show ?thesis using snoc by simp
qed

lemma walk_right_while:
  assumes "distinct (pre @ r # post)" and "tree_of h (tables db T) = pre @ r # post"
  shows "delete_along RIGHT h m (rb_next r (pre @ r # post)) T db s =
           (remove_sessions (takeWhile (\<lambda>p. m (heap db p)) post) T db,
            s + length (takeWhile (\<lambda>p. m (heap db p)) post))"
proof (cases post)
  case Nil
  then show ?thesis
    using assms(1) by (simp add: rb_next_split delete_along.simps)
next
  case (Cons y ys)
  have "r \<notin> set pre" using assms(1) by auto
  then have "rb_next r (pre @ r # post) = (if post = [] then None else Some (hd post))"
    by (rule rb_next_split)
  then have "rb_next r (pre @ r # post) = Some y"
    using Cons by simp
  moreover have "delete_along RIGHT h m (Some y) T db s =
           (remove_sessions (takeWhile (\<lambda>p. m (heap db p)) (y # ys)) T db,
            s + length (takeWhile (\<lambda>p. m (heap db p)) (y # ys)))"
    using assms Cons by (intro delete_along_right_while [where pre = "pre @ [r]"]) simp_all
  ultimately show ?thesis using Cons by simp
qed

lemma length_filter_out:
  "distinct xs \<Longrightarrow> distinct ys \<Longrightarrow> set ys \<subseteq> set xs \<Longrightarrow>
     length (filter (\<lambda>p. p \<notin> set ys) xs) + length ys = length xs"
proof (induction ys arbitrary: xs)
  case Nil
  show ?case by simp
next
  case (Cons y ys)
  have y: "y \<in> set xs" "y \<notin> set ys" using Cons.prems by auto
  have d: "distinct (filter (\<lambda>p. p \<notin> set ys) xs)" using Cons.prems(1) by simp
  have m: "y \<in> set (filter (\<lambda>p. p \<notin> set ys) xs)" using y by simp
  have "filter (\<lambda>p. p \<notin> set (y # ys)) xs = removeAll y (filter (\<lambda>p. p \<notin> set ys) xs)"
    by (induction xs) auto
  then have "Suc (length (filter (\<lambda>p. p \<notin> set (y # ys)) xs)) =
               length (filter (\<lambda>p. p \<notin> set ys) xs)"
    using length_removeAll_distinct [OF d m] by simp
  moreover have "length (filter (\<lambda>p. p \<notin> set ys) xs) + length ys = length xs"
    using Cons.prems by (intro Cons.IH) auto
  ultimately show ?case by simp
qed

lemma delete_sessions_by_ipv6_prefix_tables:
  assumes d: "distinct (tree6 (tables db T))"
  shows "count (tables (snd (delete_sessions_by_ipv6_prefix T prefix db)) T') =
           count (tables db T')
           - of_nat (length (tree6 (tables db T'))
                     - length (tree6 (tables (snd (delete_sessions_by_ipv6_prefix T prefix db)) T')))"
    and "T' \<noteq> T \<Longrightarrow>
           tree6 (tables (snd (delete_sessions_by_ipv6_prefix T prefix db)) T') = tree6 (tables db T')"
    and "distinct (tree6 (tables (snd (delete_sessions_by_ipv6_prefix T prefix db)) T))"
    and "length (tree6 (tables (snd (delete_sessions_by_ipv6_prefix T prefix db)) T')) \<le> length (tree6 (tables db T'))"
proof -
  let ?res = "snd (delete_sessions_by_ipv6_prefix T prefix db)"
  have "count (tables ?res T') =
           count (tables db T')
           - of_nat (length (tree6 (tables db T')) - length (tree6 (tables ?res T')))
     \<and> (T' \<noteq> T \<longrightarrow> tree6 (tables ?res T') = tree6 (tables db T'))
     \<and> distinct (tree6 (tables ?res T))
     \<and> length (tree6 (tables ?res T')) \<le> length (tree6 (tables db T'))"
  proof (cases "rbtree_find compare_local_prefix6 (heap db) prefix (tree6 (tables db T))")
    case None
    then show ?thesis using d by (simp add: delete_sessions_by_ipv6_prefix_def)
  next
    case (Some r)
    then have "r \<in> set (tree6 (tables db T))" by (rule rbtree_find_in)
    then obtain pre post where t: "tree6 (tables db T) = pre @ r # post"
      by (auto dest: split_list)
    let ?m = "\<lambda>session. sessiondb_ipv6_prefix_equal session prefix"
    let ?runL = "takeWhile (\<lambda>p. ?m (heap db p)) (rev pre)"
    let ?runR = "takeWhile (\<lambda>p. ?m (heap db p)) post"
    let ?db1 = "remove_sessions ?runL T db"
    let ?db2 = "remove_sessions ?runR T ?db1"
    let ?pre1 = "filter (\<lambda>p. p \<notin> set ?runL) pre"
    have dd: "distinct (pre @ r # post)" using d t by simp
    have t': "tree_of TREE6_HOOK (tables db T) = pre @ r # post" by (simp add: tree_of_def t)
    have sL: "set ?runL \<subseteq> set pre" using set_takeWhileD by fastforce
    have sR: "set ?runR \<subseteq> set post" using set_takeWhileD by fastforce
    have l: "delete_along LEFT TREE6_HOOK ?m (rb_prev r (tree6 (tables db T))) T db 0 =
               (?db1, length ?runL)"
      unfolding t using walk_left_while [OF dd t', of ?m 0] by simp
    have "tree6 (tables ?db1 T) = filter (\<lambda>p. p \<notin> set ?runL) (pre @ r # post)"
      by (simp add: trees_remove_sessions t)
    also have "\<dots> = ?pre1 @ r # post"
    proof -
      have "r \<notin> set ?runL" using sL dd by auto
      moreover have "filter (\<lambda>p. p \<notin> set ?runL) post = post"
        using sL dd by (subst filter_id_conv) auto
      ultimately show ?thesis by simp
    qed
    finally have t1: "tree6 (tables ?db1 T) = ?pre1 @ r # post" .
    have t1': "tree_of TREE6_HOOK (tables ?db1 T) = ?pre1 @ r # post"
      by (simp add: tree_of_def t1)
    have d1: "distinct (?pre1 @ r # post)" using dd by auto
    have r: "delete_along RIGHT TREE6_HOOK ?m (rb_next r (tree6 (tables ?db1 T))) T ?db1
               (length ?runL) = (?db2, length ?runL + length ?runR)"
      unfolding t1 using walk_right_while [OF d1 t1', of ?m "length ?runL"] by simp
    have e: "?res = sub_count T (length ?runL + length ?runR + 1) (remove_session r T ?db2)"
      using Some l r by (simp add: delete_sessions_by_ipv6_prefix_def Let_def)
    let ?ys = "r # ?runR @ ?runL"
    have t3: "tree6 (tables ?res T) = filter (\<lambda>p. p \<notin> set ?ys) (pre @ r # post)"
      unfolding e
      by (simp add: tables_sub_count tables_remove_session trees_remove_sessions t
          removeAll_filter conj_commute conj_left_commute cong: filter_cong)
    have dy: "distinct ?ys"
    proof -
      have "distinct ?runL" "distinct ?runR" using dd by (simp_all add: distinct_takeWhile)
      then show ?thesis using sL sR dd by auto
    qed
    have sy: "set ?ys \<subseteq> set (pre @ r # post)" using sL sR by auto
    have len: "length (tree6 (tables ?res T)) + (length ?runL + length ?runR + 1)
                 = length (tree6 (tables db T))"
      using length_filter_out [OF dd dy sy] by (simp add: t3 t)
    have a: "count (tables ?res T') =
           count (tables db T')
           - of_nat (length (tree6 (tables db T')) - length (tree6 (tables ?res T')))"
    proof (cases "T' = T")
      case True
      have "length (tree6 (tables db T)) - length (tree6 (tables ?res T))
              = length ?runL + length ?runR + 1"
        using len by arith
      then show ?thesis
        using True
        by (simp add: e tables_sub_count tables_remove_session count_remove_sessions)
    next
      case False
      then show ?thesis
        by (simp add: e tables_sub_count tables_remove_session count_remove_sessions
            remove_sessions_other)
    qed
    have b: "T' \<noteq> T \<longrightarrow> tree6 (tables ?res T') = tree6 (tables db T')"
      by (simp add: e tables_sub_count tables_remove_session remove_sessions_other)
    have c: "distinct (tree6 (tables ?res T))"
      unfolding t3 using dd by (rule distinct_filter)
    have f: "length (tree6 (tables ?res T')) \<le> length (tree6 (tables db T'))"
    proof (cases "T' = T")
      case True
      then show ?thesis using len by simp
    next
      case False
      then show ?thesis using b by simp
    qed
    from a b c f show ?thesis by blast
  qed
  then show "count (tables ?res T') =
           count (tables db T')
           - of_nat (length (tree6 (tables db T')) - length (tree6 (tables ?res T')))"
    and "T' \<noteq> T \<Longrightarrow> tree6 (tables ?res T') = tree6 (tables db T')"
    and "distinct (tree6 (tables ?res T))"
    and "length (tree6 (tables ?res T')) \<le> length (tree6 (tables db T'))"
    by blast+
qed

lemma sessiondb_delete_by_ipv6_prefix_count:
  assumes d: "\<And>T. distinct (tree6 (tables db T))"
  shows "count (tables (snd (sessiondb_delete_by_ipv6_prefix (Some prefix) db)) T) =
           count (tables db T)
           - of_nat (length (tree6 (tables db T))
                     - length (tree6 (tables (snd (sessiondb_delete_by_ipv6_prefix (Some prefix) db)) T)))"
proof -
  let ?db1 = "snd (delete_sessions_by_ipv6_prefix SESSION_TABLE_TCP prefix db)"
  let ?db2 = "snd (delete_sessions_by_ipv6_prefix SESSION_TABLE_ICMP prefix ?db1)"
  let ?db3 = "snd (delete_sessions_by_ipv6_prefix SESSION_TABLE_UDP prefix ?db2)"
  note f1 = delete_sessions_by_ipv6_prefix_tables [OF d [of SESSION_TABLE_TCP], where prefix = prefix]
  have d1: "distinct (tree6 (tables ?db1 SESSION_TABLE_ICMP))" using d by (simp add: f1(2))
  note f2 = delete_sessions_by_ipv6_prefix_tables [OF d1, where prefix = prefix]
  have d2: "distinct (tree6 (tables ?db2 SESSION_TABLE_UDP))" using d by (simp add: f2(2) f1(2))
  note f3 = delete_sessions_by_ipv6_prefix_tables [OF d2, where prefix = prefix]
  have r: "snd (sessiondb_delete_by_ipv6_prefix (Some prefix) db) = ?db3"
    by (simp add: sessiondb_delete_by_ipv6_prefix_def Let_def)
  have "count (tables ?db3 T) =
           count (tables db T)
           - of_nat (length (tree6 (tables db T)) - length (tree6 (tables ?db3 T)))"
  proof (cases T)
    case SESSION_TABLE_UDP
    have "tree6 (tables ?db2 T) = tree6 (tables db T)" "count (tables ?db2 T) = count (tables db T)"
      using SESSION_TABLE_UDP f1(1) [of T] f2(1) [of T] by (simp_all add: f1(2) f2(2))
    then show ?thesis using f3(1) [of T] by simp
  next
    case SESSION_TABLE_TCP
    have a: "tree6 (tables ?db3 T) = tree6 (tables ?db1 T)"
      using SESSION_TABLE_TCP by (simp add: f3(2) f2(2))
    have "count (tables ?db3 T) = count (tables ?db2 T)"
      using SESSION_TABLE_TCP f3(1) [of T] by (simp add: f3(2))
    moreover have "count (tables ?db2 T) = count (tables ?db1 T)"
      using SESSION_TABLE_TCP f2(1) [of T] by (simp add: f2(2))
    ultimately show ?thesis using f1(1) [of T] a by simp
  next
    case SESSION_TABLE_ICMP
    have a: "tree6 (tables ?db3 T) = tree6 (tables ?db2 T)"
      "tree6 (tables ?db1 T) = tree6 (tables db T)"
      using SESSION_TABLE_ICMP by (simp_all add: f3(2) f1(2))
    have "count (tables ?db3 T) = count (tables ?db2 T)"
      using SESSION_TABLE_ICMP f3(1) [of T] by (simp add: f3(2))
    moreover have "count (tables ?db1 T) = count (tables db T)"
      using SESSION_TABLE_ICMP f1(1) [of T] by (simp add: f1(2))
    ultimately show ?thesis using f2(1) [of T] a by simp
  qed
  then show ?thesis by (simp only: r)
qed

lemma sessiondb_delete_by_ipv4_length:
  assumes d: "\<And>T. distinct (tree4 (tables db T))"
  shows "length (tree4 (tables (snd (sessiondb_delete_by_ipv4 (Some addr) db)) T)) \<le> length (tree4 (tables db T))"
proof -
  let ?db1 = "snd (delete_sessions_by_ipv4 SESSION_TABLE_TCP addr db)"
  let ?db2 = "snd (delete_sessions_by_ipv4 SESSION_TABLE_ICMP addr ?db1)"
  let ?db3 = "snd (delete_sessions_by_ipv4 SESSION_TABLE_UDP addr ?db2)"
  note f1 = delete_sessions_by_ipv4_tables [OF d [of SESSION_TABLE_TCP], where addr = addr]
  have d1: "distinct (tree4 (tables ?db1 SESSION_TABLE_ICMP))" using d by (simp add: f1(2))
  note f2 = delete_sessions_by_ipv4_tables [OF d1, where addr = addr]
  have d2: "distinct (tree4 (tables ?db2 SESSION_TABLE_UDP))" using d by (simp add: f2(2) f1(2))
  note f3 = delete_sessions_by_ipv4_tables [OF d2, where addr = addr]
  have r: "snd (sessiondb_delete_by_ipv4 (Some addr) db) = ?db3"
    by (simp add: sessiondb_delete_by_ipv4_def Let_def)
  have "length (tree4 (tables ?db3 T)) \<le> length (tree4 (tables ?db2 T))" by (rule f3(4))
  also have "\<dots> \<le> length (tree4 (tables ?db1 T))" by (rule f2(4))
  also have "\<dots> \<le> length (tree4 (tables db T))" by (rule f1(4))
  finally show ?thesis by (simp only: r)
qed

lemma sessiondb_delete_by_ipv6_prefix_length:
  assumes d: "\<And>T. distinct (tree6 (tables db T))"
  shows "length (tree6 (tables (snd (sessiondb_delete_by_ipv6_prefix (Some prefix) db)) T)) \<le> length (tree6 (tables db T))"
proof -
  let ?db1 = "snd (delete_sessions_by_ipv6_prefix SESSION_TABLE_TCP prefix db)"
  let ?db2 = "snd (delete_sessions_by_ipv6_prefix SESSION_TABLE_ICMP prefix ?db1)"
  let ?db3 = "snd (delete_sessions_by_ipv6_prefix SESSION_TABLE_UDP prefix ?db2)"
  note f1 = delete_sessions_by_ipv6_prefix_tables [OF d [of SESSION_TABLE_TCP], where prefix = prefix]
  have d1: "distinct (tree6 (tables ?db1 SESSION_TABLE_ICMP))" using d by (simp add: f1(2))
  note f2 = delete_sessions_by_ipv6_prefix_tables [OF d1, where prefix = prefix]
  have d2: "distinct (tree6 (tables ?db2 SESSION_TABLE_UDP))" using d by (simp add: f2(2) f1(2))
  note f3 = delete_sessions_by_ipv6_prefix_tables [OF d2, where prefix = prefix]
  have r: "snd (sessiondb_delete_by_ipv6_prefix (Some prefix) db) = ?db3"
    by (simp add: sessiondb_delete_by_ipv6_prefix_def Let_def)
  have "length (tree6 (tables ?db3 T)) \<le> length (tree6 (tables ?db2 T))" by (rule f3(4))
  also have "\<dots> \<le> length (tree6 (tables ?db1 T))" by (rule f2(4))
  also have "\<dots> \<le> length (tree6 (tables db T))" by (rule f1(4))
  finally show ?thesis by (simp only: r)
qed

lemma bulk_removal_answers:
  "fst (sessiondb_flush db) = None"
  "fst (sessiondb_delete_by_ipv4 addr4 db) = (case addr4 of None \<Rightarrow> Some EINVAL | Some a \<Rightarrow> None)"
  "fst (sessiondb_delete_by_ipv6_prefix prefix_arg db) =
     (case prefix_arg of None \<Rightarrow> Some EINVAL | Some a \<Rightarrow> None)"
  "fst (sessiondb_delete_by_bib b db) =
     (case get_session_table (bib_l4_proto (bibs db b)) of Inl e \<Rightarrow> Some e | Inr T \<Rightarrow> None)"
  by (simp_all add: sessiondb_flush_def sessiondb_delete_by_ipv4_def
      sessiondb_delete_by_ipv6_prefix_def sessiondb_delete_by_bib_def Let_def
      split: option.splits sum.splits prod.splits)

lemma example_db_udp_tree4:
  "tree4 (tables example_db_udp T) = (if T = SESSION_TABLE_UDP then [1, 2] else [])"
  "count (tables example_db_udp T) = (if T = SESSION_TABLE_UDP then 2 else 0)"
  "bib_l4_proto (bibs example_db_udp b) = L4PROTO_NONE"
  by (simp_all add: example_db_udp_def empty_db_def)

lemma example_db_udp_bib_facts:
  "tree4 (tables example_db_udp_bib T) = (if T = SESSION_TABLE_UDP then [1, 2] else [])"
  "tree6 (tables example_db_udp_bib T) = (if T = SESSION_TABLE_UDP then [1, 2] else [])"
  "count (tables example_db_udp_bib T) = (if T = SESSION_TABLE_UDP then 2 else 0)"
  "bib_l4_proto (bibs example_db_udp_bib 0) = L4PROTO_UDP"
  "bib_l4_proto (bibs example_db_udp_bib 1) = L4PROTO_NONE"
  "bib_ipv4 (bibs example_db_udp_bib 0) = \<lparr>l3 = [192, 168, 2, 1], l4 = 1001\<rparr>"
  "local (ipv4 (heap example_db_udp_bib 1)) = \<lparr>l3 = [192, 168, 2, 1], l4 = 1001\<rparr>"
  "local (ipv4 (heap example_db_udp_bib 2)) = \<lparr>l3 = [192, 168, 2, 1], l4 = 1002\<rparr>"
  "l3 (local (ipv6 (heap example_db_udp_bib 1)))
     = [0, 0x64, 0xff, 0x9b, 0, 0, 0, 0, 0, 0, 0, 0, 192, 0, 2, 1]"
  "l3 (local (ipv6 (heap example_db_udp_bib 2)))
     = [0, 0x64, 0xff, 0x9b, 0, 0, 0, 0, 0, 0, 0, 0, 192, 0, 2, 1]"
  "bib_l4_proto (bibs example_db_udp_bib (Suc 0)) = L4PROTO_NONE"
  "local (ipv4 (heap example_db_udp_bib (Suc 0))) = \<lparr>l3 = [192, 168, 2, 1], l4 = 1001\<rparr>"
  "l3 (local (ipv6 (heap example_db_udp_bib (Suc 0))))
     = [0, 0x64, 0xff, 0x9b, 0, 0, 0, 0, 0, 0, 0, 0, 192, 0, 2, 1]"
  by (simp_all add: example_db_udp_bib_def example_db_udp_def empty_db_def example_entry_def)

lemma example_delete_by_bib:
  "tree4 (tables (snd (sessiondb_delete_by_bib 0 example_db_udp_bib)) SESSION_TABLE_UDP) = [2]"
proof -
  let ?db = example_db_udp_bib
  let ?key = "\<lparr>l3 = [192, 168, 2, 1], l4 = 1001\<rparr> :: tuple_addr"
  have c1: "compare_local4 (heap ?db 1) ?key = 0"
    by (simp add: compare_local4_def ipv4_addr_cmp_def example_db_udp_bib_facts)
  have c2: "compare_local4 (heap ?db 2) ?key \<noteq> 0"
    by (simp add: compare_local4_def ipv4_addr_cmp_def example_db_udp_bib_facts)
  have f: "rbtree_find compare_local4 (heap ?db) ?key (tree4 (tables ?db SESSION_TABLE_UDP))
             = Some 1"
    using c1 by (simp add: rbtree_find_def example_db_udp_bib_facts)
  have l: "delete_beside LEFT compare_local4 ?key 1 SESSION_TABLE_UDP ?db 0 = (?db, 0)"
    by (subst delete_beside.simps)
      (simp add: rb_step_def rb_prev_def rb_prevs_def example_db_udp_bib_facts)
  have r: "delete_beside RIGHT compare_local4 ?key 1 SESSION_TABLE_UDP ?db 0 = (?db, 0)"
    using c2
    by (subst delete_beside.simps)
      (simp add: rb_step_def rb_next_def rb_nexts_def example_db_udp_bib_facts)
  have "snd (sessiondb_delete_by_bib 0 ?db) =
          sub_count SESSION_TABLE_UDP 1 (remove_session 1 SESSION_TABLE_UDP ?db)"
    using f l r
    by (simp add: sessiondb_delete_by_bib_def get_session_table_def example_db_udp_bib_facts)
  then show ?thesis
    by (simp add: tables_sub_count tables_remove_session example_db_udp_bib_facts)
qed

lemma example_delete_by_ipv4:
  "tree4 (tables (snd (sessiondb_delete_by_ipv4 (Some [192, 168, 2, 1]) example_db_udp_bib))
     SESSION_TABLE_UDP) = []"
proof -
  let ?db = example_db_udp_bib
  let ?key = "[192, 168, 2, 1] :: in_addr"
  let ?db1 = "remove_session 2 SESSION_TABLE_UDP ?db"
  have c: "compare_local_addr4 (heap ?db 1) ?key = 0" "compare_local_addr4 (heap ?db 2) ?key = 0"
    by (simp_all add: compare_local_addr4_def ipv4_addr_cmp_def example_db_udp_bib_facts)
  have e: "delete_sessions_by_ipv4 T ?key ?db = (None, ?db)" if "T \<noteq> SESSION_TABLE_UDP" for T
    using that
    by (simp add: delete_sessions_by_ipv4_def rbtree_find_def example_db_udp_bib_facts)
  have f: "rbtree_find compare_local_addr4 (heap ?db) ?key (tree4 (tables ?db SESSION_TABLE_UDP))
             = Some 1"
    using c by (simp add: rbtree_find_def example_db_udp_bib_facts)
  have l: "delete_beside LEFT compare_local_addr4 ?key 1 SESSION_TABLE_UDP ?db 0 = (?db, 0)"
    by (subst delete_beside.simps)
      (simp add: rb_step_def rb_prev_def rb_prevs_def example_db_udp_bib_facts)
  have t1: "tree4 (tables ?db1 SESSION_TABLE_UDP) = [1]"
    by (simp add: tables_remove_session example_db_udp_bib_facts)
  have r1: "delete_beside RIGHT compare_local_addr4 ?key 1 SESSION_TABLE_UDP ?db1 1 = (?db1, 1)"
    by (subst delete_beside.simps)
      (simp add: rb_step_def rb_next_def rb_nexts_def t1)
  have r: "delete_beside RIGHT compare_local_addr4 ?key 1 SESSION_TABLE_UDP ?db 0 = (?db1, 1)"
    using c r1
    by (subst delete_beside.simps)
      (simp add: rb_step_def rb_next_def rb_nexts_def example_db_udp_bib_facts)
  have "snd (delete_sessions_by_ipv4 SESSION_TABLE_UDP ?key ?db) =
          sub_count SESSION_TABLE_UDP (Suc (Suc 0)) (remove_session 1 SESSION_TABLE_UDP ?db1)"
    using f l r by (simp add: delete_sessions_by_ipv4_def)
  then have "snd (sessiondb_delete_by_ipv4 (Some ?key) ?db) =
          sub_count SESSION_TABLE_UDP (Suc (Suc 0)) (remove_session 1 SESSION_TABLE_UDP ?db1)"
    by (simp add: sessiondb_delete_by_ipv4_def e)
  then show ?thesis
    by (simp add: tables_sub_count tables_remove_session example_db_udp_bib_facts)
qed

lemma example_delete_by_prefix:
  "tree6 (tables (snd (sessiondb_delete_by_ipv6_prefix (Some example_prefix96) example_db_udp_bib))
     SESSION_TABLE_UDP) = []"
proof -
  let ?db = example_db_udp_bib
  let ?key = example_prefix96
  let ?m = "\<lambda>session. sessiondb_ipv6_prefix_equal session ?key"
  let ?db1 = "remove_session 2 SESSION_TABLE_UDP ?db"
  have m: "?m (heap ?db 1)" "?m (heap ?db 2)"
    by (simp_all add: sessiondb_ipv6_prefix_equal_def ipv6_prefix_equal_def example_prefix96_def
        example_db_udp_bib_facts)
  then have c: "compare_local_prefix6 (heap ?db 1) ?key = 0"
    by (simp add: compare_local_prefix6_def Let_def)
  have e: "delete_sessions_by_ipv6_prefix T ?key ?db = (None, ?db)" if "T \<noteq> SESSION_TABLE_UDP" for T
    using that
    by (simp add: delete_sessions_by_ipv6_prefix_def rbtree_find_def example_db_udp_bib_facts)
  have f: "rbtree_find compare_local_prefix6 (heap ?db) ?key (tree6 (tables ?db SESSION_TABLE_UDP))
             = Some 1"
    using c by (simp add: rbtree_find_def example_db_udp_bib_facts)
  have l: "delete_along LEFT TREE6_HOOK ?m (rb_prev 1 (tree6 (tables ?db SESSION_TABLE_UDP)))
             SESSION_TABLE_UDP ?db 0 = (?db, 0)"
    by (simp add: rb_prev_def rb_prevs_def example_db_udp_bib_facts delete_along.simps)
  have r: "delete_along RIGHT TREE6_HOOK ?m (rb_next 1 (tree6 (tables ?db SESSION_TABLE_UDP)))
             SESSION_TABLE_UDP ?db 0 = (?db1, 1)"
    using m
    by (simp add: rb_next_def rb_nexts_def rb_step_def tree_of_def example_db_udp_bib_facts
        delete_along.simps)
  have "snd (delete_sessions_by_ipv6_prefix SESSION_TABLE_UDP ?key ?db) =
          sub_count SESSION_TABLE_UDP (Suc (Suc 0)) (remove_session 1 SESSION_TABLE_UDP ?db1)"
    using f l r by (simp add: delete_sessions_by_ipv6_prefix_def)
  then have "snd (sessiondb_delete_by_ipv6_prefix (Some ?key) ?db) =
          sub_count SESSION_TABLE_UDP (Suc (Suc 0)) (remove_session 1 SESSION_TABLE_UDP ?db1)"
    by (simp add: sessiondb_delete_by_ipv6_prefix_def e)
  then show ?thesis
    by (simp add: tables_sub_count tables_remove_session example_db_udp_bib_facts)
qed

text \<open>
  The comparison of prefixes that \<open>sessiondb_delete_by_ipv6_prefix\<close> relies on looks at
  bits: \<open>2001:db8::1\<close> and \<open>2001:db9::1\<close> agree on 31 bits and not on 32; \<open>2001:db8::1\<close>
  and \<open>2001:dba::1\<close> do not agree on 31.
\<close>

lemma ipv6_prefix_equal_bits:
  "ipv6_prefix_equal [0x20, 0x01, 0x0d, 0xb8, 0, 0, 0, 0, 0, 0, 0, 0, 0, 0, 0, 1]
     [0x20, 0x01, 0x0d, 0xb9, 0, 0, 0, 0, 0, 0, 0, 0, 0, 0, 0, 1] 31"
  "\<not> ipv6_prefix_equal [0x20, 0x01, 0x0d, 0xb8, 0, 0, 0, 0, 0, 0, 0, 0, 0, 0, 0, 1]
     [0x20, 0x01, 0x0d, 0xb9, 0, 0, 0, 0, 0, 0, 0, 0, 0, 0, 0, 1] 32"
  "\<not> ipv6_prefix_equal [0x20, 0x01, 0x0d, 0xb8, 0, 0, 0, 0, 0, 0, 0, 0, 0, 0, 0, 1]
     [0x20, 0x01, 0x0d, 0xba, 0, 0, 0, 0, 0, 0, 0, 0, 0, 0, 0, 1] 31"
  by (simp_all add: ipv6_prefix_equal_def drop_bit_eq_div)

text \<open>
  Claim C2, as stated, has every bulk removal return the number of sessions it deleted.
  \<open>sessiondb_flush\<close> on the database with two UDP sessions: both are removed and the count
  of the table goes from 2 to 0, and the function returns 0, not 2.
\<close>

theorem sessiondb_flush_returns_zero_counterexample:
  "tree4 (tables example_db_udp SESSION_TABLE_UDP) = [1, 2]
   \<and> count (tables example_db_udp SESSION_TABLE_UDP) = 2
   \<and> tree4 (tables (snd (sessiondb_flush example_db_udp)) SESSION_TABLE_UDP) = []
   \<and> count (tables (snd (sessiondb_flush example_db_udp)) SESSION_TABLE_UDP) = 0
   \<and> returned (fst (sessiondb_flush example_db_udp)) = 0
   \<and> returned (fst (sessiondb_flush example_db_udp)) \<noteq> 2"
proof -
  have d: "distinct (tree4 (tables example_db_udp T))" for T
    by (simp add: example_db_udp_tree4)
  note f = sessiondb_flush_tables [of example_db_udp, OF d]
  show ?thesis
    by (simp add: f bulk_removal_answers returned_def example_db_udp_tree4)
qed

text \<open>
  Claim C2, amended. The four bulk removals return an error code, not a count:
  \<open>sessiondb_flush\<close>, \<open>sessiondb_delete_by_ipv4\<close> and \<open>sessiondb_delete_by_ipv6_prefix\<close> return
  0 whatever they removed (and \<open>-EINVAL\<close> for a null argument, changing nothing), and
  \<open>sessiondb_delete_by_bib\<close> returns 0 unless the protocol of the BIB entry is none of TCP,
  UDP and ICMP, when it returns \<open>-EINVAL\<close> and changes nothing. The number of sessions removed
  is taken off the count of the table, by each of the four, in trees that hold no node
  twice: after \<open>sessiondb_delete_by_bib\<close> and after \<open>sessiondb_delete_by_ipv4\<close> the IPv4 tree
  of every table is no longer than before and the count of the table is lower by the number
  of nodes that tree lost; after \<open>sessiondb_delete_by_ipv6_prefix\<close> the same holds with the
  IPv6 tree, which is the one it walks; after \<open>sessiondb_flush\<close> every IPv4 tree is empty,
  every IPv6 tree has lost the sessions of the IPv4 tree, and every count is lower by the
  number of sessions the IPv4 tree held.
\<close>

theorem bulk_removal_returns_error_code:
  "returned (fst (sessiondb_flush db)) = 0
   \<and> returned (fst (sessiondb_delete_by_ipv4 (Some addr) db)) = 0
   \<and> returned (fst (sessiondb_delete_by_ipv6_prefix (Some prefix) db)) = 0
   \<and> (bib_l4_proto (bibs db b) \<noteq> L4PROTO_NONE \<longrightarrow>
        returned (fst (sessiondb_delete_by_bib b db)) = 0)
   \<and> (bib_l4_proto (bibs db b) = L4PROTO_NONE \<longrightarrow>
        sessiondb_delete_by_bib b db = (Some EINVAL, db))
   \<and> sessiondb_delete_by_ipv4 None db = (Some EINVAL, db)
   \<and> sessiondb_delete_by_ipv6_prefix None db = (Some EINVAL, db)
   \<and> ((\<forall>T. distinct (tree4 (tables db T))) \<longrightarrow>
        (\<forall>T. tree4 (tables (snd (sessiondb_flush db)) T) = []
           \<and> tree6 (tables (snd (sessiondb_flush db)) T) =
               filter (\<lambda>p. p \<notin> set (tree4 (tables db T))) (tree6 (tables db T))
           \<and> count (tables (snd (sessiondb_flush db)) T) =
               count (tables db T) - of_nat (length (tree4 (tables db T)))
           \<and> length (tree4 (tables (snd (sessiondb_delete_by_bib b db)) T))
               \<le> length (tree4 (tables db T))
           \<and> count (tables (snd (sessiondb_delete_by_bib b db)) T) =
               count (tables db T)
               - of_nat (length (tree4 (tables db T))
                         - length (tree4 (tables (snd (sessiondb_delete_by_bib b db)) T)))
           \<and> length (tree4 (tables (snd (sessiondb_delete_by_ipv4 (Some addr) db)) T))
               \<le> length (tree4 (tables db T))
           \<and> count (tables (snd (sessiondb_delete_by_ipv4 (Some addr) db)) T) =
               count (tables db T)
               - of_nat (length (tree4 (tables db T))
                         - length (tree4 (tables (snd (sessiondb_delete_by_ipv4 (Some addr) db))
                                     T)))))
   \<and> ((\<forall>T. distinct (tree6 (tables db T))) \<longrightarrow>
        (\<forall>T. length (tree6 (tables (snd (sessiondb_delete_by_ipv6_prefix (Some prefix) db)) T))
               \<le> length (tree6 (tables db T))
           \<and> count (tables (snd (sessiondb_delete_by_ipv6_prefix (Some prefix) db)) T) =
               count (tables db T)
               - of_nat (length (tree6 (tables db T))
                         - length (tree6 (tables
                             (snd (sessiondb_delete_by_ipv6_prefix (Some prefix) db)) T)))))"
proof (intro conjI impI allI)
  show "returned (fst (sessiondb_flush db)) = 0"
    by (simp add: bulk_removal_answers returned_def)
  show "returned (fst (sessiondb_delete_by_ipv4 (Some addr) db)) = 0"
    by (simp add: bulk_removal_answers returned_def)
  show "returned (fst (sessiondb_delete_by_ipv6_prefix (Some prefix) db)) = 0"
    by (simp add: bulk_removal_answers returned_def)
  show "returned (fst (sessiondb_delete_by_bib b db)) = 0"
    if "bib_l4_proto (bibs db b) \<noteq> L4PROTO_NONE"
    using that
    by (cases "bib_l4_proto (bibs db b)")
      (simp_all add: bulk_removal_answers returned_def get_session_table_def)
  show "sessiondb_delete_by_bib b db = (Some EINVAL, db)"
    if "bib_l4_proto (bibs db b) = L4PROTO_NONE"
    using that by (simp add: sessiondb_delete_by_bib_def get_session_table_def)
  show "sessiondb_delete_by_ipv4 None db = (Some EINVAL, db)"
    by (simp add: sessiondb_delete_by_ipv4_def)
  show "sessiondb_delete_by_ipv6_prefix None db = (Some EINVAL, db)"
    by (simp add: sessiondb_delete_by_ipv6_prefix_def)
next
  fix T
  assume d: "\<forall>T. distinct (tree4 (tables db T))"
  then have d': "\<And>T. distinct (tree4 (tables db T))" by simp
  show "tree4 (tables (snd (sessiondb_flush db)) T) = []"
    by (rule sessiondb_flush_tables [OF d'])
  show "tree6 (tables (snd (sessiondb_flush db)) T) =
               filter (\<lambda>p. p \<notin> set (tree4 (tables db T))) (tree6 (tables db T))"
    by (rule sessiondb_flush_tables [OF d'])
  show "count (tables (snd (sessiondb_flush db)) T) =
               count (tables db T) - of_nat (length (tree4 (tables db T)))"
    by (rule sessiondb_flush_tables [OF d'])
  show "length (tree4 (tables (snd (sessiondb_delete_by_bib b db)) T))
               \<le> length (tree4 (tables db T))"
    using sessiondb_delete_by_bib_count [OF d', of b T] by (rule conjunct2)
  show "count (tables (snd (sessiondb_delete_by_bib b db)) T) =
               count (tables db T)
               - of_nat (length (tree4 (tables db T))
                         - length (tree4 (tables (snd (sessiondb_delete_by_bib b db)) T)))"
    using sessiondb_delete_by_bib_count [OF d', of b T] by (rule conjunct1)
  show "length (tree4 (tables (snd (sessiondb_delete_by_ipv4 (Some addr) db)) T))
               \<le> length (tree4 (tables db T))"
    by (rule sessiondb_delete_by_ipv4_length [OF d'])
  show "count (tables (snd (sessiondb_delete_by_ipv4 (Some addr) db)) T) =
               count (tables db T)
               - of_nat (length (tree4 (tables db T))
                         - length (tree4 (tables (snd (sessiondb_delete_by_ipv4 (Some addr) db))
                                     T)))"
    by (rule sessiondb_delete_by_ipv4_count [OF d'])
next
  fix T
  assume d: "\<forall>T. distinct (tree6 (tables db T))"
  then have d': "\<And>T. distinct (tree6 (tables db T))" by simp
  show "length (tree6 (tables (snd (sessiondb_delete_by_ipv6_prefix (Some prefix) db)) T))
               \<le> length (tree6 (tables db T))"
    by (rule sessiondb_delete_by_ipv6_prefix_length [OF d'])
  show "count (tables (snd (sessiondb_delete_by_ipv6_prefix (Some prefix) db)) T) =
               count (tables db T)
               - of_nat (length (tree6 (tables db T))
                         - length (tree6 (tables
                             (snd (sessiondb_delete_by_ipv6_prefix (Some prefix) db)) T)))"
    by (rule sessiondb_delete_by_ipv6_prefix_count [OF d'])
qed

text \<open>
  The database with two UDP sessions behind \<open>192.168.2.1\<close>, ports 1001 and 1002. Removal by
  the BIB entry of port 1001 takes the first session and leaves a count of 1; removal by an
  entry without a protocol is refused; removal by the address \<open>192.168.2.1\<close>, by the prefix
  \<open>64:ff9b::/96\<close> and the flush take both sessions and leave a count of 0. All of them that
  run return 0.
\<close>

theorem bulk_removal_returns_error_code_witness:
  "bib_l4_proto (bibs example_db_udp_bib 0) \<noteq> L4PROTO_NONE
   \<and> bib_l4_proto (bibs example_db_udp_bib 1) = L4PROTO_NONE
   \<and> (\<forall>T. distinct (tree4 (tables example_db_udp_bib T)))
   \<and> (\<forall>T. distinct (tree6 (tables example_db_udp_bib T)))
   \<and> tree4 (tables example_db_udp_bib SESSION_TABLE_UDP) = [1, 2]
   \<and> count (tables example_db_udp_bib SESSION_TABLE_UDP) = 2
   \<and> returned (fst (sessiondb_delete_by_bib 0 example_db_udp_bib)) = 0
   \<and> tree4 (tables (snd (sessiondb_delete_by_bib 0 example_db_udp_bib)) SESSION_TABLE_UDP) = [2]
   \<and> count (tables (snd (sessiondb_delete_by_bib 0 example_db_udp_bib)) SESSION_TABLE_UDP) = 1
   \<and> sessiondb_delete_by_bib 1 example_db_udp_bib = (Some EINVAL, example_db_udp_bib)
   \<and> returned (fst (sessiondb_delete_by_ipv4 (Some [192, 168, 2, 1]) example_db_udp_bib)) = 0
   \<and> tree4 (tables (snd (sessiondb_delete_by_ipv4 (Some [192, 168, 2, 1]) example_db_udp_bib))
        SESSION_TABLE_UDP) = []
   \<and> count (tables (snd (sessiondb_delete_by_ipv4 (Some [192, 168, 2, 1]) example_db_udp_bib))
        SESSION_TABLE_UDP) = 0
   \<and> returned (fst (sessiondb_delete_by_ipv6_prefix (Some example_prefix96) example_db_udp_bib))
        = 0
   \<and> tree6 (tables (snd (sessiondb_delete_by_ipv6_prefix (Some example_prefix96)
        example_db_udp_bib)) SESSION_TABLE_UDP) = []
   \<and> count (tables (snd (sessiondb_delete_by_ipv6_prefix (Some example_prefix96)
        example_db_udp_bib)) SESSION_TABLE_UDP) = 0
   \<and> returned (fst (sessiondb_flush example_db_udp_bib)) = 0
   \<and> tree4 (tables (snd (sessiondb_flush example_db_udp_bib)) SESSION_TABLE_UDP) = []
   \<and> count (tables (snd (sessiondb_flush example_db_udp_bib)) SESSION_TABLE_UDP) = 0"
proof -
  let ?db = example_db_udp_bib
  have b0: "bib_l4_proto (bibs ?db 0) \<noteq> L4PROTO_NONE"
    by (simp add: example_db_udp_bib_facts)
  have b1: "bib_l4_proto (bibs ?db 1) = L4PROTO_NONE"
    by (simp add: example_db_udp_bib_facts)
  have d4: "\<forall>T. distinct (tree4 (tables ?db T))"
    by (simp add: example_db_udp_bib_facts)
  have d6: "\<forall>T. distinct (tree6 (tables ?db T))"
    by (simp add: example_db_udp_bib_facts)
  have t: "tree4 (tables ?db SESSION_TABLE_UDP) = [1, 2]"
    "tree6 (tables ?db SESSION_TABLE_UDP) = [1, 2]"
    and c: "count (tables ?db SESSION_TABLE_UDP) = 2"
    by (simp_all add: example_db_udp_bib_facts)
  note T0 = bulk_removal_returns_error_code
    [where db = ?db and b = 0 and addr = "[192, 168, 2, 1]" and prefix = example_prefix96]
  note T1 = bulk_removal_returns_error_code
    [where db = ?db and b = 1 and addr = "[192, 168, 2, 1]" and prefix = example_prefix96]
  have r0: "returned (fst (sessiondb_delete_by_bib 0 ?db)) = 0"
    using T0 b0 by blast
  have "count (tables (snd (sessiondb_delete_by_bib 0 ?db)) SESSION_TABLE_UDP) =
          count (tables ?db SESSION_TABLE_UDP)
          - of_nat (length (tree4 (tables ?db SESSION_TABLE_UDP))
                    - length (tree4 (tables (snd (sessiondb_delete_by_bib 0 ?db))
                                SESSION_TABLE_UDP)))"
    using T0 d4 by blast
  then have c0: "count (tables (snd (sessiondb_delete_by_bib 0 ?db)) SESSION_TABLE_UDP) = 1"
    by (simp add: example_delete_by_bib t c)
  have r1: "sessiondb_delete_by_bib 1 ?db = (Some EINVAL, ?db)"
    using T1 b1 by blast
  have r4: "returned (fst (sessiondb_delete_by_ipv4 (Some [192, 168, 2, 1]) ?db)) = 0"
    using T0 by blast
  have "count (tables (snd (sessiondb_delete_by_ipv4 (Some [192, 168, 2, 1]) ?db))
          SESSION_TABLE_UDP) =
          count (tables ?db SESSION_TABLE_UDP)
          - of_nat (length (tree4 (tables ?db SESSION_TABLE_UDP))
                    - length (tree4 (tables
                        (snd (sessiondb_delete_by_ipv4 (Some [192, 168, 2, 1]) ?db))
                        SESSION_TABLE_UDP)))"
    using T0 d4 by blast
  then have c4: "count (tables (snd (sessiondb_delete_by_ipv4 (Some [192, 168, 2, 1]) ?db))
          SESSION_TABLE_UDP) = 0"
    by (simp add: example_delete_by_ipv4 t c)
  have r6: "returned (fst (sessiondb_delete_by_ipv6_prefix (Some example_prefix96) ?db)) = 0"
    using T0 by blast
  have "count (tables (snd (sessiondb_delete_by_ipv6_prefix (Some example_prefix96) ?db))
          SESSION_TABLE_UDP) =
          count (tables ?db SESSION_TABLE_UDP)
          - of_nat (length (tree6 (tables ?db SESSION_TABLE_UDP))
                    - length (tree6 (tables
                        (snd (sessiondb_delete_by_ipv6_prefix (Some example_prefix96) ?db))
                        SESSION_TABLE_UDP)))"
    using T0 d6 by blast
  then have c6: "count (tables (snd (sessiondb_delete_by_ipv6_prefix (Some example_prefix96) ?db))
          SESSION_TABLE_UDP) = 0"
    by (simp add: example_delete_by_prefix t c)
  have rf: "returned (fst (sessiondb_flush ?db)) = 0"
    using T0 by blast
  have tf: "tree4 (tables (snd (sessiondb_flush ?db)) SESSION_TABLE_UDP) = []"
    using T0 d4 by blast
  have "count (tables (snd (sessiondb_flush ?db)) SESSION_TABLE_UDP) =
          count (tables ?db SESSION_TABLE_UDP)
          - of_nat (length (tree4 (tables ?db SESSION_TABLE_UDP)))"
    using T0 d4 by blast
  then have cf: "count (tables (snd (sessiondb_flush ?db)) SESSION_TABLE_UDP) = 0"
    by (simp add: t c)
  from b0 b1 d4 d6 t(1) c r0 example_delete_by_bib c0 r1 r4 example_delete_by_ipv4 c4 r6
    example_delete_by_prefix c6 rf tf cf
  show ?thesis by (intro conjI)
qed

end
